(* ===== verification/Rust_Prelude.thy ===== *)
theory Rust_Prelude
  imports Main "HOL-Library.Word"
begin

text \<open>
  The part of Rust's language and standard library that the crate uses: machine integers
  on a 64-bit target (\<open>usize\<close> is \<open>u64\<close>), the checked and the panicking arithmetic
  operators, outcomes of calls (\<open>Ok\<close>, \<open>Err\<close>, panic), stateful computations with the
  short-circuiting of the question-mark operator, \<open>chunks_exact\<close>, and the generic lemmas on
  them that every component shares.
\<close>

unbundle bit_operations_syntax

section \<open>Machine integers\<close>

type_synonym u8 = "8 word"
type_synonym u16 = "16 word"
type_synonym u32 = "32 word"
type_synonym u64 = "64 word"
type_synonym usize = "64 word"

text \<open>\<open>isize::MAX\<close>: no Rust allocation is larger.\<close>

definition isize_max :: nat where
  "isize_max = 2 ^ 63 - 1"

definition checked_add :: "'a::len word \<Rightarrow> 'a word \<Rightarrow> 'a word option" where
  "checked_add a b = (if unat a + unat b < 2 ^ LENGTH('a) then Some (a + b) else None)"

definition checked_sub :: "'a::len word \<Rightarrow> 'a word \<Rightarrow> 'a word option" where
  "checked_sub a b = (if b \<le> a then Some (a - b) else None)"

definition checked_mul :: "'a::len word \<Rightarrow> 'a word \<Rightarrow> 'a word option" where
  "checked_mul a b = (if unat a * unat b < 2 ^ LENGTH('a) then Some (a * b) else None)"

lemma checked_add_eq_Some [simp]:
  "checked_add a b = Some c \<longleftrightarrow> unat c = unat a + unat b"
proof
  assume "checked_add a b = Some c"
  then show "unat c = unat a + unat b"
    by (auto simp: checked_add_def unat_word_ariths split: if_splits)
next
  assume eq: "unat c = unat a + unat b"
  then have "unat a + unat b < 2 ^ LENGTH('a)"
    by (metis unsigned_less)
  moreover from this have "unat (a + b) = unat c"
    by (simp add: eq unat_word_ariths)
  ultimately show "checked_add a b = Some c"
    by (simp add: checked_add_def word_unat_eq_iff)
qed

lemma checked_add_eq_None [simp]:
  "checked_add (a :: 'a::len word) b = None \<longleftrightarrow> 2 ^ LENGTH('a) \<le> unat a + unat b"
  by (auto simp: checked_add_def)

lemma checked_sub_eq_Some [simp]:
  "checked_sub a b = Some c \<longleftrightarrow> unat a = unat b + unat c"
proof
  assume "checked_sub a b = Some c"
  then show "unat a = unat b + unat c"
    by (auto simp: checked_sub_def unat_sub word_le_nat_alt split: if_splits)
next
  assume eq: "unat a = unat b + unat c"
  then have "b \<le> a" by (simp add: word_le_nat_alt)
  moreover from this have "unat (a - b) = unat c"
    by (simp add: eq unat_sub)
  ultimately show "checked_sub a b = Some c"
    by (simp add: checked_sub_def word_unat_eq_iff)
qed

lemma checked_sub_eq_None [simp]: "checked_sub a b = None \<longleftrightarrow> unat a < unat b"
  by (auto simp: checked_sub_def word_le_nat_alt)

lemma checked_mul_eq_Some [simp]:
  "checked_mul a b = Some c \<longleftrightarrow> unat c = unat a * unat b"
proof
  assume "checked_mul a b = Some c"
  then show "unat c = unat a * unat b"
    by (auto simp: checked_mul_def unat_word_ariths split: if_splits)
next
  assume eq: "unat c = unat a * unat b"
  then have "unat a * unat b < 2 ^ LENGTH('a)"
    by (metis unsigned_less)
  moreover from this have "unat (a * b) = unat c"
    by (simp add: eq unat_word_ariths)
  ultimately show "checked_mul a b = Some c"
    by (simp add: checked_mul_def word_unat_eq_iff)
qed

lemma checked_mul_eq_None [simp]:
  "checked_mul (a :: 'a::len word) b = None \<longleftrightarrow> 2 ^ LENGTH('a) \<le> unat a * unat b"
  by (auto simp: checked_mul_def)

text \<open>\<open>u32::try_from\<close> on a \<open>usize\<close>.\<close>

definition u32_try_from :: "usize \<Rightarrow> u32 option" where
  "u32_try_from n = (if unat n < 2 ^ 32 then Some (ucast n) else None)"

lemma unat_of_nat_len: "n < 2 ^ LENGTH('a) \<Longrightarrow> unat (of_nat n :: 'a::len word) = n"
  by (simp add: unat_of_nat)

text \<open>Rounding down to a multiple of eight, as \<open>x & !7\<close> does.\<close>

lemma unat_and_not_7: "unat ((x :: usize) AND NOT 7) = 8 * (unat x div 8)"
proof -
  have m: "(7 :: usize) = mask 3" by (simp add: mask_eq_exp_minus_1)
  have "x AND NOT (mask 3) = push_bit 3 (drop_bit 3 x)"
    by (rule bit_eqI) (auto simp: bit_simps)
  then have "unat (x AND NOT 7) = unat (push_bit 3 (drop_bit 3 x))"
    by (simp only: m)
  also have "\<dots> = 8 * (unat x div 8)"
  proof -
    have d: "unat (drop_bit 3 x) = unat x div 8"
      by (simp add: drop_bit_eq_div unat_div_distrib)
    have "unat x < 2 ^ 64"
      using unsigned_less [of x, where ?'a = nat] by simp
    then have "8 * (unat x div 8) < 2 ^ 64"
      by simp
    then show ?thesis
      by (simp add: push_bit_eq_mult unat_word_ariths d mult.commute)
  qed
  finally show ?thesis .
qed

section \<open>Outcomes and panicking arithmetic\<close>

text \<open>
  A call returns \<open>Ok\<close>, returns \<open>Err\<close>, or panics. The arithmetic operators panic on
  overflow, as they do when overflow checks are on; where a theorem shows that a function
  never panics, the wrapping operators of a build without overflow checks agree with it.
\<close>

datatype ('e, 'a) outcome = Ok 'a | Err 'e | Panic

fun outcome_bind :: "('e, 'a) outcome \<Rightarrow> ('a \<Rightarrow> ('e, 'b) outcome) \<Rightarrow> ('e, 'b) outcome" where
  "outcome_bind (Ok a) f = f a"
| "outcome_bind (Err e) f = Err e"
| "outcome_bind Panic f = Panic"

fun is_panic :: "('e, 'a) outcome \<Rightarrow> bool" where
  "is_panic Panic = True"
| "is_panic _ = False"

text \<open>\<open>Option::ok_or\<close>.\<close>

fun ok_or :: "'a option \<Rightarrow> 'e \<Rightarrow> ('e, 'a) outcome" where
  "ok_or None e = Err e"
| "ok_or (Some a) e = Ok a"

fun or_panic :: "'a option \<Rightarrow> ('e, 'a) outcome" where
  "or_panic None = Panic"
| "or_panic (Some a) = Ok a"

lemma ok_or_eq_Ok [simp]: "ok_or x e = Ok a \<longleftrightarrow> x = Some a"
  by (cases x) auto

lemma ok_or_eq_Err [simp]: "ok_or x e = Err d \<longleftrightarrow> x = None \<and> d = e"
  by (cases x) auto

lemma ok_or_not_Panic [simp]: "ok_or x e \<noteq> Panic"
  by (cases x) auto

lemma or_panic_eq_Ok [simp]: "or_panic x = Ok a \<longleftrightarrow> x = Some a"
  by (cases x) auto

lemma or_panic_eq_Panic [simp]: "or_panic x = Panic \<longleftrightarrow> x = None"
  by (cases x) auto

lemma or_panic_not_Err [simp]: "or_panic x \<noteq> Err e"
  by (cases x) auto

lemma outcome_bind_eq_Ok:
  "outcome_bind m f = Ok b \<longleftrightarrow> (\<exists>a. m = Ok a \<and> f a = Ok b)"
  by (cases m) auto

definition add_op :: "'a::len word \<Rightarrow> 'a word \<Rightarrow> ('e, 'a word) outcome" where
  "add_op a b = or_panic (checked_add a b)"

definition mul_op :: "'a::len word \<Rightarrow> 'a word \<Rightarrow> ('e, 'a word) outcome" where
  "mul_op a b = or_panic (checked_mul a b)"

definition sub_op :: "'a::len word \<Rightarrow> 'a word \<Rightarrow> ('e, 'a word) outcome" where
  "sub_op a b = or_panic (checked_sub a b)"

lemma sub_op_eq_Ok [simp]: "sub_op a b = Ok c \<longleftrightarrow> unat a = unat b + unat c"
  by (simp add: sub_op_def)

lemma add_op_eq_Ok [simp]: "add_op a b = Ok c \<longleftrightarrow> unat c = unat a + unat b"
  by (simp add: add_op_def)

lemma mul_op_eq_Ok [simp]: "mul_op a b = Ok c \<longleftrightarrow> unat c = unat a * unat b"
  by (simp add: mul_op_def)

lemma add_op_Ok:
  "unat a + unat b < 2 ^ LENGTH('a) \<Longrightarrow> add_op (a :: 'a::len word) b = Ok (a + b)"
  by (simp add: unat_word_ariths)

lemma mul_op_Ok:
  "unat a * unat b < 2 ^ LENGTH('a) \<Longrightarrow> mul_op (a :: 'a::len word) b = Ok (a * b)"
  by (simp add: unat_word_ariths)

section \<open>Stateful computations\<close>

text \<open>
  A computation on a state \<open>'s\<close> returns an outcome and the next state, or \<open>None\<close> when
  it never returns (a progress loop that makes no progress). \<open>io_bind\<close> is sequencing with
  the question-mark operator: an error or a panic skips what follows, and the state changes
  made so far stay.
\<close>

type_synonym ('s, 'e, 'a) io = "'s \<Rightarrow> (('e, 'a) outcome \<times> 's) option"

definition io_return :: "'a \<Rightarrow> ('s, 'e, 'a) io" where
  "io_return a s = Some (Ok a, s)"

definition io_err :: "'e \<Rightarrow> ('s, 'e, 'a) io" where
  "io_err e s = Some (Err e, s)"

definition io_lift :: "('e, 'a) outcome \<Rightarrow> ('s, 'e, 'a) io" where
  "io_lift r s = Some (r, s)"

definition io_bind :: "('s, 'e, 'a) io \<Rightarrow> ('a \<Rightarrow> ('s, 'e, 'b) io) \<Rightarrow> ('s, 'e, 'b) io" where
  "io_bind m f s = (case m s of
      None \<Rightarrow> None
    | Some (Ok a, s') \<Rightarrow> f a s'
    | Some (Err e, s') \<Rightarrow> Some (Err e, s')
    | Some (Panic, s') \<Rightarrow> Some (Panic, s'))"

text \<open>A call of a binding that always returns, its error converted by \<open>map_err\<close>.\<close>

definition io_call :: "('x \<Rightarrow> 'e) \<Rightarrow> ('s \<Rightarrow> ('x + 'a) \<times> 's) \<Rightarrow> ('s, 'e, 'a) io" where
  "io_call conv f s = (case f s of
      (Inl x, s') \<Rightarrow> Some (Err (conv x), s')
    | (Inr a, s') \<Rightarrow> Some (Ok a, s'))"

text \<open>A call that cannot fail (a getter with an effect, a progress call, a destructor).\<close>

definition io_step :: "('s \<Rightarrow> 'a \<times> 's) \<Rightarrow> ('s, 'e, 'a) io" where
  "io_step f s = (case f s of (a, s') \<Rightarrow> Some (Ok a, s'))"

definition io_effect :: "('s \<Rightarrow> 's) \<Rightarrow> ('s, 'e, unit) io" where
  "io_effect f s = Some (Ok (), f s)"

lemma io_return_bind [simp]: "io_bind (io_return a) f = f a"
  by (rule ext) (simp add: io_bind_def io_return_def)

lemma io_err_bind [simp]: "io_bind (io_err e) f = io_err e"
  by (rule ext) (simp add: io_bind_def io_err_def)

lemma io_lift_simps [simp]:
  "io_lift (Ok a) = io_return a"
  "io_lift (Err e) = io_err e"
  "io_bind (io_lift Panic) f = io_lift Panic"
  by (rule ext, simp add: io_bind_def io_lift_def io_return_def io_err_def)+

lemma io_bind_return [simp]: "io_bind m io_return = m"
  by (rule ext) (auto simp: io_bind_def io_return_def split: option.splits outcome.splits)

lemma io_bind_assoc:
  "io_bind (io_bind m f) g = io_bind m (\<lambda>x. io_bind (f x) g)"
  by (rule ext) (auto simp: io_bind_def split: option.splits outcome.splits)

lemma io_result_cases:
  obtains "m s = None"
  | a s' where "m s = Some (Ok a, s')"
  | e s' where "m s = Some (Err e, s')"
  | s' where "m s = Some (Panic, s')"
  by (metis not_None_eq outcome.exhaust surj_pair)

lemma io_bind_Ok: "m s = Some (Ok a, s') \<Longrightarrow> io_bind m f s = f a s'"
  by (simp add: io_bind_def)

lemma io_bind_Err: "m s = Some (Err e, s') \<Longrightarrow> io_bind m f s = Some (Err e, s')"
  by (simp add: io_bind_def)

lemma io_bind_Panic: "m s = Some (Panic, s') \<Longrightarrow> io_bind m f s = Some (Panic, s')"
  by (simp add: io_bind_def)

lemma io_bind_None: "m s = None \<Longrightarrow> io_bind m f s = None"
  by (simp add: io_bind_def)

lemma io_bind_eq_Ok:
  "io_bind m f s = Some (Ok b, t) \<longleftrightarrow>
     (\<exists>a s'. m s = Some (Ok a, s') \<and> f a s' = Some (Ok b, t))"
  by (auto simp: io_bind_def split: option.splits outcome.splits)

text \<open>Values that an early return or a panic drops: their destructors run, the outcome stays.\<close>

definition io_on_fail :: "('s \<Rightarrow> 's) \<Rightarrow> ('s, 'e, 'a) io \<Rightarrow> ('s, 'e, 'a) io" where
  "io_on_fail cleanup m s = (case m s of
      None \<Rightarrow> None
    | Some (Ok a, s') \<Rightarrow> Some (Ok a, s')
    | Some (r, s') \<Rightarrow> Some (r, cleanup s'))"

text \<open>A value that is dropped at the end of the computation, however it ends.\<close>

definition io_finally :: "('s \<Rightarrow> 's) \<Rightarrow> ('s, 'e, 'a) io \<Rightarrow> ('s, 'e, 'a) io" where
  "io_finally cleanup m s = (case m s of
      None \<Rightarrow> None
    | Some (r, s') \<Rightarrow> Some (r, cleanup s'))"

text \<open>A match arm for \<open>Err\<close> that does something and returns the same error; a panic passes it.\<close>

definition io_on_err :: "('s \<Rightarrow> 's) \<Rightarrow> ('s, 'e, 'a) io \<Rightarrow> ('s, 'e, 'a) io" where
  "io_on_err arm m s = (case m s of
      Some (Err e, s') \<Rightarrow> Some (Err e, arm s')
    | r \<Rightarrow> r)"

text \<open>\<open>Result::ok\<close> and \<open>Option::or_else\<close> on computations.\<close>

definition io_ok :: "('s, 'e, 'a) io \<Rightarrow> ('s, 'f, 'a option) io" where
  "io_ok m s = (case m s of
      None \<Rightarrow> None
    | Some (Ok a, s') \<Rightarrow> Some (Ok (Some a), s')
    | Some (Err e, s') \<Rightarrow> Some (Ok None, s')
    | Some (Panic, s') \<Rightarrow> Some (Panic, s'))"

text \<open>The value of the computation is not needed.\<close>

definition io_seq :: "('s, 'e, unit) io \<Rightarrow> ('s, 'e, 'b) io \<Rightarrow> ('s, 'e, 'b) io" where
  "io_seq m n = io_bind m (\<lambda>_. n)"

lemmas io_run_simps =
  io_return_def io_err_def io_lift_def io_call_def io_step_def io_effect_def

text \<open>What a successful run went through.\<close>

lemma io_on_fail_eq_Ok: "io_on_fail c m w = Some (Ok a, w') \<longleftrightarrow> m w = Some (Ok a, w')"
  by (auto simp: io_on_fail_def split: option.splits outcome.splits)

lemma io_on_err_eq_Ok: "io_on_err c m w = Some (Ok a, w') \<longleftrightarrow> m w = Some (Ok a, w')"
  by (auto simp: io_on_err_def split: option.splits outcome.splits)

lemma io_seq_eq_Ok:
  "io_seq m n s = Some (Ok b, t) \<longleftrightarrow> (\<exists>s'. m s = Some (Ok (), s') \<and> n s' = Some (Ok b, t))"
  by (simp add: io_seq_def io_bind_eq_Ok)

lemma io_call_eq_Ok: "io_call conv f s = Some (Ok a, t) \<longleftrightarrow> f s = (Inr a, t)"
  by (auto simp: io_call_def split: prod.splits sum.splits)

lemma io_step_eq_Ok: "io_step f s = Some (Ok a, t) \<longleftrightarrow> f s = (a, t)"
  by (auto simp: io_step_def split: prod.splits)

lemma io_return_eq_Ok: "io_return a s = Some (Ok b, t) \<longleftrightarrow> a = b \<and> s = t"
  by (auto simp: io_return_def)

lemma io_err_not_Ok: "io_err e s \<noteq> Some (Ok b, t)"
  by (simp add: io_err_def)

lemma io_lift_eq_Ok: "io_lift r s = Some (Ok a, t) \<longleftrightarrow> r = Ok a \<and> s = t"
  by (auto simp: io_lift_def)

lemmas io_ok_simps =
  io_bind_eq_Ok io_seq_eq_Ok io_call_eq_Ok io_step_eq_Ok io_return_eq_Ok io_err_not_Ok
  io_lift_eq_Ok io_on_fail_eq_Ok io_on_err_eq_Ok

text \<open>\<open>yields m P\<close>: whatever \<open>m\<close> returns satisfies \<open>P\<close>.\<close>

definition yields :: "('s, 'e, 'a) io \<Rightarrow> ('a \<Rightarrow> bool) \<Rightarrow> bool" where
  "yields m P \<longleftrightarrow> (\<forall>s a t. m s = Some (Ok a, t) \<longrightarrow> P a)"

lemma yieldsD: "yields m P \<Longrightarrow> m s = Some (Ok a, t) \<Longrightarrow> P a"
  unfolding yields_def by blast

lemma yields_any: "yields m (\<lambda>_. True)"
  by (simp add: yields_def)

lemma yields_mono: "yields m Q \<Longrightarrow> (\<And>a. Q a \<Longrightarrow> P a) \<Longrightarrow> yields m P"
  by (auto simp: yields_def)

lemma yields_return: "P a \<Longrightarrow> yields (io_return a) P"
  by (simp add: yields_def io_return_eq_Ok)

lemma yields_err: "yields (io_err e) P"
  by (simp add: yields_def io_err_not_Ok)

lemma yields_if: "(c \<Longrightarrow> yields m P) \<Longrightarrow> (\<not> c \<Longrightarrow> yields n P) \<Longrightarrow> yields (if c then m else n) P"
  by simp

lemma yields_bind: "yields m Q \<Longrightarrow> (\<And>a. Q a \<Longrightarrow> yields (f a) P) \<Longrightarrow> yields (io_bind m f) P"
  unfolding yields_def io_bind_eq_Ok by blast

lemma yields_seq: "yields n P \<Longrightarrow> yields (io_seq m n) P"
  unfolding io_seq_def by (rule yields_bind [OF yields_any])

lemma yields_call: "yields (io_call conv f) (\<lambda>a. \<exists>s t. f s = (Inr a, t))"
  by (auto simp: yields_def io_call_eq_Ok)

lemma yields_step: "yields (io_step f) (\<lambda>a. \<exists>s. a = fst (f s))"
  by (auto simp: yields_def io_step_eq_Ok) (metis fst_conv)

lemma yields_on_fail: "yields m P \<Longrightarrow> yields (io_on_fail c m) P"
  by (simp add: yields_def io_on_fail_eq_Ok)

lemma yields_on_err: "yields m P \<Longrightarrow> yields (io_on_err c m) P"
  by (simp add: yields_def io_on_err_eq_Ok)

section \<open>Progress loops\<close>

text \<open>
  A loop whose body either goes round again (\<open>Ok None\<close>), ends with a value, or leaves with an
  error. It may run forever: then its value is \<open>None\<close>. Every waiting loop of the crate is an
  instance, with its own body.
\<close>

partial_function (option) poll_loop ::
  "('s \<Rightarrow> ('e, 'a option) outcome \<times> 's) \<Rightarrow> 's \<Rightarrow> (('e, 'a) outcome \<times> 's) option"
where
  "poll_loop body s = (case body s of
      (Ok None, s') \<Rightarrow> poll_loop body s'
    | (Ok (Some a), s') \<Rightarrow> Some (Ok a, s')
    | (Err e, s') \<Rightarrow> Some (Err e, s')
    | (Panic, s') \<Rightarrow> Some (Panic, s'))"

text \<open>The state after \<open>n\<close> rounds, and what the body answered in round \<open>n\<close>.\<close>

definition poll_state :: "('s \<Rightarrow> ('e, 'a option) outcome \<times> 's) \<Rightarrow> nat \<Rightarrow> 's \<Rightarrow> 's" where
  "poll_state body n s = ((\<lambda>s. snd (body s)) ^^ n) s"

definition poll_answer ::
  "('s \<Rightarrow> ('e, 'a option) outcome \<times> 's) \<Rightarrow> nat \<Rightarrow> 's \<Rightarrow> ('e, 'a option) outcome" where
  "poll_answer body n s = fst (body (poll_state body n s))"

lemma poll_state_simps [simp]:
  "poll_state body 0 s = s"
  "poll_state body (Suc n) s = poll_state body n (snd (body s))"
  by (simp_all add: poll_state_def funpow_Suc_right del: funpow.simps(2))

lemma poll_answer_simps [simp]:
  "poll_answer body 0 s = fst (body s)"
  "poll_answer body (Suc n) s = poll_answer body n (snd (body s))"
  by (simp_all add: poll_answer_def)

text \<open>What a final answer makes of the loop.\<close>

fun poll_result :: "('e, 'a option) outcome \<Rightarrow> ('e, 'a) outcome option" where
  "poll_result (Ok None) = None"
| "poll_result (Ok (Some a)) = Some (Ok a)"
| "poll_result (Err e) = Some (Err e)"
| "poll_result Panic = Some Panic"

lemma poll_loop_step:
  "poll_loop body s = (case poll_result (fst (body s)) of
      None \<Rightarrow> poll_loop body (snd (body s)) | Some r \<Rightarrow> Some (r, snd (body s)))"
  by (subst poll_loop.simps) (auto split: prod.splits outcome.splits option.splits)

text \<open>The loop returns after the first round whose answer is final.\<close>

lemma poll_loop_finishes:
  assumes "\<forall>i < n. poll_answer body i s = Ok None"
    and "poll_result (poll_answer body n s) = Some r"
  shows "poll_loop body s = Some (r, poll_state body (Suc n) s)"
  using assms
proof (induction n arbitrary: s)
  case 0
  then show ?case by (subst poll_loop_step) simp
next
  case (Suc n)
  from Suc.prems(1) have "fst (body s) = Ok None" by (metis poll_answer_simps(1) zero_less_Suc)
  moreover have "poll_loop body (snd (body s)) = Some (r, poll_state body (Suc n) (snd (body s)))"
  proof (rule Suc.IH)
    show "\<forall>i < n. poll_answer body i (snd (body s)) = Ok None"
      using Suc.prems(1) by (metis Suc_mono poll_answer_simps(2))
    show "poll_result (poll_answer body n (snd (body s))) = Some r"
      using Suc.prems(2) by simp
  qed
  ultimately show ?case by (subst poll_loop_step) simp
qed

text \<open>Conversely a loop that returned had such a round; without one it never returns.\<close>

lemma poll_loop_returned:
  fixes body :: "'s \<Rightarrow> ('e, 'a option) outcome \<times> 's"
  assumes "poll_loop body s = Some (r, t)"
  shows "\<exists>n. (\<forall>i < n. poll_answer body i s = Ok None) \<and>
    poll_result (poll_answer body n s) = Some r \<and> t = poll_state body (Suc n) s"
proof -
  let ?P = "\<lambda>body s rt. \<exists>n. (\<forall>i < n. poll_answer body i s = Ok None) \<and>
    poll_result (poll_answer body n s) = Some (fst rt) \<and> snd rt = poll_state body (Suc n) s"
  have "?P body s (r, t)"
  proof (rule poll_loop.raw_induct [where P = ?P, OF _ assms])
    fix loop :: "('s \<Rightarrow> ('e, 'a option) outcome \<times> 's) \<Rightarrow> 's \<Rightarrow> (('e, 'a) outcome \<times> 's) option"
      and body s rt
    assume IH: "\<And>body s rt. loop body s = Some rt \<Longrightarrow> ?P body s rt"
      and eq: "(case body s of (Ok None, s') \<Rightarrow> loop body s'
        | (Ok (Some a), s') \<Rightarrow> Some (Ok a, s') | (Err e, s') \<Rightarrow> Some (Err e, s')
        | (Panic, s') \<Rightarrow> Some (Panic, s')) = Some rt"
    show "?P body s rt"
    proof (cases "fst (body s) = Ok None")
      case True
      then have "loop body (snd (body s)) = Some rt" using eq by (cases "body s") auto
      then obtain n where n: "\<forall>i < n. poll_answer body i (snd (body s)) = Ok None"
        "poll_result (poll_answer body n (snd (body s))) = Some (fst rt)"
        "snd rt = poll_state body (Suc n) (snd (body s))" using IH by blast
      have "\<forall>i < Suc n. poll_answer body i s = Ok None"
        using n(1) True by (auto simp: less_Suc_eq_0_disj)
      with n show ?thesis by (intro exI [of _ "Suc n"]) simp
    next
      case False
      then have "poll_result (fst (body s)) = Some (fst rt) \<and> snd rt = snd (body s)"
        using eq by (auto split: prod.splits outcome.splits option.splits)
      then show ?thesis by (intro exI [of _ 0]) simp
    qed
  qed
  then show ?thesis by simp
qed

text \<open>The loop ends with a value: the rounds that lead there.\<close>

inductive poll_ends ::
  "('s \<Rightarrow> ('e, 'a option) outcome \<times> 's) \<Rightarrow> 's \<Rightarrow> 'a \<Rightarrow> 's \<Rightarrow> bool"
  for body :: "'s \<Rightarrow> ('e, 'a option) outcome \<times> 's"
where
  poll_last: "body s = (Ok (Some a), t) \<Longrightarrow> poll_ends body s a t"
| poll_round: "body s = (Ok None, s') \<Longrightarrow> poll_ends body s' a t \<Longrightarrow> poll_ends body s a t"

lemma poll_loop_Ok_iff: "poll_loop body s = Some (Ok a, t) \<longleftrightarrow> poll_ends body s a t"
proof
  assume run: "poll_loop body s = Some (Ok a, t)"
  obtain n where "\<forall>i < n. poll_answer body i s = Ok None"
    and "poll_result (poll_answer body n s) = Some (Ok a)" and "t = poll_state body (Suc n) s"
    using poll_loop_returned [OF run] by (elim exE conjE)
  then show "poll_ends body s a t"
  proof (induction n arbitrary: s)
    case 0
    then have "fst (body s) = Ok (Some a)"
      by (cases "fst (body s)" rule: poll_result.cases) simp_all
    with 0 show ?case by (intro poll_last) (simp add: prod_eq_iff)
  next
    case (Suc n)
    have first: "body s = (Ok None, snd (body s))"
      using Suc.prems(1) [rule_format, of 0] by (simp add: prod_eq_iff)
    have "poll_ends body (snd (body s)) a t"
    proof (rule Suc.IH)
      show "\<forall>i < n. poll_answer body i (snd (body s)) = Ok None"
        using Suc.prems(1) by (metis Suc_mono poll_answer_simps(2))
    qed (use Suc.prems in simp_all)
    with first show ?case by (rule poll_round)
  qed
next
  assume "poll_ends body s a t"
  then show "poll_loop body s = Some (Ok a, t)"
    by (induction rule: poll_ends.induct) (subst poll_loop_step, simp)+
qed

lemma poll_loop_diverges:
  assumes "\<forall>n. poll_answer body n s = Ok None"
  shows "poll_loop body s = None"
proof (cases "poll_loop body s")
  case (Some rt)
  then obtain r t where "poll_loop body s = Some (r, t)" by (cases rt) simp
  from poll_loop_returned [OF this] assms show ?thesis by auto
qed

section \<open>Computations that never panic\<close>

definition no_panic :: "('s, 'e, 'a) io \<Rightarrow> bool" where
  "no_panic m \<longleftrightarrow> (\<forall>s r t. m s = Some (r, t) \<longrightarrow> r \<noteq> Panic)"

named_theorems no_panic_intros "computations that never panic"

lemma no_panicD: "no_panic m \<Longrightarrow> m s = Some (Panic, t) \<Longrightarrow> False"
  by (auto simp: no_panic_def)

lemma no_panic_return [no_panic_intros]: "no_panic (io_return a)"
  by (simp add: no_panic_def io_return_def)

lemma no_panic_err [no_panic_intros]: "no_panic (io_err e)"
  by (simp add: no_panic_def io_err_def)

lemma no_panic_lift [no_panic_intros]: "r \<noteq> Panic \<Longrightarrow> no_panic (io_lift r)"
  by (simp add: no_panic_def io_lift_def)

lemma no_panic_call [no_panic_intros]: "no_panic (io_call conv f)"
  by (auto simp: no_panic_def io_call_def split: prod.splits sum.splits)

lemma no_panic_step [no_panic_intros]: "no_panic (io_step f)"
  by (auto simp: no_panic_def io_step_def split: prod.splits)

lemma no_panic_effect [no_panic_intros]: "no_panic (io_effect f)"
  by (simp add: no_panic_def io_effect_def)

lemma no_panic_bind [no_panic_intros]:
  assumes m: "no_panic m" and f: "\<And>a. no_panic (f a)"
  shows "no_panic (io_bind m f)"
  unfolding no_panic_def
proof (intro allI impI notI)
  fix s r t
  assume run: "io_bind m f s = Some (r, t)" and r: "r = Panic"
  show False
  proof (cases rule: io_result_cases [of m s, case_names never ok err panic])
    case never
    with run show ?thesis by (simp add: io_bind_None)
  next
    case (ok a s')
    with run r have "f a s' = Some (Panic, t)" by (simp add: io_bind_Ok)
    with f show ?thesis by (rule no_panicD)
  next
    case (err e s')
    with run r show ?thesis by (simp add: io_bind_Err)
  next
    case (panic s')
    with m show ?thesis by (rule no_panicD)
  qed
qed

lemma no_panic_seq [no_panic_intros]: "no_panic m \<Longrightarrow> no_panic n \<Longrightarrow> no_panic (io_seq m n)"
  unfolding io_seq_def by (rule no_panic_bind)

lemma no_panic_on_fail [no_panic_intros]:
  assumes m: "no_panic m"
  shows "no_panic (io_on_fail c m)"
  unfolding no_panic_def
proof (intro allI impI notI)
  fix s r t
  assume run: "io_on_fail c m s = Some (r, t)" and r: "r = Panic"
  show False
  proof (cases rule: io_result_cases [of m s, case_names never ok err panic])
    case (panic s')
    with m show ?thesis by (rule no_panicD)
  qed (use run r in \<open>simp_all add: io_on_fail_def\<close>)
qed

lemma no_panic_finally [no_panic_intros]: "no_panic m \<Longrightarrow> no_panic (io_finally c m)"
  unfolding no_panic_def io_finally_def by (auto split: option.splits)

lemma poll_result_Panic: "poll_result a = Some Panic \<longleftrightarrow> a = Panic"
  by (induction a rule: poll_result.induct) simp_all

lemma no_panic_on_err [no_panic_intros]:
  assumes m: "no_panic m"
  shows "no_panic (io_on_err c m)"
  unfolding no_panic_def
proof (intro allI impI notI)
  fix s r t
  assume run: "io_on_err c m s = Some (r, t)" and r: "r = Panic"
  show False
  proof (cases rule: io_result_cases [of m s, case_names never ok err panic])
    case (panic s')
    with m show ?thesis by (rule no_panicD)
  qed (use run r in \<open>simp_all add: io_on_err_def\<close>)
qed

lemma no_panic_ok [no_panic_intros]:
  fixes m :: "('s, 'e, 'a) io"
  assumes m: "no_panic m"
  shows "no_panic (io_ok m :: ('s, 'f, 'a option) io)"
  unfolding no_panic_def
proof (intro allI impI notI)
  fix s t and r :: "('f, 'a option) outcome"
  assume run: "io_ok m s = Some (r, t)" and r: "r = Panic"
  show False
  proof (cases rule: io_result_cases [of m s, case_names never ok err panic])
    case (panic s')
    with m show ?thesis by (rule no_panicD)
  qed (use run r in \<open>simp_all add: io_ok_def\<close>)
qed

lemma no_panic_poll_loop [no_panic_intros]:
  assumes "\<And>s. fst (body s) \<noteq> Panic"
  shows "no_panic (poll_loop body)"
  unfolding no_panic_def
proof (intro allI impI)
  fix s r t
  assume run: "poll_loop body s = Some (r, t)"
  obtain n where n: "poll_result (poll_answer body n s) = Some r"
    using poll_loop_returned [OF run] by (elim exE conjE)
  have "poll_answer body n s \<noteq> Panic" using assms by (simp add: poll_answer_def)
  with n show "r \<noteq> Panic" using poll_result_Panic by metis
qed

section \<open>Lists\<close>

text \<open>\<open>chunks_exact(n)\<close>: the full chunks of \<open>n\<close> elements, the remainder dropped.
  Rust panics for a chunk size of zero; every use in the crate has a positive one.\<close>

function chunks_exact :: "nat \<Rightarrow> 'a list \<Rightarrow> 'a list list" where
  "chunks_exact n xs =
     (if n = 0 \<or> length xs < n then [] else take n xs # chunks_exact n (drop n xs))"
  by pat_completeness auto
termination
  by (relation "measure (\<lambda>(n, xs). length xs)") auto

declare chunks_exact.simps [simp del]

lemma chunks_exact_short [simp]: "length xs < n \<Longrightarrow> chunks_exact n xs = []"
  by (simp add: chunks_exact.simps [of n xs])

lemma chunks_exact_append [simp]:
  "0 < n \<Longrightarrow> length xs = n \<Longrightarrow> chunks_exact n (xs @ ys) = xs # chunks_exact n ys"
  by (simp add: chunks_exact.simps [of n "xs @ ys"])

lemma chunks_exact_concat:
  "0 < n \<Longrightarrow> \<forall>c \<in> set cs. length c = n \<Longrightarrow> chunks_exact n (concat cs) = cs"
  by (induction cs) auto

lemma length_chunks_exact: "0 < n \<Longrightarrow> length (chunks_exact n xs) = length xs div n"
proof (induction n xs rule: chunks_exact.induct)
  case (1 n xs)
  then show ?case
    by (cases "length xs < n")
      (simp_all add: chunks_exact.simps [of n xs] le_div_geq not_less)
qed

lemma chunks_exact_lengths: "c \<in> set (chunks_exact n xs) \<Longrightarrow> length c = n"
proof (induction n xs rule: chunks_exact.induct)
  case (1 n xs)
  then show ?case
    by (cases "n = 0 \<or> length xs < n") (auto simp: chunks_exact.simps [of n xs])
qed

lemma concat_chunks_exact:
  "0 < n \<Longrightarrow> concat (chunks_exact n xs) = take (n * (length xs div n)) xs"
proof (induction n xs rule: chunks_exact.induct)
  case (1 n xs)
  show ?case
  proof (cases "length xs < n")
    case True
    then show ?thesis by simp
  next
    case False
    with "1.prems" have "length xs div n = Suc ((length xs - n) div n)"
      by (simp add: le_div_geq not_less)
    with False 1 show ?thesis
      by (simp add: chunks_exact.simps [of n xs] take_add)
  qed
qed

text \<open>\<open>str::parse::<usize>\<close>: an optional plus sign and at least one decimal digit, the value
  below \<open>2 ^ 64\<close>; anything else is an error.\<close>

definition digit_of :: "char \<Rightarrow> usize option" where
  "digit_of c = (let n = of_char c :: nat in
     if 48 \<le> n \<and> n \<le> 57 then Some (of_nat (n - 48)) else None)"

fun parse_digits :: "usize \<Rightarrow> string \<Rightarrow> usize option" where
  "parse_digits acc [] = Some acc"
| "parse_digits acc (c # cs) =
     Option.bind (digit_of c) (\<lambda>d.
     Option.bind (checked_mul acc 10) (\<lambda>m.
     Option.bind (checked_add m d) (\<lambda>a. parse_digits a cs)))"

fun parse_usize :: "string \<Rightarrow> usize option" where
  "parse_usize [] = None"
| "parse_usize (c # cs) =
     (if c = CHR ''+'' then (if cs = [] then None else parse_digits 0 cs)
      else parse_digits 0 (c # cs))"

text \<open>\<open>Iterator::collect\<close> into a \<open>Result\<close>: the first error wins.\<close>

fun collect_results :: "('e, 'a) outcome list \<Rightarrow> ('e, 'a list) outcome" where
  "collect_results [] = Ok []"
| "collect_results (r # rs) =
     outcome_bind r (\<lambda>x. outcome_bind (collect_results rs) (\<lambda>xs. Ok (x # xs)))"

lemma collect_results_map_Ok [simp]: "collect_results (map (\<lambda>x. Ok (f x)) xs) = Ok (map f xs)"
  by (induction xs) auto

lemma collect_results_all_Ok:
  "(\<And>x. x \<in> set xs \<Longrightarrow> g x = Ok (f x)) \<Longrightarrow> collect_results (map g xs) = Ok (map f xs)"
  by (induction xs) auto

text \<open>\<open>Iterator::position\<close>: the index of the first element that satisfies the test.\<close>

fun position :: "('a \<Rightarrow> bool) \<Rightarrow> 'a list \<Rightarrow> nat option" where
  "position P [] = None"
| "position P (x # xs) = (if P x then Some 0 else map_option Suc (position P xs))"

lemma position_None [simp]: "position P xs = None \<longleftrightarrow> (\<forall>x \<in> set xs. \<not> P x)"
  by (induction xs) auto

lemma position_SomeD:
  "position P xs = Some i \<Longrightarrow> i < length xs \<and> P (xs ! i) \<and> (\<forall>j < i. \<not> P (xs ! j))"
proof (induction xs arbitrary: i)
  case Nil
  then show ?case by simp
next
  case (Cons x xs)
  then show ?case
    by (auto simp: nth_Cons split: if_splits nat.splits)
qed

end
