(* ===== verification/Errors.thy ===== *)
theory Errors
  imports Rust_Prelude
begin

text \<open>
  \<open>src/error.rs\<close>: the crate's error type, its conversions from the error types of the
  three binding crates, and its \<open>Display\<close>. The bindings are not part of the repository.
  Their status types are represented by raw C codes (a \<open>pmix_status_t\<close>, a
  \<open>ucs_status_t\<close>, a \<open>ucc_status_t\<close>); which codes count as errors, and how they print,
  are parameters.
\<close>

type_synonym pmix_error = int
type_synonym ucx_status = int
type_synonym ucc_status = int

datatype error =
    Pmix pmix_error
  | Ucx ucx_status
  | Ucc ucc_status
  | Usage string
  | NotInitialized
  | AlreadyInitialized
  | Internal string

type_synonym 'a result = "(error, 'a) outcome"

text \<open>\<open>From<PmixError>\<close>; \<open>success\<close> is the variant \<open>PmixError::Success\<close>.\<close>

definition from_pmix :: "pmix_error \<Rightarrow> pmix_error \<Rightarrow> error" where
  "from_pmix success e =
     (if e = success
      then Internal ''PMIx success was returned where an error was expected''
      else Pmix e)"

text \<open>\<open>From<Status>\<close>; \<open>is_err\<close> is the binding's \<open>Status::is_err\<close>.\<close>

definition from_ucx :: "(ucx_status \<Rightarrow> bool) \<Rightarrow> ucx_status \<Rightarrow> error" where
  "from_ucx is_err s =
     (if is_err s then Ucx s
      else Internal ''UCX success was returned where an error was expected'')"

text \<open>\<open>From<UccError>\<close>; \<open>into\<close> is the binding's conversion to \<open>UccStatus\<close>.\<close>

definition from_ucc :: "('u \<Rightarrow> bool) \<Rightarrow> ('u \<Rightarrow> ucc_status) \<Rightarrow> 'u \<Rightarrow> error" where
  "from_ucc is_error into e =
     (if is_error e then Ucc (into e)
      else Internal ''UCC informational status was returned where an error was expected'')"

text \<open>\<open>Display\<close>; the printers of the three status types and of integers are parameters.\<close>

fun fmt_error ::
  "(pmix_error \<Rightarrow> string) \<Rightarrow> (ucx_status \<Rightarrow> string) \<Rightarrow> (ucc_status \<Rightarrow> string) \<Rightarrow>
   (int \<Rightarrow> string) \<Rightarrow> error \<Rightarrow> string"
where
  "fmt_error px ux cx num (Pmix e) = ''pmix error: '' @ px e"
| "fmt_error px ux cx num (Ucx s) = ''ucx error: '' @ ux s"
| "fmt_error px ux cx num (Ucc c) = ''ucc error: '' @ cx c @ '' (code '' @ num c @ '')''"
| "fmt_error px ux cx num (Usage m) = ''usage error: '' @ m"
| "fmt_error px ux cx num NotInitialized = ''openshmem not initialized''"
| "fmt_error px ux cx num AlreadyInitialized = ''openshmem already initialized''"
| "fmt_error px ux cx num (Internal m) = ''internal error: '' @ m"

text \<open>What the conversions promise: a status that is no failure never becomes one.\<close>

lemma from_pmix_Pmix [simp]: "from_pmix ok e = Pmix e' \<longleftrightarrow> e \<noteq> ok \<and> e' = e"
  by (auto simp: from_pmix_def)

lemma from_ucx_Ucx [simp]: "from_ucx is_err s = Ucx s' \<longleftrightarrow> is_err s \<and> s' = s"
  by (auto simp: from_ucx_def)

lemma from_ucc_Ucc [simp]: "from_ucc is_error into e = Ucc c \<longleftrightarrow> is_error e \<and> c = into e"
  by (auto simp: from_ucc_def)

end
