(* ===== verification/Heap_Spec.thy ===== *)
theory Heap_Spec
  imports Errors
begin

text \<open>
  What a symmetric-heap allocator promises, on natural numbers and sets of byte offsets:
  no free list, no words, no addresses. The state is the heap's capacity and the map from
  the offset of each live allocation to its length. Allocation is first fit by definition:
  the least offset at which the requested bytes are all free.

  The second half is the theory of free lists as lists of runs \<open>(start, length)\<close>: the
  canonical form (ascending, non-empty, never adjacent) in which a set of bytes has exactly
  one list, and how first fit and coalescing act on it.
\<close>

section \<open>The abstract allocator\<close>

record heap_spec =
  sp_cap :: nat
  sp_allocs :: "nat \<rightharpoonup> nat"

definition occupied :: "(nat \<rightharpoonup> nat) \<Rightarrow> nat set" where
  "occupied m = {x. \<exists>p l. m p = Some l \<and> p \<le> x \<and> x < p + l}"

definition spec_free_bytes :: "heap_spec \<Rightarrow> nat set" where
  "spec_free_bytes s = {..<sp_cap s} - occupied (sp_allocs s)"

definition fits :: "nat set \<Rightarrow> nat \<Rightarrow> nat \<Rightarrow> bool" where
  "fits F n p \<longleftrightarrow> {p..<p + n} \<subseteq> F"

definition round_up8 :: "nat \<Rightarrow> nat" where
  "round_up8 n = 8 * ((n + 7) div 8)"

definition spec_malloc :: "heap_spec \<Rightarrow> nat \<Rightarrow> nat result \<times> heap_spec" where
  "spec_malloc s n =
     (let r = round_up8 n; F = spec_free_bytes s in
      if n = 0 then (Err (Usage ''symmetric allocation size must be nonzero''), s)
      else if 2 ^ 64 \<le> n + 7 then (Err (Usage ''symmetric allocation size overflow''), s)
      else if \<exists>p. fits F r p
        then (Ok (LEAST p. fits F r p),
              s\<lparr>sp_allocs := (sp_allocs s)((LEAST p. fits F r p) \<mapsto> r)\<rparr>)
      else (Err (Usage ''symmetric heap exhausted''), s))"

text \<open>A pointer outside the heap has no offset (\<open>None\<close>) and is refused like a stale one.\<close>

definition spec_free :: "heap_spec \<Rightarrow> nat option \<Rightarrow> unit result \<times> heap_spec" where
  "spec_free s q = (case q of
      None \<Rightarrow> (Err (Usage ''invalid symmetric pointer''), s)
    | Some p \<Rightarrow> (case sp_allocs s p of
          None \<Rightarrow> (Err (Usage ''invalid symmetric pointer''), s)
        | Some l \<Rightarrow> (Ok (), s\<lparr>sp_allocs := (sp_allocs s)(p := None)\<rparr>)))"

text \<open>Well-formed: live allocations are aligned, non-empty, in range and disjoint.\<close>

definition spec_wf :: "heap_spec \<Rightarrow> bool" where
  "spec_wf s \<longleftrightarrow>
     (\<forall>p l. sp_allocs s p = Some l \<longrightarrow> 0 < l \<and> 8 dvd l \<and> 8 dvd p \<and> p + l \<le> sp_cap s) \<and>
     (\<forall>p l q m. sp_allocs s p = Some l \<longrightarrow> sp_allocs s q = Some m \<longrightarrow> p \<noteq> q \<longrightarrow>
        p + l \<le> q \<or> q + m \<le> p)"

lemma spec_wfD:
  assumes "spec_wf s" and "sp_allocs s p = Some l"
  shows "0 < l" and "8 dvd l" and "8 dvd p" and "p + l \<le> sp_cap s"
  using assms by (auto simp: spec_wf_def)

lemma spec_wf_disjoint:
  "spec_wf s \<Longrightarrow> sp_allocs s p = Some l \<Longrightarrow> sp_allocs s q = Some m \<Longrightarrow> p \<noteq> q \<Longrightarrow>
     p + l \<le> q \<or> q + m \<le> p"
  by (simp add: spec_wf_def)

lemma occupied_upd:
  "m p = None \<Longrightarrow> occupied (m(p \<mapsto> l)) = occupied m \<union> {p..<p + l}"
  by (rule set_eqI) (force simp: occupied_def split: if_splits)

lemma occupiedI: "m p = Some l \<Longrightarrow> p \<le> x \<Longrightarrow> x < p + l \<Longrightarrow> x \<in> occupied m"
  by (unfold occupied_def) blast

lemma occupied_delete:
  assumes "spec_wf s" and "sp_allocs s p = Some l"
  shows "occupied ((sp_allocs s)(p := None)) = occupied (sp_allocs s) - {p..<p + l}"
proof (rule set_eqI)
  fix x
  have same: "q = p" if "sp_allocs s q = Some m" "q \<le> x" "x < q + m" "p \<le> x" "x < p + l" for q m
    using spec_wf_disjoint [OF assms(1) that(1) assms(2)] that by force
  show "x \<in> occupied ((sp_allocs s)(p := None)) \<longleftrightarrow> x \<in> occupied (sp_allocs s) - {p..<p + l}"
  proof
    assume "x \<in> occupied ((sp_allocs s)(p := None))"
    then show "x \<in> occupied (sp_allocs s) - {p..<p + l}"
      using same by (fastforce simp: occupied_def split: if_splits)
  next
    assume "x \<in> occupied (sp_allocs s) - {p..<p + l}"
    then obtain q m where "sp_allocs s q = Some m" "q \<le> x" "x < q + m" "x \<notin> {p..<p + l}"
      by (auto simp: occupied_def)
    moreover from this assms(2) have "q \<noteq> p" by auto
    ultimately show "x \<in> occupied ((sp_allocs s)(p := None))"
      by (intro occupiedI [of _ q m]) auto
  qed
qed

lemma fits_unoccupied:
  assumes "fits (spec_free_bytes s) n p" and "0 < n"
  shows "sp_allocs s p = None \<or> sp_allocs s p = Some 0"
proof (rule ccontr)
  assume "\<not> ?thesis"
  then obtain l where "sp_allocs s p = Some l" and "0 < l" by auto
  then have "p \<in> occupied (sp_allocs s)" by (simp add: occupiedI)
  moreover have "p \<in> spec_free_bytes s" using assms by (auto simp: fits_def)
  ultimately show False by (simp add: spec_free_bytes_def)
qed

lemma fits_fresh:
  "spec_wf s \<Longrightarrow> fits (spec_free_bytes s) n p \<Longrightarrow> 0 < n \<Longrightarrow> sp_allocs s p = None"
  using fits_unoccupied [of s n p] spec_wfD(1) [of s p] by auto

lemma fits_in_cap: "fits (spec_free_bytes s) n p \<Longrightarrow> 0 < n \<Longrightarrow> p < sp_cap s"
  by (auto simp: fits_def spec_free_bytes_def subset_iff)

text \<open>Storing an allocation on free bytes keeps the state well formed.\<close>

lemma spec_wf_alloc:
  assumes wf: "spec_wf s" and fit: "fits (spec_free_bytes s) n p"
    and n: "0 < n" "8 dvd n" "8 dvd p"
  shows "spec_wf (s\<lparr>sp_allocs := (sp_allocs s)(p \<mapsto> n)\<rparr>)"
proof -
  have cap: "p + n \<le> sp_cap s"
  proof -
    have "p + n - 1 \<in> spec_free_bytes s" using fit n(1) by (auto simp: fits_def)
    then show ?thesis using n(1) by (auto simp: spec_free_bytes_def)
  qed
  have disj: "p + n \<le> q \<or> q + m \<le> p" if "sp_allocs s q = Some m" for q m
  proof (rule ccontr)
    assume "\<not> ?thesis"
    then have *: "q < p + n" "p < q + m" by auto
    have "0 < m" using spec_wfD(1) [OF wf that] .
    then have "max p q \<in> {p..<p + n}" and "max p q \<in> occupied (sp_allocs s)"
      using * n(1) occupiedI [of "sp_allocs s", OF that] by auto
    moreover from this fit have "max p q \<in> spec_free_bytes s"
      by (meson fits_def subsetD)
    ultimately show False by (simp add: spec_free_bytes_def)
  qed
  show ?thesis
    unfolding spec_wf_def
  proof (intro conjI allI impI, goal_cases)
    case (5 p' l q m)
    then show ?case
      using disj [of q] disj [of p'] spec_wf_disjoint [OF wf, of p' l q m]
      by (auto split: if_splits)
  qed (use spec_wfD [OF wf] n cap in \<open>auto split: if_splits\<close>)
qed

section \<open>Free lists as lists of runs\<close>

type_synonym run = "nat \<times> nat"

definition run_bytes :: "run \<Rightarrow> nat set" where
  "run_bytes b = {fst b..<fst b + snd b}"

definition covers :: "run list \<Rightarrow> nat set" where
  "covers bs = (\<Union>b \<in> set bs. run_bytes b)"

text \<open>Canonical: ascending, non-empty runs with a gap between neighbours.\<close>

definition runs :: "run list \<Rightarrow> bool" where
  "runs bs \<longleftrightarrow> (\<forall>b \<in> set bs. 0 < snd b) \<and> sorted_wrt (\<lambda>b c. fst b + snd b < fst c) bs"

definition runs8 :: "run list \<Rightarrow> bool" where
  "runs8 bs \<longleftrightarrow> (\<forall>b \<in> set bs. 8 dvd fst b \<and> 8 dvd snd b)"

lemma covers_simps [simp]:
  "covers [] = {}"
  "covers (b # bs) = run_bytes b \<union> covers bs"
  "covers (bs @ cs) = covers bs \<union> covers cs"
  by (auto simp: covers_def)

lemma runs_simps [simp]:
  "runs []"
  "runs (b # bs) \<longleftrightarrow> 0 < snd b \<and> (\<forall>c \<in> set bs. fst b + snd b < fst c) \<and> runs bs"
  by (auto simp: runs_def)

lemma runs_append:
  "runs (bs @ cs) \<longleftrightarrow>
     runs bs \<and> runs cs \<and> (\<forall>b \<in> set bs. \<forall>c \<in> set cs. fst b + snd b < fst c)"
  by (auto simp: runs_def sorted_wrt_append)

lemma runs8_simps [simp]:
  "runs8 []"
  "runs8 (b # bs) \<longleftrightarrow> 8 dvd fst b \<and> 8 dvd snd b \<and> runs8 bs"
  "runs8 (bs @ cs) \<longleftrightarrow> runs8 bs \<and> runs8 cs"
  by (auto simp: runs8_def)

lemma covers_above: "\<forall>c \<in> set bs. n < fst c \<Longrightarrow> x \<in> covers bs \<Longrightarrow> n < x"
  by (fastforce simp: covers_def run_bytes_def)

text \<open>A set of bytes has one canonical list.\<close>

lemma runs_Cons_extent:
  assumes "runs (b # bs)"
  shows "fst b \<in> covers (b # bs)"
    and "x \<in> covers (b # bs) \<Longrightarrow> fst b \<le> x"
    and "fst b + snd b \<notin> covers (b # bs)"
proof -
  show "fst b \<in> covers (b # bs)" using assms by (auto simp: run_bytes_def)
  show "fst b \<le> x" if "x \<in> covers (b # bs)"
    using that assms covers_above [of bs "fst b + snd b" x] by (auto simp: run_bytes_def)
  show "fst b + snd b \<notin> covers (b # bs)"
    using assms covers_above [of bs "fst b + snd b" "fst b + snd b"]
    by (auto simp: run_bytes_def)
qed

lemma runs_same_length:
  assumes "runs (b # bs)" and "runs (c # cs)" and "covers (b # bs) = covers (c # cs)"
  shows "b = c"
proof -
  have fst: "fst b = fst c"
    by (rule antisym)
      (metis assms runs_Cons_extent(1,2))+
  have snd: "\<not> snd b < snd c" if "runs (b # bs)" "runs (c # cs)" "fst b = fst c"
    "covers (b # bs) = covers (c # cs)" for b bs c cs
  proof
    assume "snd b < snd c"
    then have "fst b + snd b \<in> covers (c # cs)"
      using that(3) by (auto simp: run_bytes_def)
    with runs_Cons_extent(3) [OF that(1)] that(4) show False by metis
  qed
  show ?thesis
    using fst snd [OF assms(1,2) fst assms(3)] snd [OF assms(2,1) fst [symmetric]] assms(3)
    by (simp add: prod_eq_iff)
qed

lemma runs_Cons_covers_tl:
  assumes "runs (b # bs)"
  shows "covers bs = covers (b # bs) - run_bytes b"
proof -
  have "run_bytes b \<inter> covers bs = {}"
    using covers_above [of bs "fst b + snd b"] assms by (force simp: run_bytes_def)
  then show ?thesis by auto
qed

lemma runs_unique: "runs bs \<Longrightarrow> runs cs \<Longrightarrow> covers bs = covers cs \<Longrightarrow> bs = cs"
proof (induction bs arbitrary: cs)
  case Nil
  then show ?case
    by (cases cs) (auto simp: run_bytes_def)
next
  case (Cons b bs)
  show ?case
  proof (cases cs)
    case Nil
    with Cons.prems show ?thesis by (auto simp: run_bytes_def)
  next
    case (Cons c cs')
    with Cons.prems have bc: "b = c" by (auto intro: runs_same_length)
    have "covers bs = covers (b # bs) - run_bytes b"
      using Cons.prems(1) by (rule runs_Cons_covers_tl)
    also have "\<dots> = covers (c # cs') - run_bytes c"
      using Cons.prems(3) by (simp only: Cons bc)
    also have "\<dots> = covers cs'"
      using Cons.prems(2) Cons by (metis runs_Cons_covers_tl)
    finally have "bs = cs'"
      using Cons.IH [of cs'] Cons.prems(1,2) Cons by simp
    with Cons bc show ?thesis by simp
  qed
qed

text \<open>An interval of covered bytes lies inside one run: runs never touch.\<close>

lemma interval_in_one_run:
  assumes "runs bs" and "0 < n" and "fits (covers bs) n p"
  shows "\<exists>b \<in> set bs. fst b \<le> p \<and> p + n \<le> fst b + snd b"
proof -
  have "p \<in> covers bs" using assms by (auto simp: fits_def)
  then obtain b where b: "b \<in> set bs" "fst b \<le> p" "p < fst b + snd b"
    by (auto simp: covers_def run_bytes_def)
  obtain xs ys where split: "bs = xs @ b # ys" using b(1) by (meson split_list)
  have nc: "fst b + snd b \<notin> covers bs"
  proof -
    have "fst b + snd b \<notin> covers (b # ys)"
      using assms(1) split runs_Cons_extent(3) [of b ys] by (simp add: runs_append)
    moreover have "x < fst b" if x: "x \<in> covers xs" for x
    proof -
      obtain c where "c \<in> set xs" "x < fst c + snd c"
        using x by (auto simp: covers_def run_bytes_def)
      moreover have "fst c + snd c < fst b"
        using assms(1) split calculation(1) by (simp add: runs_append)
      ultimately show ?thesis by simp
    qed
    ultimately show ?thesis using split by fastforce
  qed
  have "p + n \<le> fst b + snd b"
  proof (rule ccontr)
    assume "\<not> ?thesis"
    then have "fst b + snd b \<in> {p..<p + n}" using b by auto
    with assms(3) nc show False by (auto simp: fits_def)
  qed
  with b show ?thesis by blast
qed

section \<open>First fit\<close>

definition carve :: "run \<Rightarrow> nat \<Rightarrow> run list" where
  "carve b r = (if snd b = r then [] else [(fst b + r, snd b - r)])"

lemma carve_runs:
  assumes "runs (xs @ b # ys)" and "r \<le> snd b" and "0 < r"
  shows "runs (xs @ carve b r @ ys)"
    and "covers (xs @ carve b r @ ys) = covers (xs @ b # ys) - {fst b..<fst b + r}"
proof -
  have below: "x < fst b" if "x \<in> covers xs" for x
    using that assms(1) by (fastforce simp: covers_def run_bytes_def runs_append)
  have above: "fst b + snd b < x" if "x \<in> covers ys" for x
    using covers_above [OF _ that, of "fst b + snd b"] assms(1) by (simp add: runs_append)
  show "runs (xs @ carve b r @ ys)"
    using assms by (force simp: carve_def runs_append)
  have "x \<in> covers (carve b r) \<longleftrightarrow> x \<in> run_bytes b - {fst b..<fst b + r}" for x
    using assms(2) by (auto simp: carve_def run_bytes_def)
  moreover have "x \<notin> {fst b..<fst b + r}" if "x \<in> covers xs \<or> x \<in> covers ys" for x
    using that below [of x] above [of x] assms(2) by force
  ultimately show "covers (xs @ carve b r @ ys) = covers (xs @ b # ys) - {fst b..<fst b + r}"
    by auto
qed

lemma first_fit_least:
  assumes "runs (xs @ b # ys)" and "r \<le> snd b" and "0 < r" and "\<forall>c \<in> set xs. snd c < r"
  shows "fits (covers (xs @ b # ys)) r (fst b)"
    and "(LEAST p. fits (covers (xs @ b # ys)) r p) = fst b"
proof -
  show fit: "fits (covers (xs @ b # ys)) r (fst b)"
    using assms(2) by (auto simp: fits_def run_bytes_def)
  show "(LEAST p. fits (covers (xs @ b # ys)) r p) = fst b"
  proof (rule Least_equality)
    show "fits (covers (xs @ b # ys)) r (fst b)" by (rule fit)
  next
    fix p assume "fits (covers (xs @ b # ys)) r p"
    from interval_in_one_run [OF assms(1,3) this] obtain c where
      c: "c \<in> set (xs @ b # ys)" "fst c \<le> p" "p + r \<le> fst c + snd c" by blast
    have "c \<notin> set xs" using assms(4) c(2,3) by fastforce
    with c(1) have "c = b \<or> c \<in> set ys" by simp
    with assms(1) c(2) show "fst b \<le> p" by (fastforce simp: runs_append)
  qed
qed

lemma no_fit:
  assumes "runs bs" and "0 < r" and "\<forall>b \<in> set bs. snd b < r"
  shows "\<not> fits (covers bs) r p"
  using interval_in_one_run [OF assms(1,2), of p] assms(3) by fastforce

section \<open>Coalescing\<close>

text \<open>Runs in ascending order that may touch, merged where they do.\<close>

fun coalesce :: "run list \<Rightarrow> run list" where
  "coalesce [] = []"
| "coalesce [b] = [b]"
| "coalesce (b # c # bs) =
     (if fst b + snd b = fst c then coalesce ((fst b, snd b + snd c) # bs)
      else b # coalesce (c # bs))"

definition ascending :: "run list \<Rightarrow> bool" where
  "ascending bs \<longleftrightarrow> (\<forall>b \<in> set bs. 0 < snd b) \<and> sorted_wrt (\<lambda>b c. fst b + snd b \<le> fst c) bs"

lemma ascending_simps [simp]:
  "ascending []"
  "ascending (b # bs) \<longleftrightarrow> 0 < snd b \<and> (\<forall>c \<in> set bs. fst b + snd b \<le> fst c) \<and> ascending bs"
  by (auto simp: ascending_def)

lemma run_bytes_join: "run_bytes (p, l + m) = run_bytes (p, l) \<union> run_bytes (p + l, m)"
  by (auto simp: run_bytes_def)

lemma coalesce_covers: "covers (coalesce bs) = covers bs"
proof (induction bs rule: coalesce.induct)
  case (3 b c bs)
  have "run_bytes (fst b, snd b + snd c) = run_bytes b \<union> run_bytes c"
    if "fst b + snd b = fst c"
    using run_bytes_join [of "fst b" "snd b" "snd c"] that by simp
  with 3 show ?case by (simp add: Un_assoc)
qed simp_all

lemma coalesce_starts:
  "ascending (b # bs) \<Longrightarrow> c \<in> set (coalesce (b # bs)) \<Longrightarrow> fst b \<le> fst c"
proof (induction "b # bs" arbitrary: b bs rule: coalesce.induct)
  case (3 b c' bs)
  then show ?case by (fastforce split: if_splits)
qed auto

lemma coalesce_runs: "ascending bs \<Longrightarrow> runs (coalesce bs)"
proof (induction bs rule: coalesce.induct)
  case (3 b c bs)
  show ?case
  proof (cases "fst b + snd b = fst c")
    case True
    with 3 show ?thesis by fastforce
  next
    case False
    with 3 have "fst b + snd b < fst d" if "d \<in> set (coalesce (c # bs))" for d
      using coalesce_starts [of c bs d] that by fastforce
    with False 3 show ?thesis by simp
  qed
qed auto

lemma coalesce_runs8: "runs8 bs \<Longrightarrow> runs8 (coalesce bs)"
  by (induction bs rule: coalesce.induct) auto

text \<open>Disjoint non-empty runs sorted by their start are ascending.\<close>

lemma sorted_disjoint_ascending:
  assumes "sorted (map fst bs)" and "\<forall>b \<in> set bs. 0 < snd b" and "distinct bs"
    and "\<forall>b \<in> set bs. \<forall>c \<in> set bs. b \<noteq> c \<longrightarrow> run_bytes b \<inter> run_bytes c = {}"
  shows "ascending bs"
  using assms
proof (induction bs)
  case Nil
  then show ?case by simp
next
  case (Cons b bs)
  have "fst b + snd b \<le> fst c" if "c \<in> set bs" for c
  proof (rule ccontr)
    assume "\<not> ?thesis"
    moreover have "fst b \<le> fst c" using Cons.prems(1) that by auto
    moreover have "0 < snd c" using Cons.prems(2) that by simp
    ultimately have "fst c \<in> run_bytes b \<inter> run_bytes c" by (auto simp: run_bytes_def)
    moreover have "b \<noteq> c" using Cons.prems(3) that by auto
    ultimately show False using Cons.prems(4) that by auto
  qed
  with Cons show ?case by auto
qed

lemma runs_distinct: "runs bs \<Longrightarrow> distinct bs"
  by (induction bs) fastforce+

lemma runs_disjoint:
  "runs bs \<Longrightarrow> b \<in> set bs \<Longrightarrow> c \<in> set bs \<Longrightarrow> b \<noteq> c \<Longrightarrow> run_bytes b \<inter> run_bytes c = {}"
proof (induction bs)
  case (Cons d bs)
  then show ?case by (fastforce simp: run_bytes_def)
qed simp

end
