(* ===== verification/Pod.thy ===== *)
theory Pod
  imports Errors
begin

text \<open>
  \<open>src/rma.rs\<close>, the trait \<open>Pod\<close> and its ten implementations: plain-old-data scalars, their
  byte representation in the target's byte order, and which UCC reductions they support. A
  trait implementation is a record of the trait's items. Integers are words (a signed type
  is its two's complement pattern, read with \<open>sint\<close>); a float is its bit pattern, which
  \<open>to_ne_bytes\<close> and \<open>from_ne_bytes\<close> copy. The locale \<open>pod_codec\<close> is the contract of a
  scalar's codec, with what slices of scalars inherit from it.
\<close>

section \<open>Bytes of a word\<close>

datatype endian = Little | Big

definition le_bytes :: "'a::len word \<Rightarrow> u8 list" where
  "le_bytes x = map (\<lambda>i. ucast (drop_bit (8 * i) x)) [0..<LENGTH('a) div 8]"

definition le_value :: "u8 list \<Rightarrow> 'a::len word" where
  "le_value bs = foldr (\<lambda>b acc. ucast b OR push_bit 8 acc) bs 0"

definition to_ne_bytes :: "endian \<Rightarrow> 'a::len word \<Rightarrow> u8 list" where
  "to_ne_bytes e x = (case e of Little \<Rightarrow> le_bytes x | Big \<Rightarrow> rev (le_bytes x))"

definition from_ne_bytes :: "endian \<Rightarrow> u8 list \<Rightarrow> 'a::len word" where
  "from_ne_bytes e bs = (case e of Little \<Rightarrow> le_value bs | Big \<Rightarrow> le_value (rev bs))"

lemma length_le_bytes [simp]: "length (le_bytes (x :: 'a::len word)) = LENGTH('a) div 8"
  by (simp add: le_bytes_def)

lemma length_to_ne_bytes [simp]:
  "length (to_ne_bytes e (x :: 'a::len word)) = LENGTH('a) div 8"
  by (cases e) (simp_all add: to_ne_bytes_def)

text \<open>Bit \<open>n\<close> of the value is bit \<open>n mod 8\<close> of byte \<open>n div 8\<close>.\<close>

lemma bit_le_value:
  "bit (le_value bs :: 'a::len word) n \<longleftrightarrow>
     n < LENGTH('a) \<and> n div 8 < length bs \<and> bit (bs ! (n div 8)) (n mod 8)"
proof (induction bs arbitrary: n)
  case Nil
  then show ?case by (simp add: le_value_def)
next
  case (Cons b bs)
  have rec: "(le_value (b # bs) :: 'a word) = ucast b OR push_bit 8 (le_value bs)"
    by (simp add: le_value_def)
  show ?case
  proof (cases "n < 8")
    case True
    then show ?thesis by (auto simp: rec bit_simps)
  next
    case False
    have "\<not> bit b n" using False bit_imp_le_length [of b n] by auto
    moreover have "n div 8 = Suc ((n - 8) div 8)" "n mod 8 = (n - 8) mod 8"
      using False by (simp_all add: le_div_geq le_mod_geq not_less)
    ultimately show ?thesis
      using False Cons.IH [of "n - 8"] by (auto simp: rec bit_simps)
  qed
qed

lemma bit_le_bytes:
  "i < LENGTH('a) div 8 \<Longrightarrow> j < 8 \<Longrightarrow> bit (le_bytes (x :: 'a::len word) ! i) j = bit x (8 * i + j)"
  by (simp add: le_bytes_def bit_simps)

lemma le_value_le_bytes:
  assumes "8 dvd LENGTH('a)"
  shows "le_value (le_bytes (x :: 'a::len word)) = x"
proof (rule bit_word_eqI)
  fix n assume n: "n < LENGTH('a)"
  then have "n div 8 < LENGTH('a) div 8" using assms by auto
  with n show "bit (le_value (le_bytes x) :: 'a word) n = bit x n"
    by (simp add: bit_le_value bit_le_bytes)
qed

lemma le_bytes_le_value:
  assumes "8 dvd LENGTH('a)" and "length bs = LENGTH('a) div 8"
  shows "le_bytes (le_value bs :: 'a::len word) = bs"
proof (rule nth_equalityI)
  fix i assume "i < length (le_bytes (le_value bs :: 'a word))"
  then have i: "i < LENGTH('a) div 8" by simp
  show "le_bytes (le_value bs :: 'a word) ! i = bs ! i"
  proof (rule bit_word_eqI)
    fix j assume "j < LENGTH(8)"
    then have j: "j < 8" by simp
    have "8 * i + j < LENGTH('a)" using assms(1) i j by (auto elim!: dvdE)
    with i j assms(2) show "bit (le_bytes (le_value bs :: 'a word) ! i) j = bit (bs ! i) j"
      by (simp add: bit_le_bytes bit_le_value)
  qed
qed (simp add: assms)

lemma from_to_ne_bytes:
  "8 dvd LENGTH('a) \<Longrightarrow> from_ne_bytes e (to_ne_bytes e (x :: 'a::len word)) = x"
  by (cases e) (simp_all add: from_ne_bytes_def to_ne_bytes_def le_value_le_bytes)

lemma to_from_ne_bytes:
  "8 dvd LENGTH('a) \<Longrightarrow> length bs = LENGTH('a) div 8 \<Longrightarrow>
     to_ne_bytes e (from_ne_bytes e bs :: 'a::len word) = bs"
  by (cases e) (simp_all add: from_ne_bytes_def to_ne_bytes_def le_bytes_le_value)

section \<open>The trait and its implementations\<close>

datatype ucc_datatype =
    Uint8 | Int8 | Uint16 | Int16 | Uint32 | Int32 | Uint64 | Int64 | Float32 | Float64

text \<open>The bytes of one element of each datatype, which fix what a count of elements means to UCC.\<close>

fun dtype_width :: "ucc_datatype \<Rightarrow> nat" where
  "dtype_width Uint8 = 1"
| "dtype_width Int8 = 1"
| "dtype_width Uint16 = 2"
| "dtype_width Int16 = 2"
| "dtype_width Uint32 = 4"
| "dtype_width Int32 = 4"
| "dtype_width Float32 = 4"
| "dtype_width Uint64 = 8"
| "dtype_width Int64 = 8"
| "dtype_width Float64 = 8"

text \<open>The reductions the source names; any other value of the binding's type is \<open>Op_Other\<close>.\<close>

datatype ucc_reduction_op =
    Op_Sum | Op_Prod | Op_Min | Op_Max | Op_Land | Op_Lor | Op_Lxor | Op_Band | Op_Bor | Op_Bxor
  | Op_Other int

record 'a pod =
  pod_size :: usize
  pod_size_of :: usize
  pod_object :: "'a \<Rightarrow> u8 list"
  pod_value :: "u8 list \<Rightarrow> 'a"
  pod_encode :: "'a \<Rightarrow> u8 list \<Rightarrow> u8 list"
  pod_decode :: "u8 list \<Rightarrow> 'a result"
  pod_ucc_datatype :: ucc_datatype
  pod_reduction_supported :: "ucc_reduction_op \<Rightarrow> bool"

text \<open>One expansion of the macro \<open>pod_types\<close>. \<open>pod_size_of\<close>, \<open>pod_object\<close> and \<open>pod_value\<close>
  are the language's: \<open>size_of\<close>, the object representation of a scalar and the value of one.\<close>

definition pod_impl ::
  "endian \<Rightarrow> usize \<Rightarrow> ucc_datatype \<Rightarrow> (ucc_reduction_op \<Rightarrow> bool) \<Rightarrow> 'a::len word pod"
where
  "pod_impl e sz dt reduce =
     \<lparr>pod_size = sz,
      pod_size_of = of_nat (LENGTH('a) div 8),
      pod_object = to_ne_bytes e,
      pod_value = from_ne_bytes e,
      pod_encode = (\<lambda>x dst. dst @ to_ne_bytes e x),
      pod_decode = (\<lambda>src.
        if length src = unat sz then Ok (from_ne_bytes e src)
        else Err (Internal ''invalid typed RMA byte count'')),
      pod_ucc_datatype = dt,
      pod_reduction_supported = reduce\<rparr>"

definition integer_reduction :: "ucc_reduction_op \<Rightarrow> bool" where
  "integer_reduction rop = (case rop of
      Op_Sum \<Rightarrow> True | Op_Min \<Rightarrow> True | Op_Max \<Rightarrow> True
    | Op_Band \<Rightarrow> True | Op_Bor \<Rightarrow> True | Op_Bxor \<Rightarrow> True | _ \<Rightarrow> False)"

definition float_reduction :: "ucc_reduction_op \<Rightarrow> bool" where
  "float_reduction rop = (case rop of Op_Sum \<Rightarrow> True | Op_Min \<Rightarrow> True | Op_Max \<Rightarrow> True | _ \<Rightarrow> False)"

definition pod_u8 :: "endian \<Rightarrow> 8 word pod" where
  "pod_u8 e = pod_impl e 1 Uint8 integer_reduction"

definition pod_i8 :: "endian \<Rightarrow> 8 word pod" where
  "pod_i8 e = pod_impl e 1 Int8 integer_reduction"

definition pod_u16 :: "endian \<Rightarrow> 16 word pod" where
  "pod_u16 e = pod_impl e 2 Uint16 integer_reduction"

definition pod_i16 :: "endian \<Rightarrow> 16 word pod" where
  "pod_i16 e = pod_impl e 2 Int16 integer_reduction"

definition pod_u32 :: "endian \<Rightarrow> 32 word pod" where
  "pod_u32 e = pod_impl e 4 Uint32 integer_reduction"

definition pod_i32 :: "endian \<Rightarrow> 32 word pod" where
  "pod_i32 e = pod_impl e 4 Int32 integer_reduction"

definition pod_u64 :: "endian \<Rightarrow> 64 word pod" where
  "pod_u64 e = pod_impl e 8 Uint64 integer_reduction"

definition pod_i64 :: "endian \<Rightarrow> 64 word pod" where
  "pod_i64 e = pod_impl e 8 Int64 integer_reduction"

definition pod_f32 :: "endian \<Rightarrow> 32 word pod" where
  "pod_f32 e = pod_impl e 4 Float32 float_reduction"

definition pod_f64 :: "endian \<Rightarrow> 64 word pod" where
  "pod_f64 e = pod_impl e 8 Float64 float_reduction"

lemmas pod_defs =
  pod_u8_def pod_i8_def pod_u16_def pod_i16_def pod_u32_def pod_i32_def pod_u64_def pod_i64_def
  pod_f32_def pod_f64_def

text \<open>The memory of a slice, and \<open>pod_as_bytes\<close>: the same memory viewed as \<open>len\<close> bytes.\<close>

definition slice_bytes :: "'a pod \<Rightarrow> 'a list \<Rightarrow> u8 list" where
  "slice_bytes T xs = concat (map (pod_object T) xs)"

definition pod_as_bytes :: "'a pod \<Rightarrow> 'a list \<Rightarrow> u8 list result" where
  "pod_as_bytes T src =
     (if pod_size T \<noteq> pod_size_of T then Err (Internal ''Pod SIZE does not match size_of'')
      else
        outcome_bind (ok_or (checked_mul (of_nat (length src)) (pod_size T))
                        (Usage ''typed RMA length overflow''))
          (\<lambda>len. Ok (take (unat len) (slice_bytes T src))))"

section \<open>The codec contract\<close>

text \<open>
  \<open>sound\<close> is what the crate's zero-copy \<open>put\<close> and decoding \<open>get\<close> rely on: the size is the
  object's size, the encoding is the object representation, and decoding inverts it.
\<close>

locale pod_codec =
  fixes T :: "'a pod"
  assumes size_pos: "0 < unat (pod_size T)"
    and size_small: "unat (pod_size T) \<le> 8"
    and size_is_size_of: "pod_size T = pod_size_of T"
    and object_length: "length (pod_object T x) = unat (pod_size T)"
    and encode_object: "pod_encode T x dst = dst @ pod_object T x"
    and value_object: "pod_value T (pod_object T x) = x"
    and decode_object: "pod_decode T (pod_object T x) = Ok x"
    and decode_length: "length bs = unat (pod_size T) \<Longrightarrow>
      \<exists>x. pod_decode T bs = Ok x \<and> pod_object T x = bs"
    and decode_bad_length: "length bs \<noteq> unat (pod_size T) \<Longrightarrow>
      pod_decode T bs = Err (Internal ''invalid typed RMA byte count'')"
begin

lemma decode_Ok: "pod_decode T bs = Ok x \<longleftrightarrow> bs = pod_object T x"
proof
  assume "pod_decode T bs = Ok x"
  then show "bs = pod_object T x"
    using decode_length [of bs] decode_bad_length [of bs] by (cases "length bs = unat (pod_size T)") auto
qed (simp add: decode_object)

lemma object_inj: "pod_object T x = pod_object T y \<longleftrightarrow> x = y"
  by (metis decode_object outcome.inject(1))

lemma length_slice_bytes: "length (slice_bytes T xs) = unat (pod_size T) * length xs"
  by (induction xs) (simp_all add: slice_bytes_def object_length)

lemma fold_encode: "fold (pod_encode T) xs dst = dst @ slice_bytes T xs"
  by (induction xs arbitrary: dst) (simp_all add: slice_bytes_def encode_object)

lemma decode_chunks_slice:
  "collect_results (map (pod_decode T) (chunks_exact (unat (pod_size T)) (slice_bytes T xs))) = Ok xs"
proof -
  have "chunks_exact (unat (pod_size T)) (slice_bytes T xs) = map (pod_object T) xs"
    unfolding slice_bytes_def using size_pos object_length by (intro chunks_exact_concat) auto
  then have "collect_results (map (pod_decode T) (chunks_exact (unat (pod_size T)) (slice_bytes T xs))) =
      collect_results (map (\<lambda>x. pod_decode T (pod_object T x)) xs)"
    by (simp add: comp_def)
  then show ?thesis by (simp add: decode_object)
qed

lemma slice_bytes_inj: "slice_bytes T xs = slice_bytes T ys \<longleftrightarrow> xs = ys"
  by (metis decode_chunks_slice outcome.inject(1))

text \<open>The zero-copy view is the encoding, for every slice that fits in the address space.\<close>

lemma pod_as_bytes_Ok:
  assumes "unat (pod_size T) * length xs \<le> isize_max"
  shows "pod_as_bytes T xs = Ok (slice_bytes T xs)"
proof -
  have "length xs \<le> unat (pod_size T) * length xs" using size_pos by simp
  with assms have "length xs \<le> isize_max" by (rule order_trans [rotated])
  then have len: "unat (of_nat (length xs) :: usize) = length xs"
    by (intro unat_of_nat_len) (simp add: isize_max_def)
  have "length xs * unat (pod_size T) < 2 ^ LENGTH(64)"
    using assms by (simp add: isize_max_def mult.commute)
  with len have "unat (of_nat (length xs) * pod_size T :: usize) = length xs * unat (pod_size T)"
    by (simp add: unat_word_ariths)
  moreover from this len have
    "checked_mul (of_nat (length xs)) (pod_size T) = Some (of_nat (length xs) * pod_size T)"
    by simp
  ultimately show ?thesis
    using size_is_size_of
    by (simp add: pod_as_bytes_def length_slice_bytes mult.commute del: checked_mul_eq_Some)
qed

text \<open>Any bytes decode: only a remainder shorter than one element is lost.\<close>

lemma decode_chunks_total:
  obtains xs where
    "collect_results (map (pod_decode T) (chunks_exact (unat (pod_size T)) bs)) = Ok xs"
    and "slice_bytes T xs = take (unat (pod_size T) * (length bs div unat (pod_size T))) bs"
    and "length xs = length bs div unat (pod_size T)"
proof -
  let ?n = "unat (pod_size T)" and ?cs = "chunks_exact (unat (pod_size T)) bs"
  have "\<forall>c \<in> set ?cs. \<exists>x. pod_decode T c = Ok x \<and> pod_object T x = c"
    using chunks_exact_lengths decode_length by blast
  then obtain g where g: "\<And>c. c \<in> set ?cs \<Longrightarrow> pod_decode T c = Ok (g c) \<and> pod_object T (g c) = c"
    by metis
  have "collect_results (map (pod_decode T) ?cs) = Ok (map g ?cs)"
    using g by (intro collect_results_all_Ok) blast
  moreover have "slice_bytes T (map g ?cs) = take (?n * (length bs div ?n)) bs"
  proof -
    have "map (pod_object T) (map g ?cs) = ?cs" using g by (simp add: map_idI)
    then show ?thesis unfolding slice_bytes_def by (simp only: concat_chunks_exact [OF size_pos])
  qed
  moreover have "length (map g ?cs) = length bs div ?n"
    by (simp add: length_chunks_exact size_pos)
  ultimately show ?thesis by (rule that)
qed

end

text \<open>
  What the collectives rely on besides: an element has as many bytes on the wire as UCC counts for
  the datatype it is announced as.
\<close>

locale pod_wire = pod_codec +
  assumes wire_width: "dtype_width (pod_ucc_datatype T) = unat (pod_size T)"
begin

lemma wire_length: "length xs * dtype_width (pod_ucc_datatype T) = length (slice_bytes T xs)"
  by (simp add: wire_width length_slice_bytes)

end

text \<open>Every expansion of the macro whose size is the type's size is a codec; it fits the wire when the
  datatype has that size too.\<close>

lemma pod_impl_codec:
  assumes "8 dvd LENGTH('a::len)" and "LENGTH('a) \<le> 64" and "unat sz = LENGTH('a) div 8"
  shows "pod_codec (pod_impl e sz dt r :: 'a word pod)"
proof -
  have pos: "0 < LENGTH('a) div 8"
  proof -
    obtain k where "LENGTH('a) = 8 * k" using assms(1) by (rule dvdE)
    moreover have "0 < LENGTH('a)" by (rule len_gt_0)
    ultimately show ?thesis by simp
  qed
  have len: "of_nat (LENGTH('a) div 8) = sz" by (metis assms(3) unat_of_nat_len unsigned_less word_unat_eq_iff)
  show ?thesis
  proof unfold_locales
    fix bs :: "u8 list"
    assume "length bs = unat (pod_size (pod_impl e sz dt r :: 'a word pod))"
    then have l: "length bs = LENGTH('a) div 8" using assms(3) by (simp add: pod_impl_def)
    then show "\<exists>x. pod_decode (pod_impl e sz dt r :: 'a word pod) bs = Ok x \<and>
        pod_object (pod_impl e sz dt r) x = bs"
      using assms to_from_ne_bytes [OF assms(1) l] by (simp add: pod_impl_def)
  qed (use assms pos len in \<open>simp_all add: pod_impl_def from_to_ne_bytes\<close>)
qed

lemma pod_impl_wire:
  assumes "8 dvd LENGTH('a::len)" and "LENGTH('a) \<le> 64" and "unat sz = LENGTH('a) div 8"
    and "dtype_width dt = unat sz"
  shows "pod_wire (pod_impl e sz dt r :: 'a word pod)"
  using pod_impl_codec [OF assms(1-3), of e dt r] assms(4)
  by (simp add: pod_wire_def pod_wire_axioms_def) (simp add: pod_impl_def)

interpretation u8: pod_wire "pod_u8 e" for e
  unfolding pod_defs by (rule pod_impl_wire) simp_all

interpretation i8: pod_wire "pod_i8 e" for e
  unfolding pod_defs by (rule pod_impl_wire) simp_all

interpretation u16: pod_wire "pod_u16 e" for e
  unfolding pod_defs by (rule pod_impl_wire) simp_all

interpretation i16: pod_wire "pod_i16 e" for e
  unfolding pod_defs by (rule pod_impl_wire) simp_all

interpretation u32: pod_wire "pod_u32 e" for e
  unfolding pod_defs by (rule pod_impl_wire) simp_all

interpretation i32: pod_wire "pod_i32 e" for e
  unfolding pod_defs by (rule pod_impl_wire) simp_all

interpretation u64: pod_wire "pod_u64 e" for e
  unfolding pod_defs by (rule pod_impl_wire) simp_all

interpretation i64: pod_wire "pod_i64 e" for e
  unfolding pod_defs by (rule pod_impl_wire) simp_all

interpretation f32: pod_wire "pod_f32 e" for e
  unfolding pod_defs by (rule pod_impl_wire) simp_all

interpretation f64: pod_wire "pod_f64 e" for e
  unfolding pod_defs by (rule pod_impl_wire) simp_all

end
