(* ===== verification/Bindings.thy ===== *)
theory Bindings
  imports Pod
begin

text \<open>
  The interfaces of the three binding crates \<open>ucx-sys\<close>, \<open>pmix\<close> and \<open>ucc\<close>, and of the
  global allocator, as records of functions. None of their code is in the repository: the
  records are parameters of every definition that calls them, one field per function the
  crate uses, and no field is given a meaning here. A theorem that needs one states the
  documented behaviour it relies on as a hypothesis.

  The calls act on a \<open>world\<close>: the process environment, the byte buffers of this process
  that a binding can write (a \<open>Vec\<close> or a reply cell passed by reference), the boxed
  requests the crate hands to UCC as raw pointers, and \<open>w_ext\<close>,
  everything behind the bindings (the PMIx server, the network, the other processing
  elements), whose type is left open. Handles are opaque.
\<close>

type_synonym handle = nat
type_synonym bytes = "u8 list"

record 'x world =
  w_env :: "string \<Rightarrow> string option"
  w_bufs :: "nat \<Rightarrow> bytes"
  w_next :: nat
  w_reqs :: "nat \<rightharpoonup> int"
  w_ext :: 'x

type_synonym ('x, 'f, 'a) call = "'x world \<Rightarrow> ('f + 'a) \<times> 'x world"

text \<open>A new buffer with the given contents, and reading a buffer.\<close>

definition buf_new :: "bytes \<Rightarrow> 'x world \<Rightarrow> nat \<times> 'x world" where
  "buf_new bs w = (w_next w, w\<lparr>w_bufs := (w_bufs w)(w_next w := bs), w_next := Suc (w_next w)\<rparr>)"

definition buf_get :: "nat \<Rightarrow> 'x world \<Rightarrow> bytes \<times> 'x world" where
  "buf_get b w = (w_bufs w b, w)"

text \<open>What a destructor releases.\<close>

datatype resource =
    R_Endpoint handle
  | R_Rkey handle
  | R_Memh handle
  | R_Region u64
  | R_Worker handle
  | R_Context handle
  | R_Config handle
  | R_Team handle
  | R_Ucc_Context handle
  | R_Ucc_Lib handle
  | R_Oob
  | R_Client handle
  | R_Coll handle
  | R_Request handle

section \<open>ucx-sys\<close>

datatype ucx_feature = Feature_Tag | Feature_Rma

datatype thread_mode = Thread_Mode_Serialized

datatype config_error = Config_Ucs ucx_status | Config_Nul

text \<open>The atomic memory operations of one width. The last argument before the world of a
  plain operation is the size of its contiguous datatype; a fetching operation takes the
  worker first and the buffer of its reply last.\<close>

record ('x, 'b) amo =
  amo_add :: "handle \<Rightarrow> 'b \<Rightarrow> u64 \<Rightarrow> handle \<Rightarrow> usize \<Rightarrow> ('x, ucx_status, handle option) call"
  amo_xor :: "handle \<Rightarrow> 'b \<Rightarrow> u64 \<Rightarrow> handle \<Rightarrow> usize \<Rightarrow> ('x, ucx_status, handle option) call"
  amo_swap :: "handle \<Rightarrow> 'b \<Rightarrow> u64 \<Rightarrow> handle \<Rightarrow> usize \<Rightarrow> ('x, ucx_status, handle option) call"
  amo_and :: "handle \<Rightarrow> 'b \<Rightarrow> u64 \<Rightarrow> handle \<Rightarrow> usize \<Rightarrow> ('x, ucx_status, handle option) call"
  amo_or :: "handle \<Rightarrow> 'b \<Rightarrow> u64 \<Rightarrow> handle \<Rightarrow> usize \<Rightarrow> ('x, ucx_status, handle option) call"
  amo_cswap ::
    "handle \<Rightarrow> 'b \<Rightarrow> 'b \<Rightarrow> u64 \<Rightarrow> handle \<Rightarrow> usize \<Rightarrow> ('x, ucx_status, handle option) call"
  amo_fadd :: "handle \<Rightarrow> handle \<Rightarrow> 'b \<Rightarrow> u64 \<Rightarrow> handle \<Rightarrow> nat \<Rightarrow> ('x, ucx_status, handle) call"
  amo_fxor :: "handle \<Rightarrow> handle \<Rightarrow> 'b \<Rightarrow> u64 \<Rightarrow> handle \<Rightarrow> nat \<Rightarrow> ('x, ucx_status, handle) call"
  amo_fswap :: "handle \<Rightarrow> handle \<Rightarrow> 'b \<Rightarrow> u64 \<Rightarrow> handle \<Rightarrow> nat \<Rightarrow> ('x, ucx_status, handle) call"
  amo_fcswap ::
    "handle \<Rightarrow> handle \<Rightarrow> 'b \<Rightarrow> 'b \<Rightarrow> u64 \<Rightarrow> handle \<Rightarrow> nat \<Rightarrow> ('x, ucx_status, handle) call"

record 'x ucx =
  ucx_is_err :: "ucx_status \<Rightarrow> bool"
  config_read :: "string \<Rightarrow> string \<Rightarrow> ('x, config_error, handle) call"
  context_new :: "handle \<Rightarrow> ucx_feature list \<Rightarrow> nat \<Rightarrow> usize \<Rightarrow> ('x, ucx_status, handle) call"
  worker_create :: "handle \<Rightarrow> thread_mode \<Rightarrow> ('x, ucx_status, handle) call"
  worker_pack_address :: "handle \<Rightarrow> ('x, ucx_status, bytes) call"
  mt_worker_new :: "handle \<Rightarrow> ('x, ucx_status, handle) call"
  worker_create_ep :: "handle \<Rightarrow> bytes \<Rightarrow> ('x, ucx_status, handle) call"
  worker_wait_request :: "handle \<Rightarrow> handle \<Rightarrow> ('x, ucx_status, bool) call"
  worker_fence :: "handle \<Rightarrow> ('x, ucx_status, unit) call"
  worker_progress :: "handle \<Rightarrow> 'x world \<Rightarrow> 'x world"
  request_free :: "handle \<Rightarrow> 'x world \<Rightarrow> 'x world"
  mem_map :: "handle \<Rightarrow> u64 \<Rightarrow> usize \<Rightarrow> ('x, ucx_status, handle) call"
  mem_pack_rkey :: "handle \<Rightarrow> handle \<Rightarrow> ('x, ucx_status, bytes) call"
  rkey_unpack :: "handle \<Rightarrow> bytes \<Rightarrow> ('x, ucx_status, handle) call"
  rma_put :: "handle \<Rightarrow> bytes \<Rightarrow> u64 \<Rightarrow> handle \<Rightarrow> ('x, ucx_status, handle option) call"
  rma_get :: "handle \<Rightarrow> nat \<Rightarrow> u64 \<Rightarrow> handle \<Rightarrow> ('x, ucx_status, handle option) call"
  ep_flush :: "handle \<Rightarrow> ('x, ucx_status, handle option) call"
  fetch_check_finished :: "handle \<Rightarrow> ('x, ucx_status, bool) call"
  fetch_free :: "handle \<Rightarrow> 'x world \<Rightarrow> 'x world"
  amo32 :: "('x, u32) amo"
  amo64 :: "('x, u64) amo"

section \<open>pmix\<close>

record 'x pmix =
  pmix_success :: pmix_error
  pmix_generic :: pmix_error
  pmix_from_raw :: "int \<Rightarrow> pmix_error option"
  rank_wildcard :: u32
  job_size_key :: bytes
  scope_global :: int
  pmix_connect_new :: "('x, pmix_error, handle) call"
  pmix_require_rank :: "handle \<Rightarrow> 'x world \<Rightarrow> u32 \<times> 'x world"
  pmix_disconnect :: "handle \<Rightarrow> ('x, int, unit) call"
  pmix_proc :: "handle \<Rightarrow> u32 \<Rightarrow> ('x, pmix_error, handle) call"
  pmix_get_value :: "handle \<Rightarrow> bytes \<Rightarrow> ('x, pmix_error, handle) call"
  pmix_byte_object :: "bytes \<Rightarrow> ('x, unit, handle) call"
  pmix_uint64_object :: "u64 \<Rightarrow> 'x world \<Rightarrow> handle \<times> 'x world"
  pmix_build :: "handle \<Rightarrow> ('x, unit, handle) call"
  pmix_put_value :: "int \<Rightarrow> bytes \<Rightarrow> handle \<Rightarrow> ('x, int, unit) call"
  pmix_commit :: "('x, int, unit) call"
  pmix_fence :: "handle \<Rightarrow> ('x, int, unit) call"
  value_bytes_copy :: "handle \<Rightarrow> 'x world \<Rightarrow> bytes \<times> 'x world"
  value_uint64 :: "handle \<Rightarrow> 'x world \<Rightarrow> u64 \<times> 'x world"
  value_uint32 :: "handle \<Rightarrow> 'x world \<Rightarrow> u32 \<times> 'x world"

section \<open>ucc\<close>

text \<open>\<open>OobState\<close> of \<open>src/coll.rs\<close>: what the callback table handed to UCC points to.\<close>

record oob_state =
  oob_client :: handle
  oob_rank :: u32
  oob_size :: u32

text \<open>The callbacks. A pointer is a buffer or \<open>None\<close> for null; \<open>allgather\<close> returns its status
  and the request it stored, if any. No result: undefined behaviour or an abort.\<close>

type_synonym 'x allgather_fn =
  "nat option \<Rightarrow> nat option \<Rightarrow> usize \<Rightarrow> oob_state option \<Rightarrow> bool \<Rightarrow> 'x world \<Rightarrow>
   ((int \<times> nat option) \<times> 'x world) option"

type_synonym 'x request_fn = "nat option \<Rightarrow> 'x world \<Rightarrow> (int \<times> 'x world) option"

record 'x oob_table =
  ot_allgather :: "'x allgather_fn"
  ot_req_test :: "'x request_fn"
  ot_req_free :: "'x request_fn"
  ot_coll_info :: oob_state
  ot_n_oob_eps :: u32
  ot_oob_ep :: u32

datatype coll_type = Coll_Barrier | Coll_Broadcast | Coll_Allgather | Coll_Allreduce

text \<open>What the builder of a collective was given.\<close>

record coll_args =
  ca_type :: coll_type
  ca_inplace :: "nat option"
  ca_src :: "nat option"
  ca_dst :: "nat option"
  ca_count :: u64
  ca_dtype :: "ucc_datatype option"
  ca_root :: "u64 option"
  ca_op :: "ucc_reduction_op option"

record 'x ucc =
  ucc_ok :: int
  ucc_no_message :: int
  ucc_from_raw :: "int \<Rightarrow> ucc_status"
  ucc_lib_init :: "('x, ucc_status, handle) call"
  ucc_context_new :: "handle \<Rightarrow> ('x, ucc_status, handle) call"
  ucc_team_with_params :: "handle \<Rightarrow> u64 \<Rightarrow> 'x oob_table \<Rightarrow> ('x, ucc_status, handle) call"
  ucc_team_size :: "handle \<Rightarrow> ('x, ucc_status, u32) call"
  coll_init :: "coll_args \<Rightarrow> handle \<Rightarrow> ('x, ucc_status, handle) call"
  coll_post :: "handle \<Rightarrow> ('x, ucc_status, unit) call"
  coll_status :: "handle \<Rightarrow> 'x world \<Rightarrow> int \<times> 'x world"
  coll_finalize :: "handle \<Rightarrow> ('x, ucc_status, unit) call"
  ucc_progress :: "handle \<Rightarrow> 'x world \<Rightarrow> 'x world"

section \<open>The allocator and the destructors\<close>

text \<open>\<open>alloc_words n\<close> returns the address of a zeroed array of \<open>n\<close> 64-bit words, or
  \<open>None\<close> when memory is exhausted and the process aborts.\<close>

record 'x bindings =
  ucx :: "'x ucx"
  pmix :: "'x pmix"
  ucc :: "'x ucc"
  alloc_words :: "nat \<Rightarrow> 'x world \<Rightarrow> (u64 \<times> 'x world) option"
  release :: "resource \<Rightarrow> 'x world \<Rightarrow> 'x world"

definition release_all :: "'x bindings \<Rightarrow> resource list \<Rightarrow> 'x world \<Rightarrow> 'x world" where
  "release_all B rs w = fold (release B) rs w"

text \<open>\<open>map_err(Error::from)\<close> at a call of the two bindings.\<close>

definition ucx_error :: "'x bindings \<Rightarrow> ucx_status \<Rightarrow> error" where
  "ucx_error B s = from_ucx (ucx_is_err (ucx B)) s"

definition pmix_error_from :: "'x bindings \<Rightarrow> pmix_error \<Rightarrow> error" where
  "pmix_error_from B e = from_pmix (pmix_success (pmix B)) e"

definition ucx_call :: "'x bindings \<Rightarrow> ('x, ucx_status, 'a) call \<Rightarrow> ('x world, error, 'a) io" where
  "ucx_call B f = io_call (ucx_error B) f"

definition pmix_call :: "'x bindings \<Rightarrow> ('x, pmix_error, 'a) call \<Rightarrow> ('x world, error, 'a) io" where
  "pmix_call B f = io_call (pmix_error_from B) f"

text \<open>\<open>coll::map_ucc\<close> at a call of \<open>ucc\<close>.\<close>

definition map_ucc :: "ucc_status \<Rightarrow> error" where
  "map_ucc s = Ucc s"

definition ucc_call :: "('x, ucc_status, 'a) call \<Rightarrow> ('x world, error, 'a) io" where
  "ucc_call f = io_call map_ucc f"

text \<open>\<open>vec![0_u64; words]\<close>: more than \<open>isize::MAX\<close> bytes panic (capacity overflow).\<close>

definition vec_zeroed_u64 :: "'x bindings \<Rightarrow> usize \<Rightarrow> ('x world, error, u64 list \<times> u64) io" where
  "vec_zeroed_u64 B n w =
     (if isize_max < unat n * 8 then Some (Panic, w)
      else (case alloc_words B (unat n) w of
          None \<Rightarrow> None
        | Some (a, w') \<Rightarrow> Some (Ok (replicate (unat n) 0, a), w')))"

text \<open>\<open>vec![0_u8; len]\<close> handed to a binding by reference.\<close>

definition vec_zeroed_u8 :: "usize \<Rightarrow> ('x world, error, nat) io" where
  "vec_zeroed_u8 n w =
     (if isize_max < unat n then Some (Panic, w)
      else (case buf_new (replicate (unat n) 0) w of (b, w') \<Rightarrow> Some (Ok b, w')))"

end
