(* ===== verification/Ordered_Map.thy ===== *)
theory Ordered_Map
  imports Rust_Prelude
begin

text \<open>
  \<open>BTreeMap\<close> where its order matters (the peers, which are flushed and dropped in ascending
  order of their rank): a list of pairs with strictly ascending keys. The locale is the
  contract the crate uses a map by: lookup after insertion, and iteration in key order.
\<close>

type_synonym ('k, 'v) btree = "('k \<times> 'v) list"

definition btree_empty :: "('k, 'v) btree" where
  "btree_empty = []"

fun btree_insert :: "'k::linorder \<Rightarrow> 'v \<Rightarrow> ('k, 'v) btree \<Rightarrow> ('k, 'v) btree" where
  "btree_insert k v [] = [(k, v)]"
| "btree_insert k v ((k', v') # m) =
     (if k < k' then (k, v) # (k', v') # m
      else if k = k' then (k, v) # m
      else (k', v') # btree_insert k v m)"

definition btree_get :: "('k, 'v) btree \<Rightarrow> 'k \<Rightarrow> 'v option" where
  "btree_get m k = map_of m k"

definition btree_values :: "('k, 'v) btree \<Rightarrow> 'v list" where
  "btree_values m = map snd m"

definition btree_wf :: "('k::linorder, 'v) btree \<Rightarrow> bool" where
  "btree_wf m \<longleftrightarrow> sorted_wrt (<) (map fst m)"

locale ordered_map =
  fixes empty :: "'m"
    and insert_op :: "'k::linorder \<Rightarrow> 'v \<Rightarrow> 'm \<Rightarrow> 'm"
    and get :: "'m \<Rightarrow> 'k \<Rightarrow> 'v option"
    and entries :: "'m \<Rightarrow> ('k \<times> 'v) list"
    and wf_map :: "'m \<Rightarrow> bool"
  assumes empty_wf: "wf_map empty"
    and get_empty: "get empty k = None"
    and insert_wf: "wf_map m \<Longrightarrow> wf_map (insert_op k v m)"
    and get_insert: "wf_map m \<Longrightarrow> get (insert_op k v m) j = (if j = k then Some v else get m j)"
    and entries_get: "wf_map m \<Longrightarrow> (k, v) \<in> set (entries m) \<longleftrightarrow> get m k = Some v"
    and entries_ascending: "wf_map m \<Longrightarrow> sorted_wrt (<) (map fst (entries m))"
begin

lemma insert_overwrites: "wf_map m \<Longrightarrow> get (insert_op k v (insert_op k u m)) j = get (insert_op k v m) j"
  by (simp add: get_insert insert_wf)

lemma entries_keys: "wf_map m \<Longrightarrow> fst ` set (entries m) = {k. get m k \<noteq> None}"
  by (auto simp: entries_get image_iff) (metis entries_get fst_conv)

text \<open>Filling a map with one entry per key of a list.\<close>

lemma fill_get:
  "wf_map m \<Longrightarrow> get (fold (\<lambda>k m. insert_op k (f k) m) ks m) j =
     (if j \<in> set ks then Some (f j) else get m j)"
  by (induction ks arbitrary: m) (auto simp: insert_wf get_insert)

end

lemma btree_insert_keys:
  "fst ` set (btree_insert k v m) = insert k (fst ` set m)"
  by (induction k v m rule: btree_insert.induct) (simp_all, blast)

lemma btree_insert_wf: "btree_wf m \<Longrightarrow> btree_wf (btree_insert k v m)"
proof (induction m)
  case Nil
  then show ?case by (simp add: btree_wf_def)
next
  case (Cons b m)
  obtain k' v' where b: "b = (k', v')" by (cases b)
  have "btree_wf m" and above: "\<forall>x \<in> set (map fst m). k' < x"
    using Cons.prems by (auto simp: btree_wf_def b)
  with Cons.IH have ih: "sorted_wrt (<) (map fst (btree_insert k v m))"
    by (simp add: btree_wf_def)
  show ?case
  proof (cases "k' < k")
    case True
    then have "\<forall>x \<in> set (map fst (btree_insert k v m)). k' < x"
      using above by (simp add: btree_insert_keys)
    with True ih show ?thesis by (auto simp: btree_wf_def b)
  next
    case False
    with Cons.prems show ?thesis by (auto simp: btree_wf_def b)
  qed
qed

lemma btree_get_insert:
  "btree_wf m \<Longrightarrow> btree_get (btree_insert k v m) j = (if j = k then Some v else btree_get m j)"
  by (induction m) (auto simp: btree_get_def btree_wf_def)

lemma btree_wf_distinct: "btree_wf m \<Longrightarrow> distinct (map fst m)"
  by (simp add: btree_wf_def strict_sorted_iff)

interpretation btree: ordered_map btree_empty btree_insert btree_get "\<lambda>m. m" btree_wf
proof unfold_locales
  show "btree_wf btree_empty" by (simp add: btree_wf_def btree_empty_def)
  show "btree_get btree_empty k = None" for k by (simp add: btree_get_def btree_empty_def)
  show "(k, v) \<in> set m \<longleftrightarrow> btree_get m k = Some v" if "btree_wf m" for m k v
    using btree_wf_distinct [OF that] by (simp add: btree_get_def map_of_eq_Some_iff)
  show "sorted_wrt (<) (map fst m)" if "btree_wf m" for m :: "('a \<times> 'b) list"
    using that by (simp add: btree_wf_def)
qed (simp_all add: btree_insert_wf btree_get_insert)

end
