(* ===== verification/SymHeap.thy ===== *)
theory SymHeap
  imports Heap_Spec Bindings Ordered_Map
begin

text \<open>
  \<open>src/symheap.rs\<close>: the symmetric heap of one processing element. A heap is one registered
  region with a first-fit free list and the table of live allocations; \<open>heap_malloc\<close> and
  \<open>heap_free\<close> are translated with every check, every error and every overflow of the word
  arithmetic. Addresses (\<open>SymPtr\<close>) are 64-bit words. The refinement of the abstract
  allocator is in \<open>SymHeap_Refine\<close>.
\<close>

section \<open>Symmetric pointers\<close>

definition DEFAULT_HEAP_SIZE :: usize where
  "DEFAULT_HEAP_SIZE = 64 * 1024 * 1024"

definition ALIGNMENT :: usize where
  "ALIGNMENT = 8"

definition SIZEOF_U64 :: usize where
  "SIZEOF_U64 = 8"

datatype symptr = SymPtr (sp_addr: usize)

text \<open>Pointers are ordered by address.\<close>

instantiation symptr :: linorder
begin

definition less_eq_symptr :: "symptr \<Rightarrow> symptr \<Rightarrow> bool" where
  "p \<le> q \<longleftrightarrow> sp_addr p \<le> sp_addr q"

definition less_symptr :: "symptr \<Rightarrow> symptr \<Rightarrow> bool" where
  "p < q \<longleftrightarrow> sp_addr p < sp_addr q"

instance
  by standard (auto simp: less_eq_symptr_def less_symptr_def symptr.expand)

end

fun offset_from :: "symptr \<Rightarrow> u64 \<Rightarrow> usize result" where
  "offset_from (SymPtr a) local_base =
     ok_or (checked_sub a local_base) (Usage ''pointer is below symmetric heap base'')"

definition offset_from_u64 :: "symptr \<Rightarrow> u64 \<Rightarrow> u64 result" where
  "offset_from_u64 p local_base = outcome_bind (offset_from p local_base) (\<lambda>off. Ok off)"

definition to_remote_addr :: "symptr \<Rightarrow> u64 \<Rightarrow> u64 \<Rightarrow> u64 result" where
  "to_remote_addr p local_base peer_base =
     outcome_bind (offset_from_u64 p local_base) (\<lambda>off.
       ok_or (checked_add peer_base off) (Usage ''remote symmetric address overflow''))"

section \<open>The peer table\<close>

record peer_rkey =
  pk_heap_base :: u64
  pk_rkey :: bytes

type_synonym peer_rkeys = "(u32, peer_rkey) btree"

definition peer_rkeys_insert :: "peer_rkeys \<Rightarrow> u32 \<Rightarrow> u64 \<Rightarrow> bytes \<Rightarrow> peer_rkeys" where
  "peer_rkeys_insert m pe base rkey = btree_insert pe \<lparr>pk_heap_base = base, pk_rkey = rkey\<rparr> m"

definition peer_rkeys_get :: "peer_rkeys \<Rightarrow> u32 \<Rightarrow> peer_rkey option" where
  "peer_rkeys_get m pe = btree_get m pe"

section \<open>The heap\<close>

record block =
  blk_start :: usize
  blk_len :: usize

record symheap =
  sh_memh :: handle
  sh_region :: "u64 list"
  sh_free :: "block list"
  sh_allocations :: "usize \<rightharpoonup> usize"
  sh_packed_rkey :: bytes
  sh_local_base :: u64

text \<open>\<open>SymHeap::with_size\<close>: what is already built when a later step fails is dropped.\<close>

definition heap_with_size ::
  "'x bindings \<Rightarrow> handle \<Rightarrow> usize \<Rightarrow> ('x world, error, symheap) io"
where
  "heap_with_size B ctx sz =
     (if sz < ALIGNMENT then io_err (Usage ''symmetric heap is too small'')
      else
        io_bind (io_lift (ok_or (checked_add sz (SIZEOF_U64 - 1))
                   (Usage ''symmetric heap size overflow''))) (\<lambda>padded.
        let words = padded div SIZEOF_U64 in
        io_bind (io_lift (mul_op words SIZEOF_U64)) (\<lambda>capacity.
        io_bind (vec_zeroed_u64 B words) (\<lambda>(region, local_base).
        io_on_fail (release B (R_Region local_base))
          (io_bind (ucx_call B (mem_map (ucx B) ctx local_base capacity)) (\<lambda>memh.
           io_on_fail (release B (R_Memh memh))
             (io_bind (ucx_call B (mem_pack_rkey (ucx B) ctx memh)) (\<lambda>packed.
              io_return
                \<lparr>sh_memh = memh, sh_region = region,
                 sh_free = [\<lparr>blk_start = 0, blk_len = capacity\<rparr>],
                 sh_allocations = Map.empty, sh_packed_rkey = packed,
                 sh_local_base = local_base\<rparr>))))))))"

text \<open>\<open>SymHeap::new\<close>; the context is the transport's.\<close>

definition heap_size_setting :: "'x world \<Rightarrow> usize" where
  "heap_size_setting w =
     (case Option.bind (w_env w ''SHMEM_SYMMETRIC_SIZE'') parse_usize of
        None \<Rightarrow> DEFAULT_HEAP_SIZE | Some n \<Rightarrow> n)"

definition heap_new :: "'x bindings \<Rightarrow> handle \<Rightarrow> ('x world, error, symheap) io" where
  "heap_new B ctx w = heap_with_size B ctx (heap_size_setting w) w"

section \<open>Allocation\<close>

definition round_request :: "usize \<Rightarrow> usize result" where
  "round_request sz =
     outcome_bind (ok_or (checked_add sz (ALIGNMENT - 1))
                     (Usage ''symmetric allocation size overflow''))
       (\<lambda>s. Ok (s AND NOT (ALIGNMENT - 1)))"

text \<open>\<open>self.free.remove(index)\<close> or the shrunk block.\<close>

definition take_block :: "block list \<Rightarrow> nat \<Rightarrow> usize \<Rightarrow> block list result" where
  "take_block blocks index requested =
     (let block = blocks ! index in
      if blk_len block = requested then Ok (take index blocks @ drop (Suc index) blocks)
      else
        outcome_bind (add_op (blk_start block) requested) (\<lambda>start.
        outcome_bind (sub_op (blk_len block) requested) (\<lambda>len.
          Ok (blocks[index := \<lparr>blk_start = start, blk_len = len\<rparr>]))))"

definition heap_malloc :: "symheap \<Rightarrow> usize \<Rightarrow> symptr result \<times> symheap" where
  "heap_malloc h sz =
     (if sz = 0 then (Err (Usage ''symmetric allocation size must be nonzero''), h)
      else (case round_request sz of
          Err e \<Rightarrow> (Err e, h)
        | Panic \<Rightarrow> (Panic, h)
        | Ok requested \<Rightarrow> (case position (\<lambda>b. requested \<le> blk_len b) (sh_free h) of
              None \<Rightarrow> (Err (Usage ''symmetric heap exhausted''), h)
            | Some index \<Rightarrow>
                (case add_op (sh_local_base h) (blk_start (sh_free h ! index)) of
                    Err e \<Rightarrow> (Err e, h)
                  | Panic \<Rightarrow> (Panic, h)
                  | Ok addr \<Rightarrow> (case take_block (sh_free h) index requested of
                        Err e \<Rightarrow> (Err e, h)
                      | Panic \<Rightarrow> (Panic, h)
                      | Ok blocks \<Rightarrow>
                          (Ok (SymPtr addr),
                           h\<lparr>sh_free := blocks,
                             sh_allocations := (sh_allocations h)(addr \<mapsto> requested)\<rparr>))))))"

section \<open>Deallocation\<close>

text \<open>The merging loop over the sorted, drained free list; \<open>merged\<close> is its result so far.\<close>

fun merge_blocks :: "block list \<Rightarrow> block list \<Rightarrow> block list result" where
  "merge_blocks merged [] = Ok merged"
| "merge_blocks merged (block # rest) =
     (if merged = [] then merge_blocks [block] rest
      else
        let lst = last merged in
        outcome_bind (add_op (blk_start lst) (blk_len lst)) (\<lambda>end_of_last.
        if end_of_last = blk_start block
        then outcome_bind (add_op (blk_len lst) (blk_len block)) (\<lambda>len.
               merge_blocks (butlast merged @ [lst\<lparr>blk_len := len\<rparr>]) rest)
        else merge_blocks (merged @ [block]) rest))"

text \<open>The region's length in bytes; \<open>capacity\<close> of the heap.\<close>

definition heap_capacity :: "symheap \<Rightarrow> usize result" where
  "heap_capacity h = mul_op (of_nat (length (sh_region h))) SIZEOF_U64"

text \<open>The test before the block is given back: inside the region and aligned. The capacity
  is only computed when the end of the block does not overflow.\<close>

definition block_in_region :: "symheap \<Rightarrow> usize \<Rightarrow> usize \<Rightarrow> bool result" where
  "block_in_region h start len =
     outcome_bind
       (case checked_add start len of
          None \<Rightarrow> Ok False
        | Some e \<Rightarrow> outcome_bind (heap_capacity h) (\<lambda>cap. Ok (e \<le> cap)))
       (\<lambda>inside. Ok (inside \<and> start mod ALIGNMENT = 0))"

text \<open>The entry leaves the table before the pointer is validated; a panic in the merging
  loop would leave the free list drained.\<close>

fun heap_free :: "symheap \<Rightarrow> symptr \<Rightarrow> unit result \<times> symheap" where
  "heap_free h (SymPtr a) = (case sh_allocations h a of
      None \<Rightarrow> (Err (Usage ''invalid symmetric pointer''), h)
    | Some len \<Rightarrow>
        (let h1 = h\<lparr>sh_allocations := (sh_allocations h)(a := None)\<rparr> in
         (case checked_sub a (sh_local_base h) of
             None \<Rightarrow> (Err (Usage ''invalid symmetric pointer''), h1)
           | Some start \<Rightarrow> (case block_in_region h1 start len of
                 Err e \<Rightarrow> (Err e, h1)
               | Panic \<Rightarrow> (Panic, h1)
               | Ok False \<Rightarrow> (Err (Usage ''invalid symmetric pointer''), h1)
               | Ok True \<Rightarrow>
                   (case merge_blocks []
                           (sort_key blk_start
                              (sh_free h1 @ [\<lparr>blk_start = start, blk_len = len\<rparr>])) of
                       Err e \<Rightarrow> (Err e, h1\<lparr>sh_free := []\<rparr>)
                     | Panic \<Rightarrow> (Panic, h1\<lparr>sh_free := []\<rparr>)
                     | Ok merged \<Rightarrow> (Ok (), h1\<lparr>sh_free := merged\<rparr>))))))"

section \<open>The handle behind a mutex\<close>

text \<open>\<open>SymAlloc\<close>: a heap behind a mutex. A panic while the lock is held poisons it, and
  every later call fails.\<close>

record sym_alloc =
  sa_poisoned :: bool
  sa_heap :: symheap

definition sym_alloc_locked ::
  "(symheap \<Rightarrow> 'a result \<times> symheap) \<Rightarrow> sym_alloc \<Rightarrow> 'a result \<times> sym_alloc"
where
  "sym_alloc_locked f a =
     (if sa_poisoned a then (Err (Internal ''symmetric heap lock poisoned''), a)
      else (case f (sa_heap a) of
          (r, h) \<Rightarrow> (r, \<lparr>sa_poisoned = is_panic r, sa_heap = h\<rparr>)))"

definition sym_alloc_new :: "'x bindings \<Rightarrow> handle \<Rightarrow> ('x world, error, sym_alloc) io" where
  "sym_alloc_new B ctx =
     io_bind (heap_new B ctx) (\<lambda>h. io_return \<lparr>sa_poisoned = False, sa_heap = h\<rparr>)"

definition sym_alloc_malloc :: "sym_alloc \<Rightarrow> usize \<Rightarrow> symptr result \<times> sym_alloc" where
  "sym_alloc_malloc a sz = sym_alloc_locked (\<lambda>h. heap_malloc h sz) a"

definition sym_alloc_free :: "sym_alloc \<Rightarrow> symptr \<Rightarrow> unit result \<times> sym_alloc" where
  "sym_alloc_free a p = sym_alloc_locked (\<lambda>h. heap_free h p) a"

definition sym_alloc_local_base :: "sym_alloc \<Rightarrow> u64 result \<times> sym_alloc" where
  "sym_alloc_local_base a = sym_alloc_locked (\<lambda>h. (Ok (sh_local_base h), h)) a"

section \<open>Address translation\<close>

lemma offset_from_Ok: "offset_from p b = Ok off \<longleftrightarrow> unat (sp_addr p) = unat b + unat off"
  by (cases p) simp

lemma to_remote_addr_Ok:
  "to_remote_addr p b c = Ok r \<longleftrightarrow>
     unat b \<le> unat (sp_addr p) \<and> unat r = unat c + (unat (sp_addr p) - unat b)"
proof -
  have "to_remote_addr p b c = Ok r \<longleftrightarrow>
    (\<exists>off :: usize. unat (sp_addr p) = unat b + unat off \<and> unat r = unat c + unat off)"
    by (simp add: to_remote_addr_def offset_from_u64_def outcome_bind_eq_Ok offset_from_Ok)
  moreover have "\<exists>off. unat (sp_addr p) = unat b + unat (off :: u64)"
    if "unat b \<le> unat (sp_addr p)"
    using that by (intro exI [of _ "sp_addr p - b"]) (simp add: unat_sub word_le_nat_alt)
  ultimately show ?thesis by auto
qed

end
