(* ===== verification/Allocator.thy ===== *)
theory Allocator
  imports SymHeap
begin

text \<open>
  The contract between a symmetric-heap allocator and its clients, as a locale: what
  \<open>malloc\<close> and \<open>free\<close> return, what they change of the table of live allocations, and that
  live allocations never overlap. Clients see sequences of calls; their lemmas are proved
  here once, from the contract alone. \<open>SymHeap_Refine\<close> interprets the locale on the heap and
  on the mutex-protected handle.
\<close>

text \<open>Sequences of calls, and the log of what they returned.\<close>

datatype heap_op = Malloc usize | Free symptr

datatype heap_reply = Malloced "symptr result" | Freed "unit result"

fun alloc_step ::
  "('h \<Rightarrow> usize \<Rightarrow> symptr result \<times> 'h) \<Rightarrow> ('h \<Rightarrow> symptr \<Rightarrow> unit result \<times> 'h) \<Rightarrow>
   'h \<Rightarrow> heap_op \<Rightarrow> heap_reply \<times> 'h"
where
  "alloc_step malloc free h (Malloc n) = map_prod Malloced id (malloc h n)"
| "alloc_step malloc free h (Free p) = map_prod Freed id (free h p)"

fun alloc_run ::
  "('h \<Rightarrow> usize \<Rightarrow> symptr result \<times> 'h) \<Rightarrow> ('h \<Rightarrow> symptr \<Rightarrow> unit result \<times> 'h) \<Rightarrow>
   'h \<Rightarrow> heap_op list \<Rightarrow> heap_reply list \<times> 'h"
where
  "alloc_run malloc free h [] = ([], h)"
| "alloc_run malloc free h (x # xs) =
     (let (r, h') = alloc_step malloc free h x;
          (rs, h'') = alloc_run malloc free h' xs
      in (r # rs, h''))"

text \<open>The table of live allocations that a client can keep from the replies alone.\<close>

fun note_reply :: "(symptr \<rightharpoonup> nat) \<Rightarrow> heap_op \<Rightarrow> heap_reply \<Rightarrow> (symptr \<rightharpoonup> nat)" where
  "note_reply m (Malloc n) (Malloced (Ok p)) = m(p \<mapsto> round_up8 (unat n))"
| "note_reply m (Free p) (Freed (Ok _)) = m(p := None)"
| "note_reply m _ _ = m"

fun note_replies :: "(symptr \<rightharpoonup> nat) \<Rightarrow> heap_op list \<Rightarrow> heap_reply list \<Rightarrow> (symptr \<rightharpoonup> nat)" where
  "note_replies m (x # xs) (r # rs) = note_replies (note_reply m x r) xs rs"
| "note_replies m _ _ = m"

definition overlap :: "symptr \<Rightarrow> nat \<Rightarrow> symptr \<Rightarrow> nat \<Rightarrow> bool" where
  "overlap p l q m \<longleftrightarrow>
     unat (sp_addr p) < unat (sp_addr q) + m \<and> unat (sp_addr q) < unat (sp_addr p) + l"

locale allocator =
  fixes inv :: "'h \<Rightarrow> bool"
    and malloc :: "'h \<Rightarrow> usize \<Rightarrow> symptr result \<times> 'h"
    and free :: "'h \<Rightarrow> symptr \<Rightarrow> unit result \<times> 'h"
    and live :: "'h \<Rightarrow> symptr \<Rightarrow> nat option"
  assumes malloc_Ok: "inv h \<Longrightarrow> malloc h n = (Ok p, h') \<Longrightarrow>
      inv h' \<and> live h p = None \<and> live h' = (live h)(p \<mapsto> round_up8 (unat n)) \<and>
      8 dvd unat (sp_addr p)"
    and malloc_Err: "inv h \<Longrightarrow> malloc h n = (Err e, h') \<Longrightarrow> h' = h"
    and malloc_no_Panic: "inv h \<Longrightarrow> malloc h n \<noteq> (Panic, h')"
    and free_live: "inv h \<Longrightarrow> live h p = Some l \<Longrightarrow>
      \<exists>h'. free h p = (Ok (), h') \<and> inv h' \<and> live h' = (live h)(p := None)"
    and free_dead: "inv h \<Longrightarrow> live h p = None \<Longrightarrow>
      free h p = (Err (Usage ''invalid symmetric pointer''), h)"
    and live_disjoint: "inv h \<Longrightarrow> live h p = Some l \<Longrightarrow> live h q = Some m \<Longrightarrow> p \<noteq> q \<Longrightarrow>
      \<not> overlap p l q m"
    and live_nonempty: "inv h \<Longrightarrow> live h p = Some l \<Longrightarrow> 0 < l"
begin

lemma malloc_inv: "inv h \<Longrightarrow> inv (snd (malloc h n))"
  by (cases "malloc h n"; cases "fst (malloc h n)")
    (auto dest: malloc_Ok malloc_Err malloc_no_Panic)

lemma free_cases:
  assumes "inv h"
  obtains (Live) l h' where "live h p = Some l" "free h p = (Ok (), h')" "inv h'"
      "live h' = (live h)(p := None)"
  | (Dead) "live h p = None" "free h p = (Err (Usage ''invalid symmetric pointer''), h)"
  using assms by (cases "live h p") (auto dest: free_live free_dead)

lemma free_inv: "inv h \<Longrightarrow> inv (snd (free h p))"
  by (rule free_cases [of h p]) simp_all

lemma double_free:
  "inv h \<Longrightarrow> free h p = (Ok (), h') \<Longrightarrow>
     free h' p = (Err (Usage ''invalid symmetric pointer''), h')"
  by (rule free_cases [of h p]) (simp_all add: free_dead)

lemma free_after_malloc:
  "inv h \<Longrightarrow> malloc h n = (Ok p, h') \<Longrightarrow> \<exists>h''. free h' p = (Ok (), h'') \<and> live h'' = live h"
  using malloc_Ok [of h n p h'] free_live [of h' p "round_up8 (unat n)"] by fastforce

lemma step_inv: "inv h \<Longrightarrow> inv (snd (alloc_step malloc free h x))"
  by (cases x) (simp_all add: malloc_inv free_inv)

lemma step_live:
  assumes "inv h" and "alloc_step malloc free h x = (r, h')"
  shows "live h' = note_reply (live h) x r"
proof (cases x)
  case (Malloc n)
  then obtain s where s: "malloc h n = (s, h')" "r = Malloced s"
    using assms(2) by (cases "malloc h n") auto
  with Malloc assms(1) show ?thesis
    by (cases s) (auto dest: malloc_Ok malloc_Err malloc_no_Panic)
next
  case (Free p)
  with assms show ?thesis
    by (cases rule: free_cases [OF assms(1), of p, case_names Live Dead]) auto
qed

lemma run_inv: "inv h \<Longrightarrow> inv (snd (alloc_run malloc free h xs))"
proof (induction xs arbitrary: h)
  case (Cons x xs)
  obtain r h1 where step: "alloc_step malloc free h x = (r, h1)" by fastforce
  then have "inv h1" using step_inv [OF Cons.prems, of x] by simp
  with Cons.IH have "inv (snd (alloc_run malloc free h1 xs))" by blast
  with step show ?case by (simp add: Let_def case_prod_beta)
qed simp

text \<open>A client that only reads the replies knows exactly which allocations are live.\<close>

lemma run_live:
  "inv h \<Longrightarrow> alloc_run malloc free h xs = (rs, h') \<Longrightarrow> live h' = note_replies (live h) xs rs"
proof (induction xs arbitrary: h rs h')
  case (Cons x xs)
  obtain r h1 where step: "alloc_step malloc free h x = (r, h1)" by fastforce
  obtain rs1 h2 where run: "alloc_run malloc free h1 xs = (rs1, h2)" by fastforce
  have "inv h1" using step_inv [OF Cons.prems(1), of x] step by simp
  then have "live h2 = note_replies (live h1) xs rs1" by (rule Cons.IH) (rule run)
  moreover have "live h1 = note_reply (live h) x r" using step_live [OF Cons.prems(1) step] .
  ultimately show ?case using Cons.prems(2) step run by auto
qed simp

text \<open>Whatever a client does, two live allocations never share a byte.\<close>

lemma run_disjoint:
  assumes "inv h" and "alloc_run malloc free h xs = (rs, h')"
    and "note_replies (live h) xs rs p = Some l" and "note_replies (live h) xs rs q = Some m"
    and "p \<noteq> q"
  shows "\<not> overlap p l q m"
  using assms run_live [OF assms(1,2)] run_inv [OF assms(1), of xs]
    live_disjoint [of h' p l q m] by simp

end

end
