(* ===== verification/SymHeap_Refine.thy ===== *)
theory SymHeap_Refine
  imports Allocator
begin

text \<open>
  The heap of \<open>SymHeap\<close> implements the abstract allocator of \<open>Heap_Spec\<close>: the invariant
  \<open>heap_inv\<close> ties the word-level free list to the canonical run list of the free bytes,
  \<open>heap_abs\<close> forgets the free list, and allocation and deallocation commute with it on every
  branch, errors included. No arithmetic of the two operations overflows under the invariant.
\<close>

section \<open>Blocks as runs\<close>

definition run_of :: "block \<Rightarrow> run" where
  "run_of b = (unat (blk_start b), unat (blk_len b))"

lemma fst_run_of [simp]: "fst (run_of b) = unat (blk_start b)"
  and snd_run_of [simp]: "snd (run_of b) = unat (blk_len b)"
  by (simp_all add: run_of_def)

lemma run_of_eq_iff [simp]: "run_of b = run_of c \<longleftrightarrow> b = c"
  by (cases b; cases c) (simp add: run_of_def word_unat_eq_iff)

lemma map_run_of_eq [simp]: "map run_of bs = map run_of cs \<longleftrightarrow> bs = cs"
  by (rule inj_map_eq_map) (simp add: inj_def)

definition free_runs :: "symheap \<Rightarrow> run list" where
  "free_runs h = map run_of (sh_free h)"

definition heap_cap :: "symheap \<Rightarrow> nat" where
  "heap_cap h = 8 * length (sh_region h)"

definition heap_base :: "symheap \<Rightarrow> nat" where
  "heap_base h = unat (sh_local_base h)"

text \<open>The offset of a pointer into the heap; \<open>None\<close> when it points elsewhere.\<close>

fun ptr_offset :: "symheap \<Rightarrow> symptr \<Rightarrow> nat option" where
  "ptr_offset h (SymPtr a) =
     (if heap_base h \<le> unat a \<and> unat a < heap_base h + heap_cap h
      then Some (unat a - heap_base h) else None)"

definition addr_at :: "symheap \<Rightarrow> nat \<Rightarrow> usize" where
  "addr_at h p = of_nat (heap_base h + p)"

definition heap_abs :: "symheap \<Rightarrow> heap_spec" where
  "heap_abs h =
     \<lparr>sp_cap = heap_cap h,
      sp_allocs = (\<lambda>p. if p < heap_cap h then map_option unat (sh_allocations h (addr_at h p))
                      else None)\<rparr>"

text \<open>The region: not null, aligned, inside the address space, at most \<open>isize::MAX\<close> bytes.\<close>

definition region_ok :: "symheap \<Rightarrow> bool" where
  "region_ok h \<longleftrightarrow>
     0 < heap_base h \<and> 8 dvd heap_base h \<and> heap_base h + heap_cap h < 2 ^ 64 \<and>
     heap_cap h \<le> isize_max"

definition heap_inv :: "symheap \<Rightarrow> bool" where
  "heap_inv h \<longleftrightarrow>
     region_ok h \<and>
     (\<forall>a \<in> dom (sh_allocations h). ptr_offset h (SymPtr a) \<noteq> None) \<and>
     spec_wf (heap_abs h) \<and>
     runs (free_runs h) \<and> runs8 (free_runs h) \<and>
     covers (free_runs h) = spec_free_bytes (heap_abs h)"

declare heap_free.simps [simp del]

lemma heap_abs_sel [simp]: "sp_cap (heap_abs h) = heap_cap h"
  by (simp add: heap_abs_def)

lemma ptr_offset_Some [simp]:
  "ptr_offset h (SymPtr a) = Some q \<longleftrightarrow> unat a = heap_base h + q \<and> q < heap_cap h"
  by auto

declare ptr_offset.simps [simp del]

lemma addr_at_unat:
  assumes "region_ok h" and "p < heap_cap h"
  shows "unat (addr_at h p) = heap_base h + p"
proof -
  have "heap_base h + p < 2 ^ 64" using assms by (simp add: region_ok_def)
  then show ?thesis unfolding addr_at_def by (intro unat_of_nat_len) simp
qed

lemma addr_at_iff:
  assumes "region_ok h" and "p < heap_cap h"
  shows "addr_at h p = a \<longleftrightarrow> unat a = heap_base h + p"
  using addr_at_unat [OF assms] by (metis word_unat_eq_iff)

lemma heap_abs_allocs:
  assumes "region_ok h" and "ptr_offset h (SymPtr a) = Some p"
  shows "sp_allocs (heap_abs h) p = map_option unat (sh_allocations h a)"
proof -
  have "addr_at h p = a" and "p < heap_cap h" using assms addr_at_iff [OF assms(1)] by auto
  then show ?thesis by (simp add: heap_abs_def)
qed

lemma heap_abs_alloc_upd:
  assumes "region_ok h" and "ptr_offset h (SymPtr a) = Some p"
  shows "heap_abs (h\<lparr>sh_free := bs, sh_allocations := (sh_allocations h)(a := v)\<rparr>) =
    heap_abs h\<lparr>sp_allocs := (sp_allocs (heap_abs h))(p := map_option unat v)\<rparr>" (is "heap_abs ?h' = _")
proof -
  have p: "unat a = heap_base h + p" "p < heap_cap h" using assms(2) by auto
  have key: "(addr_at h q = a) = (q = p)" if "q < heap_cap h" for q
    using addr_at_iff [OF assms(1) that, of a] p(1) by auto
  have "sp_allocs (heap_abs ?h') q = ((sp_allocs (heap_abs h))(p := map_option unat v)) q" for q
    using key [of q] key [of p] p(2)
    by (auto simp: heap_abs_def heap_cap_def addr_at_def heap_base_def)
  then have "sp_allocs (heap_abs ?h') = (sp_allocs (heap_abs h))(p := map_option unat v)"
    by (rule ext)
  then show ?thesis
    by (simp add: heap_abs_def heap_cap_def)
qed

lemma heap_frame [simp]:
  "heap_cap (h\<lparr>sh_free := bs, sh_allocations := m\<rparr>) = heap_cap h"
  "heap_base (h\<lparr>sh_free := bs, sh_allocations := m\<rparr>) = heap_base h"
  "region_ok (h\<lparr>sh_free := bs, sh_allocations := m\<rparr>) = region_ok h"
  "ptr_offset (h\<lparr>sh_free := bs, sh_allocations := m\<rparr>) p = ptr_offset h p"
  "free_runs (h\<lparr>sh_free := bs, sh_allocations := m\<rparr>) = map run_of bs"
  by (cases p; simp add: heap_cap_def heap_base_def region_ok_def free_runs_def ptr_offset.simps)+

section \<open>The invariant, unpacked\<close>

lemma heap_invD:
  assumes "heap_inv h"
  shows "region_ok h" and "spec_wf (heap_abs h)" and "runs (free_runs h)"
    and "runs8 (free_runs h)" and "covers (free_runs h) = spec_free_bytes (heap_abs h)"
  using assms by (auto simp: heap_inv_def)

lemma heap_inv_keys:
  assumes "heap_inv h" and "sh_allocations h a = Some l"
  obtains p where "ptr_offset h (SymPtr a) = Some p"
    and "sp_allocs (heap_abs h) p = Some (unat l)"
proof -
  from assms obtain p where p: "ptr_offset h (SymPtr a) = Some p"
    unfolding heap_inv_def by blast
  with assms heap_abs_allocs [OF heap_invD(1) p] have "sp_allocs (heap_abs h) p = Some (unat l)"
    by simp
  with p that show ?thesis by blast
qed

lemma free_block_bounds:
  assumes "heap_inv h" and "b \<in> set (sh_free h)"
  shows "0 < unat (blk_len b)" and "unat (blk_start b) + unat (blk_len b) \<le> heap_cap h"
proof -
  have mem: "run_of b \<in> set (free_runs h)" using assms(2) by (simp add: free_runs_def)
  then show pos: "0 < unat (blk_len b)"
    using heap_invD(3) [OF assms(1)] unfolding runs_def by fastforce
  have "unat (blk_start b) + unat (blk_len b) - 1 \<in> run_bytes (run_of b)"
    using pos by (auto simp: run_bytes_def)
  then have "unat (blk_start b) + unat (blk_len b) - 1 \<in> covers (free_runs h)"
    using mem unfolding covers_def by blast
  then have "unat (blk_start b) + unat (blk_len b) - 1 < heap_cap h"
    by (simp only: heap_invD(5) [OF assms(1)]) (simp add: spec_free_bytes_def)
  with pos show "unat (blk_start b) + unat (blk_len b) \<le> heap_cap h" by linarith
qed

lemma isize_max_bound: "isize_max < 2 ^ 63"
  by (simp add: isize_max_def)

lemma heap_capacity_Ok:
  assumes "region_ok h"
  shows "heap_capacity h = Ok (of_nat (heap_cap h))" and "unat (of_nat (heap_cap h) :: usize) = heap_cap h"
proof -
  have cap: "heap_cap h < 2 ^ 64"
    using assms by (simp add: region_ok_def)
  then have n: "unat (of_nat (length (sh_region h)) :: usize) = length (sh_region h)"
    by (intro unat_of_nat_len) (simp add: heap_cap_def)
  from cap show c: "unat (of_nat (heap_cap h) :: usize) = heap_cap h"
    by (intro unat_of_nat_len) simp
  from n c show "heap_capacity h = Ok (of_nat (heap_cap h))"
    unfolding heap_capacity_def SIZEOF_U64_def mul_op_eq_Ok by (simp add: heap_cap_def)
qed

section \<open>Allocation refines the abstract allocator\<close>

lemma round_up8_bounds: "0 < n \<Longrightarrow> 0 < round_up8 n" "n \<le> round_up8 n" "8 dvd round_up8 n"
  unfolding round_up8_def by (simp_all add: div_greater_zero_iff)

lemma round_request_Ok:
  "round_request sz = Ok r \<longleftrightarrow> unat sz + 7 < 2 ^ 64 \<and> unat r = round_up8 (unat sz)"
proof -
  have seven: "ALIGNMENT - 1 = (7 :: usize)" by (simp add: ALIGNMENT_def)
  show ?thesis
  proof (cases "unat sz + 7 < 2 ^ 64")
    case True
    then have s: "unat (sz + 7) = unat sz + 7"
      by (simp add: unat_word_ariths)
    then have "checked_add sz 7 = Some (sz + 7)" by simp
    then have "round_request sz = Ok ((sz + 7) AND NOT 7)"
      by (simp only: round_request_def seven ok_or.simps outcome_bind.simps)
    moreover have "unat ((sz + 7) AND NOT 7) = round_up8 (unat sz)"
      by (simp only: unat_and_not_7 s round_up8_def)
    ultimately show ?thesis using True by (auto simp: word_unat_eq_iff)
  next
    case False
    then have "checked_add sz (7 :: usize) = None" by simp
    then have "round_request sz = Err (Usage ''symmetric allocation size overflow'')"
      by (simp only: round_request_def seven ok_or.simps outcome_bind.simps)
    with False show ?thesis by simp
  qed
qed

lemma round_request_total:
  assumes "unat sz + 7 < 2 ^ 64"
  obtains r where "round_request sz = Ok r" and "unat r = round_up8 (unat sz)"
proof -
  have "round_up8 (unat sz) \<le> unat sz + 7" by (simp add: round_up8_def)
  with assms have "unat (of_nat (round_up8 (unat sz)) :: usize) = round_up8 (unat sz)"
    by (intro unat_of_nat_len) simp
  with that [of "of_nat (round_up8 (unat sz))"] assms show ?thesis
    unfolding round_request_Ok by blast
qed

lemma round_request_fail:
  assumes "2 ^ 64 \<le> unat sz + 7"
  shows "round_request sz = Err (Usage ''symmetric allocation size overflow'')"
proof -
  have "checked_add sz (ALIGNMENT - 1) = None" using assms by (simp add: ALIGNMENT_def)
  then show ?thesis by (simp only: round_request_def ok_or.simps outcome_bind.simps)
qed

lemma take_block_Ok:
  assumes "i < length bs" and "r \<le> blk_len (bs ! i)"
    and "unat (blk_start (bs ! i)) + unat (blk_len (bs ! i)) < 2 ^ 64"
  obtains bs' where "take_block bs i r = Ok bs'"
    and "map run_of bs' =
      map run_of (take i bs) @ carve (run_of (bs ! i)) (unat r) @ map run_of (drop (Suc i) bs)"
proof (cases "blk_len (bs ! i) = r")
  case True
  with that show ?thesis by (simp add: take_block_def carve_def)
next
  case False
  let ?b = "bs ! i"
  have ar: "add_op (blk_start ?b) r = Ok (blk_start ?b + r)"
    using assms(2,3) by (intro add_op_Ok) (simp add: word_le_nat_alt)
  have sr: "sub_op (blk_len ?b) r = Ok (blk_len ?b - r)"
    using assms(2) by (simp add: unat_sub word_le_nat_alt)
  have u: "unat (blk_start ?b + r) = unat (blk_start ?b) + unat r"
    "unat (blk_len ?b - r) = unat (blk_len ?b) - unat r"
    using ar sr by (simp_all only: add_op_eq_Ok sub_op_eq_Ok)
  have "take_block bs i r = Ok (bs[i := \<lparr>blk_start = blk_start ?b + r, blk_len = blk_len ?b - r\<rparr>])"
    using False by (simp only: take_block_def Let_def ar sr outcome_bind.simps if_False)
  moreover have "map run_of (bs[i := \<lparr>blk_start = blk_start ?b + r, blk_len = blk_len ?b - r\<rparr>]) =
      map run_of (take i bs) @ carve (run_of ?b) (unat r) @ map run_of (drop (Suc i) bs)"
    using assms(1) False u
    by (simp add: upd_conv_take_nth_drop carve_def run_of_def word_unat_eq_iff)
  ultimately show ?thesis by (rule that)
qed

lemma free_list_split:
  assumes "position (\<lambda>b. r \<le> blk_len b) (sh_free h) = Some i"
  shows "free_runs h =
      map run_of (take i (sh_free h)) @ run_of (sh_free h ! i) # map run_of (drop (Suc i) (sh_free h))"
    and "\<forall>c \<in> set (map run_of (take i (sh_free h))). snd c < unat r"
    and "i < length (sh_free h)" and "r \<le> blk_len (sh_free h ! i)"
proof -
  note pos = position_SomeD [OF assms]
  then show i: "i < length (sh_free h)" and "r \<le> blk_len (sh_free h ! i)" by auto
  have "sh_free h = take i (sh_free h) @ sh_free h ! i # drop (Suc i) (sh_free h)"
    using i by (rule id_take_nth_drop)
  then show "free_runs h =
      map run_of (take i (sh_free h)) @ run_of (sh_free h ! i) # map run_of (drop (Suc i) (sh_free h))"
    unfolding free_runs_def by (metis list.simps(9) map_append)
  show "\<forall>c \<in> set (map run_of (take i (sh_free h))). snd c < unat r"
    using pos by (auto simp: in_set_conv_nth word_le_nat_alt not_le)
qed

lemma runs8_carve:
  "runs8 (xs @ b # ys) \<Longrightarrow> 8 dvd r \<Longrightarrow> runs8 (xs @ carve b r @ ys)"
  by (simp add: carve_def dvd_diff_nat)

text \<open>The successful branch.\<close>

lemma heap_malloc_found:
  assumes inv: "heap_inv h" and sz: "sz \<noteq> 0" and r: "round_request sz = Ok r"
    and pos: "position (\<lambda>b. r \<le> blk_len b) (sh_free h) = Some i"
  obtains h' where
    "heap_malloc h sz = (Ok (SymPtr (addr_at h (unat (blk_start (sh_free h ! i))))), h')"
    and "heap_inv h'"
    and "fits (spec_free_bytes (heap_abs h)) (unat r) (unat (blk_start (sh_free h ! i)))"
    and "(LEAST p. fits (spec_free_bytes (heap_abs h)) (unat r) p) = unat (blk_start (sh_free h ! i))"
    and "heap_abs h' = heap_abs h\<lparr>sp_allocs :=
           (sp_allocs (heap_abs h))(unat (blk_start (sh_free h ! i)) \<mapsto> unat r)\<rparr>"
    and "\<exists>bs. h' = h\<lparr>sh_free := bs, sh_allocations :=
           (sh_allocations h)(addr_at h (unat (blk_start (sh_free h ! i))) \<mapsto> r)\<rparr>"
proof -
  let ?b = "sh_free h ! i" and ?xs = "map run_of (take i (sh_free h))"
    and ?ys = "map run_of (drop (Suc i) (sh_free h))"
  let ?p = "unat (blk_start ?b)"
  note ok = heap_invD(1) [OF inv] and wf = heap_invD(2) [OF inv] and split = free_list_split [OF pos]
  have rr: "0 < unat r" "8 dvd unat r"
    using r sz round_up8_bounds [of "unat sz"] by (auto simp: round_request_Ok unat_gt_0)
  have len: "unat r \<le> snd (run_of ?b)" using split(4) by (simp add: word_le_nat_alt)
  have cap: "?p + unat (blk_len ?b) \<le> heap_cap h"
    using free_block_bounds(2) [OF inv] split(3) by simp
  have p_lt: "?p < heap_cap h" using cap len rr(1) by simp
  have runs: "runs (?xs @ run_of ?b # ?ys)" using heap_invD(3) [OF inv] split(1) by simp
  have F: "spec_free_bytes (heap_abs h) = covers (?xs @ run_of ?b # ?ys)"
    using heap_invD(5) [OF inv] split(1) by simp
  have p8: "8 dvd ?p" using heap_invD(4) [OF inv] split(1) by simp
  have fit: "fits (spec_free_bytes (heap_abs h)) (unat r) ?p"
    and least: "(LEAST p. fits (spec_free_bytes (heap_abs h)) (unat r) p) = ?p"
    using first_fit_least [OF runs len rr(1) split(2)] by (simp_all add: F)
  have "unat (addr_at h ?p) = heap_base h + ?p" by (rule addr_at_unat [OF ok p_lt])
  then have add: "add_op (sh_local_base h) (blk_start ?b) = Ok (addr_at h ?p)"
    by (simp add: heap_base_def)
  have "?p + unat (blk_len ?b) < 2 ^ 64" using cap ok by (simp add: region_ok_def)
  then obtain bs where bs: "take_block (sh_free h) i r = Ok bs"
      "map run_of bs = ?xs @ carve (run_of ?b) (unat r) @ ?ys"
    using take_block_Ok [OF split(3,4)] by blast
  define h' where "h' = h\<lparr>sh_free := bs, sh_allocations := (sh_allocations h)(addr_at h ?p \<mapsto> r)\<rparr>"
  have off: "ptr_offset h (SymPtr (addr_at h ?p)) = Some ?p"
    using addr_at_unat [OF ok p_lt] p_lt by simp
  have abs: "heap_abs h' = heap_abs h\<lparr>sp_allocs := (sp_allocs (heap_abs h))(?p \<mapsto> unat r)\<rparr>"
    unfolding h'_def using heap_abs_alloc_upd [OF ok off, where bs = bs and v = "Some r"] by (simp only: option.map)
  have none: "sp_allocs (heap_abs h) ?p = None" by (rule fits_fresh [OF wf fit rr(1)])
  have inv': "heap_inv h'"
    unfolding heap_inv_def
  proof (intro conjI)
    show "region_ok h'" using ok by (simp add: h'_def)
    show "\<forall>a \<in> dom (sh_allocations h'). ptr_offset h' (SymPtr a) \<noteq> None"
      using inv off by (auto simp: h'_def heap_inv_def)
    show "spec_wf (heap_abs h')"
      unfolding abs by (rule spec_wf_alloc [OF wf fit rr p8])
    show "runs (free_runs h')"
      using carve_runs(1) [OF runs len rr(1)] bs(2) by (simp add: h'_def)
    show "runs8 (free_runs h')"
      using runs8_carve [of ?xs "run_of ?b" ?ys "unat r"] heap_invD(4) [OF inv] split(1) rr(2) bs(2)
      by (simp add: h'_def)
    have "covers (free_runs h') = covers (?xs @ run_of ?b # ?ys) - {?p..<?p + unat r}"
      using carve_runs(2) [OF runs len rr(1)] bs(2) by (simp add: h'_def)
    also have "\<dots> = spec_free_bytes (heap_abs h')"
      unfolding F [symmetric] abs spec_free_bytes_def by (auto simp: occupied_upd [of "sp_allocs (heap_abs h)", OF none])
    finally show "covers (free_runs h') = spec_free_bytes (heap_abs h')" .
  qed
  have "heap_malloc h sz = (Ok (SymPtr (addr_at h ?p)), h')"
    using sz by (simp only: heap_malloc_def h'_def if_False outcome.case option.case r pos add bs(1))
  then show ?thesis
    using inv' fit least abs h'_def that by blast
qed

text \<open>Every branch at once: the result's offset and the abstract state are the
  specification's.\<close>

definition offset_result :: "symheap \<Rightarrow> symptr result \<Rightarrow> nat result" where
  "offset_result h r = outcome_bind r (\<lambda>p. Ok (unat (sp_addr p) - heap_base h))"

lemma offset_result_simps [simp]:
  "offset_result h (Ok p) = Ok (unat (sp_addr p) - heap_base h)"
  "offset_result h (Err e) = Err e"
  "offset_result h Panic = Panic"
  by (simp_all add: offset_result_def)

lemma heap_malloc_none:
  assumes inv: "heap_inv h" and sz: "sz \<noteq> 0" and r: "round_request sz = Ok r"
    and pos: "position (\<lambda>b. r \<le> blk_len b) (sh_free h) = None"
  shows "heap_malloc h sz = (Err (Usage ''symmetric heap exhausted''), h)"
    and "\<not> fits (spec_free_bytes (heap_abs h)) (unat r) p"
proof -
  show "heap_malloc h sz = (Err (Usage ''symmetric heap exhausted''), h)"
    using sz by (simp only: heap_malloc_def if_False outcome.case option.case r pos)
  have "0 < unat r"
    using r sz round_up8_bounds(1) [of "unat sz"] by (auto simp: round_request_Ok unat_gt_0)
  moreover have "\<forall>b \<in> set (free_runs h). snd b < unat r"
    using pos by (auto simp: free_runs_def word_le_nat_alt not_le)
  ultimately show "\<not> fits (spec_free_bytes (heap_abs h)) (unat r) p"
    using no_fit [OF heap_invD(3) [OF inv]] heap_invD(5) [OF inv] by metis
qed

text \<open>The four branches of an allocation under the invariant.\<close>

lemma heap_malloc_branches:
  assumes inv: "heap_inv h"
  obtains
    (zero) "sz = 0"
      "heap_malloc h sz = (Err (Usage ''symmetric allocation size must be nonzero''), h)"
  | (overflow) "sz \<noteq> 0" "2 ^ 64 \<le> unat sz + 7"
      "heap_malloc h sz = (Err (Usage ''symmetric allocation size overflow''), h)"
  | (exhausted) "sz \<noteq> 0" "unat sz + 7 < 2 ^ 64"
      "heap_malloc h sz = (Err (Usage ''symmetric heap exhausted''), h)"
      "\<forall>p. \<not> fits (spec_free_bytes (heap_abs h)) (round_up8 (unat sz)) p"
  | (found) p bs r where "sz \<noteq> 0" "unat sz + 7 < 2 ^ 64"
      "heap_malloc h sz = (Ok (SymPtr (addr_at h p)),
         h\<lparr>sh_free := bs, sh_allocations := (sh_allocations h)(addr_at h p \<mapsto> r)\<rparr>)"
      "unat r = round_up8 (unat sz)"
      "heap_inv (h\<lparr>sh_free := bs, sh_allocations := (sh_allocations h)(addr_at h p \<mapsto> r)\<rparr>)"
      "fits (spec_free_bytes (heap_abs h)) (round_up8 (unat sz)) p"
      "(LEAST q. fits (spec_free_bytes (heap_abs h)) (round_up8 (unat sz)) q) = p"
      "heap_abs (h\<lparr>sh_free := bs, sh_allocations := (sh_allocations h)(addr_at h p \<mapsto> r)\<rparr>) =
         heap_abs h\<lparr>sp_allocs := (sp_allocs (heap_abs h))(p \<mapsto> round_up8 (unat sz))\<rparr>"
proof (cases "sz = 0")
  case True
  then show ?thesis by (intro zero) (simp_all add: heap_malloc_def)
next
  case nz: False
  show ?thesis
  proof (cases "2 ^ 64 \<le> unat sz + 7")
    case True
    then show ?thesis
      using nz by (intro overflow) (simp_all add: heap_malloc_def round_request_fail)
  next
    case False
    then have lt: "unat sz + 7 < 2 ^ 64" by simp
    then obtain r where r: "round_request sz = Ok r" "unat r = round_up8 (unat sz)"
      by (rule round_request_total)
    show ?thesis
    proof (cases "position (\<lambda>b. r \<le> blk_len b) (sh_free h)")
      case None
      show ?thesis
        by (rule exhausted [OF nz lt])
          (use heap_malloc_none [OF inv nz r(1) None] r(2) in simp_all)
    next
      case (Some i)
      show ?thesis
      proof (rule heap_malloc_found [OF inv nz r(1) Some], elim exE)
        fix h' bs
        assume *: "heap_malloc h sz = (Ok (SymPtr (addr_at h (unat (blk_start (sh_free h ! i))))), h')"
          and inv': "heap_inv h'"
          and fit: "fits (spec_free_bytes (heap_abs h)) (unat r) (unat (blk_start (sh_free h ! i)))"
          and least: "(LEAST p. fits (spec_free_bytes (heap_abs h)) (unat r) p) =
            unat (blk_start (sh_free h ! i))"
          and abs: "heap_abs h' = heap_abs h\<lparr>sp_allocs :=
            (sp_allocs (heap_abs h))(unat (blk_start (sh_free h ! i)) \<mapsto> unat r)\<rparr>"
          and h': "h' = h\<lparr>sh_free := bs, sh_allocations :=
            (sh_allocations h)(addr_at h (unat (blk_start (sh_free h ! i))) \<mapsto> r)\<rparr>"
        show ?thesis
          by (rule found [OF nz lt *[unfolded h'] r(2) inv'[unfolded h'] fit[unfolded r(2)]
                least[unfolded r(2)] abs[unfolded h' r(2)]])
      qed
    qed
  qed
qed

lemma heap_malloc_inv:
  assumes "heap_inv h"
  shows "heap_inv (snd (heap_malloc h sz))"
  using assms by (cases rule: heap_malloc_branches [OF assms, of sz]) simp_all

lemma heap_malloc_no_panic:
  assumes "heap_inv h"
  shows "fst (heap_malloc h sz) \<noteq> Panic"
  by (cases rule: heap_malloc_branches [OF assms, of sz]) simp_all

lemma heap_malloc_spec:
  assumes "heap_inv h"
  shows "spec_malloc (heap_abs h) (unat sz) =
    (offset_result h (fst (heap_malloc h sz)), heap_abs (snd (heap_malloc h sz)))"
proof (cases rule: heap_malloc_branches [OF assms, of sz, case_names zero overflow exhausted found])
  case (found p bs r)
  have "p < heap_cap h"
    using fits_in_cap [OF found(6)] found(1) by (simp add: round_up8_bounds unat_gt_0)
  then have "unat (addr_at h p) - heap_base h = p"
    using addr_at_unat [OF heap_invD(1) [OF assms]] by simp
  moreover have "\<exists>p. fits (spec_free_bytes (heap_abs h)) (round_up8 (unat sz)) p"
    using found(6) by blast
  ultimately show ?thesis
    using found by (simp add: spec_malloc_def Let_def unat_eq_0)
qed (auto simp: spec_malloc_def Let_def unat_eq_0)

section \<open>Deallocation refines the abstract allocator\<close>

text \<open>The merging loop computes the reference function \<open>coalesce\<close>; no sum overflows because a
  merged block ends where the block it took in ended.\<close>

lemma merge_blocks_coalesce:
  assumes "\<forall>c \<in> set (b # bs). unat (blk_start c) + unat (blk_len c) < 2 ^ 64"
  shows "\<exists>ms. merge_blocks (acc @ [b]) bs = Ok (acc @ ms) \<and>
           map run_of ms = coalesce (map run_of (b # bs))"
  using assms
proof (induction bs arbitrary: acc b)
  case Nil
  then show ?case by simp
next
  case (Cons c bs)
  let ?e = "blk_start b + blk_len b"
  have e: "add_op (blk_start b) (blk_len b) = Ok ?e"
    using Cons.prems by (intro add_op_Ok) simp
  then have ue: "unat ?e = unat (blk_start b) + unat (blk_len b)" by (simp only: add_op_eq_Ok)
  show ?case
  proof (cases "?e = blk_start c")
    case False
    then have gap: "unat (blk_start b) + unat (blk_len b) \<noteq> unat (blk_start c)"
      using ue by (metis word_unat_eq_iff)
    obtain ms where ms: "merge_blocks ((acc @ [b]) @ [c]) bs = Ok ((acc @ [b]) @ ms)"
        "map run_of ms = coalesce (map run_of (c # bs))"
      using Cons.IH [of c "acc @ [b]"] Cons.prems by auto
    have "merge_blocks (acc @ [b]) (c # bs) = Ok (acc @ b # ms)"
      using False ms(1) by (simp add: Let_def e del: add_op_eq_Ok)
    with ms(2) gap show ?thesis by (intro exI [of _ "b # ms"]) simp
  next
    case True
    let ?b = "b\<lparr>blk_len := blk_len b + blk_len c\<rparr>"
    have len: "add_op (blk_len b) (blk_len c) = Ok (blk_len b + blk_len c)"
      using Cons.prems ue True by (intro add_op_Ok) auto
    then have ul: "unat (blk_len b + blk_len c) = unat (blk_len b) + unat (blk_len c)"
      by (simp only: add_op_eq_Ok)
    have "\<forall>d \<in> set (?b # bs). unat (blk_start d) + unat (blk_len d) < 2 ^ 64"
      using Cons.prems ue ul True by auto
    then obtain ms where ms: "merge_blocks (acc @ [?b]) bs = Ok (acc @ ms)"
        "map run_of ms = coalesce (map run_of (?b # bs))"
      using Cons.IH [of ?b acc] by blast
    have "merge_blocks (acc @ [b]) (c # bs) = Ok (acc @ ms)"
      using True ms(1) by (simp add: Let_def e len del: add_op_eq_Ok)
    moreover have "coalesce (map run_of (b # c # bs)) = coalesce (map run_of (?b # bs))"
      using True ue ul by (simp add: run_of_def)
    ultimately show ?thesis using ms(2) by (intro exI [of _ ms]) simp
  qed
qed

corollary merge_blocks_all:
  assumes "\<forall>c \<in> set bs. unat (blk_start c) + unat (blk_len c) < 2 ^ 64"
  obtains ms where "merge_blocks [] bs = Ok ms" and "map run_of ms = coalesce (map run_of bs)"
proof (cases bs)
  case Nil
  with that show ?thesis by simp
next
  case (Cons b cs)
  with assms merge_blocks_coalesce [of b cs "[]"] that show ?thesis by auto
qed

text \<open>The sorted free list with the returned block: ascending, with the same bytes.\<close>

lemma sorted_insert_ascending:
  assumes rs: "runs (map run_of bs)" and len: "0 < unat (blk_len b)"
    and disj: "run_bytes (run_of b) \<inter> covers (map run_of bs) = {}"
  shows "ascending (map run_of (sort_key blk_start (bs @ [b])))"
    and "covers (map run_of (sort_key blk_start (bs @ [b]))) =
      covers (map run_of bs) \<union> run_bytes (run_of b)"
proof -
  let ?cs = "sort_key blk_start (bs @ [b])"
  have set: "set ?cs = insert b (set bs)" by simp
  show "covers (map run_of ?cs) = covers (map run_of bs) \<union> run_bytes (run_of b)"
    by (auto simp: covers_def)
  have other: "run_bytes (run_of b) \<inter> run_bytes (run_of c) = {}" if "c \<in> set bs" for c
    using that disj by (auto simp: covers_def)
  have nonempty: "run_bytes (run_of b) \<noteq> {}" using len by (simp add: run_bytes_def)
  then have new: "b \<notin> set bs" using other by blast
  have "distinct (map run_of bs)" using rs by (rule runs_distinct)
  then have "distinct (bs @ [b])" using new by (simp add: distinct_map)
  then have dist: "distinct (map run_of ?cs)"
    by (simp add: distinct_map inj_on_def del: sort_key_simps)
  show "ascending (map run_of ?cs)"
  proof (rule sorted_disjoint_ascending [OF _ _ dist])
    have "sorted (map blk_start ?cs)" by (rule sorted_sort_key)
    then show "sorted (map fst (map run_of ?cs))"
      by (simp add: sorted_map sorted_wrt_map comp_def word_le_nat_alt del: sort_key_simps)
    show "\<forall>c \<in> set (map run_of ?cs). 0 < snd c"
      using rs len by (auto simp: runs_def)
    show "\<forall>c \<in> set (map run_of ?cs). \<forall>d \<in> set (map run_of ?cs).
        c \<noteq> d \<longrightarrow> run_bytes c \<inter> run_bytes d = {}"
      using other runs_disjoint [OF rs] by (auto simp: Int_commute)
  qed
qed

lemma heap_free_live:
  assumes inv: "heap_inv h" and live: "sh_allocations h a = Some l"
    and off: "ptr_offset h (SymPtr a) = Some p"
  obtains bs where
    "heap_free h (SymPtr a) =
       (Ok (), h\<lparr>sh_free := bs, sh_allocations := (sh_allocations h)(a := None)\<rparr>)"
    and "heap_inv (h\<lparr>sh_free := bs, sh_allocations := (sh_allocations h)(a := None)\<rparr>)"
    and "heap_abs (h\<lparr>sh_free := bs, sh_allocations := (sh_allocations h)(a := None)\<rparr>) =
       heap_abs h\<lparr>sp_allocs := (sp_allocs (heap_abs h))(p := None)\<rparr>"
proof -
  note ok = heap_invD(1) [OF inv] and wf = heap_invD(2) [OF inv]
  let ?start = "a - sh_local_base h"
  let ?blk = "\<lparr>blk_start = ?start, blk_len = l\<rparr>"
  have ua: "unat a = heap_base h + p" using off by simp
  have sp: "sp_allocs (heap_abs h) p = Some (unat l)"
    using heap_abs_allocs [OF ok off] live by simp
  note al = spec_wfD [OF wf sp]
  have us: "unat ?start = p"
    using ua by (simp add: unat_sub word_le_nat_alt heap_base_def)
  have sub: "checked_sub a (sh_local_base h) = Some ?start"
    using ua us by (simp add: heap_base_def)
  have cap: "heap_cap h < 2 ^ 64" using ok by (simp add: region_ok_def)
  have bounds: "p + unat l \<le> heap_cap h" using al(4) by simp
  have add: "checked_add ?start l = Some (?start + l)"
    and uend: "unat (?start + l) = p + unat l"
    using us bounds cap by (simp_all add: unat_word_ariths)
  have "?start mod ALIGNMENT = 0"
    using al(3) us by (simp add: ALIGNMENT_def unat_mod_distrib word_unat_eq_iff dvd_eq_mod_eq_0)
  then have inside: "block_in_region (h\<lparr>sh_allocations := m\<rparr>) ?start l = Ok True" for m
  proof -
    have "heap_capacity (h\<lparr>sh_allocations := m\<rparr>) = Ok (of_nat (heap_cap h))"
      using heap_capacity_Ok(1) [OF ok] by (simp add: heap_capacity_def)
    moreover have "?start + l \<le> of_nat (heap_cap h)"
      using uend bounds heap_capacity_Ok(2) [OF ok] by (simp add: word_le_nat_alt)
    ultimately show ?thesis
      using add \<open>?start mod ALIGNMENT = 0\<close>
      by (simp only: block_in_region_def option.case outcome_bind.simps simp_thms)
  qed
  have run: "run_of ?blk = (p, unat l)" using us by (simp add: run_of_def)
  have owned: "run_bytes (p, unat l) \<subseteq> occupied (sp_allocs (heap_abs h))"
    using sp by (auto simp: run_bytes_def intro: occupiedI)
  have fr: "covers (map run_of (sh_free h)) = spec_free_bytes (heap_abs h)"
    and rs: "runs (map run_of (sh_free h))" and r8: "runs8 (map run_of (sh_free h))"
    using heap_invD(3-5) [OF inv] by (simp_all add: free_runs_def)
  have disj: "run_bytes (run_of ?blk) \<inter> covers (map run_of (sh_free h)) = {}"
    using owned by (auto simp: fr run spec_free_bytes_def)
  let ?cs = "sort_key blk_start (sh_free h @ [?blk])"
  have "0 < unat (blk_len ?blk)" using al(1) by simp
  note asc = sorted_insert_ascending [OF rs this disj]
  have "\<forall>c \<in> set ?cs. unat (blk_start c) + unat (blk_len c) < 2 ^ 64"
    using free_block_bounds(2) [OF inv] bounds cap us by force
  then obtain ms where ms: "merge_blocks [] ?cs = Ok ms"
      "map run_of ms = coalesce (map run_of ?cs)"
    by (rule merge_blocks_all)
  let ?h' = "h\<lparr>sh_free := ms, sh_allocations := (sh_allocations h)(a := None)\<rparr>"
  have abs: "heap_abs ?h' = heap_abs h\<lparr>sp_allocs := (sp_allocs (heap_abs h))(p := None)\<rparr>"
    using heap_abs_alloc_upd [OF ok off, where v = None and bs = ms] by simp
  have inv': "heap_inv ?h'"
    unfolding heap_inv_def
  proof (intro conjI)
    show "region_ok ?h'" using ok by simp
    show "\<forall>b \<in> dom (sh_allocations ?h'). ptr_offset ?h' (SymPtr b) \<noteq> None"
      using inv by (auto simp: heap_inv_def split: if_splits)
    show "spec_wf (heap_abs ?h')"
      unfolding abs using wf by (auto simp: spec_wf_def split: if_splits)
    show "runs (free_runs ?h')" using coalesce_runs [OF asc(1)] ms(2) by simp
    have "runs8 (map run_of ?cs)" using r8 al(2,3) run by (auto simp: runs8_def)
    then show "runs8 (free_runs ?h')" using coalesce_runs8 ms(2) by simp
    have "covers (free_runs ?h') = spec_free_bytes (heap_abs h) \<union> run_bytes (p, unat l)"
      using ms(2) asc(2) fr run by (simp add: coalesce_covers)
    also have "\<dots> = spec_free_bytes (heap_abs ?h')"
      unfolding abs spec_free_bytes_def using owned bounds
      by (auto simp: occupied_delete [OF wf sp] run_bytes_def)
    finally show "covers (free_runs ?h') = spec_free_bytes (heap_abs ?h')" .
  qed
  have "heap_free h (SymPtr a) = (Ok (), ?h')"
    by (simp add: heap_free.simps live sub inside ms(1) Let_def del: checked_sub_eq_Some)
  then show ?thesis using inv' abs that by blast
qed

lemma heap_free_branches:
  assumes inv: "heap_inv h"
  obtains
    (dead) "sh_allocations h a = None"
      "heap_free h (SymPtr a) = (Err (Usage ''invalid symmetric pointer''), h)"
  | (live) p bs l where "sh_allocations h a = Some l" "ptr_offset h (SymPtr a) = Some p"
      "sp_allocs (heap_abs h) p = Some (unat l)"
      "heap_free h (SymPtr a) =
         (Ok (), h\<lparr>sh_free := bs, sh_allocations := (sh_allocations h)(a := None)\<rparr>)"
      "heap_inv (h\<lparr>sh_free := bs, sh_allocations := (sh_allocations h)(a := None)\<rparr>)"
      "heap_abs (h\<lparr>sh_free := bs, sh_allocations := (sh_allocations h)(a := None)\<rparr>) =
         heap_abs h\<lparr>sp_allocs := (sp_allocs (heap_abs h))(p := None)\<rparr>"
proof (cases "sh_allocations h a")
  case None
  then show ?thesis by (intro dead) (simp_all add: heap_free.simps)
next
  case (Some l)
  from heap_inv_keys [OF inv Some] obtain p where
    p: "ptr_offset h (SymPtr a) = Some p" "sp_allocs (heap_abs h) p = Some (unat l)" by blast
  show ?thesis
    by (rule heap_free_live [OF inv Some p(1)]) (use live [OF Some p] in blast)
qed

lemma heap_free_inv: "heap_inv h \<Longrightarrow> heap_inv (snd (heap_free h p))"
  by (rule heap_free_branches [of h "sp_addr p"]) (simp_all only: symptr.collapse snd_conv)

lemma heap_free_no_panic: "heap_inv h \<Longrightarrow> fst (heap_free h p) \<noteq> Panic"
  by (rule heap_free_branches [of h "sp_addr p"]) simp_all

lemma heap_free_spec:
  assumes inv: "heap_inv h"
  shows "spec_free (heap_abs h) (ptr_offset h p) =
    (fst (heap_free h p), heap_abs (snd (heap_free h p)))"
proof (cases p)
  case (SymPtr a)
  show ?thesis
  proof (cases rule: heap_free_branches [OF inv, of a, case_names dead live])
    case dead
    have "spec_free (heap_abs h) (ptr_offset h (SymPtr a)) =
      (Err (Usage ''invalid symmetric pointer''), heap_abs h)"
    proof (cases "ptr_offset h (SymPtr a)")
      case (Some q)
      with heap_abs_allocs [OF heap_invD(1) [OF inv] Some] dead(1) show ?thesis
        by (simp only: spec_free_def option.case option.map)
    qed (simp add: spec_free_def)
    with dead(2) SymPtr show ?thesis by simp
  next
    case (live q bs l)
    have "spec_free (heap_abs h) (Some q) =
      (Ok (), heap_abs h\<lparr>sp_allocs := (sp_allocs (heap_abs h))(q := None)\<rparr>)"
      by (simp add: spec_free_def live(3))
    with live(2,4,6) SymPtr show ?thesis by (simp only: fst_conv snd_conv)
  qed
qed

section \<open>The free list is canonical\<close>

text \<open>Two heaps over the same region with the same live allocations have the same free list.\<close>

lemma heap_inv_canonical:
  assumes "heap_inv h" and "heap_inv h'" and "heap_abs h = heap_abs h'"
  shows "sh_free h = sh_free h'"
proof -
  have "free_runs h = free_runs h'"
    using assms by (intro runs_unique) (simp_all add: heap_invD)
  then show ?thesis by (simp add: free_runs_def)
qed

lemma heap_malloc_free_restores:
  assumes inv: "heap_inv h" and "heap_malloc h sz = (Ok p, h')"
  shows "heap_free h' p = (Ok (), h)"
proof (cases rule: heap_malloc_branches [OF inv, of sz, case_names zero overflow exhausted found])
  case (found q bs r)
  let ?a = "addr_at h q"
  have p: "p = SymPtr ?a"
    and h': "h' = h\<lparr>sh_free := bs, sh_allocations := (sh_allocations h)(?a \<mapsto> r)\<rparr>"
    using found(3) assms(2) by auto
  have inv': "heap_inv h'" using found(5) h' by simp
  have pos: "0 < round_up8 (unat sz)" using found(1) by (simp add: round_up8_bounds unat_gt_0)
  have fresh: "sp_allocs (heap_abs h) q = None"
    by (rule fits_fresh [OF heap_invD(2) [OF inv] found(6) pos])
  show ?thesis
  proof (cases rule: heap_free_branches [OF inv', of ?a, case_names dead live])
    case dead
    then show ?thesis using h' by simp
  next
    case (live u bs' l)
    let ?h = "h'\<lparr>sh_free := bs', sh_allocations := (sh_allocations h')(?a := None)\<rparr>"
    have off: "ptr_offset h (SymPtr ?a) = Some u" using live(2) h' by simp
    have "u = q"
    proof -
      have "unat ?a = heap_base h + u" using off by simp
      moreover have "q < heap_cap h" using fits_in_cap [OF found(6) pos] by simp
      ultimately show ?thesis
        using addr_at_unat [OF heap_invD(1) [OF inv], of q] by simp
    qed
    have "sh_allocations h ?a = None"
      using heap_abs_allocs [OF heap_invD(1) [OF inv] off] fresh \<open>u = q\<close> by simp
    then have tab: "(sh_allocations h')(?a := None) = sh_allocations h"
      using h' by (auto simp: fun_eq_iff)
    have "heap_abs ?h = heap_abs h"
      using live(6) found(8) h' \<open>u = q\<close> fresh by (simp add: fun_upd_idem)
    then have "bs' = sh_free h"
      using heap_inv_canonical [OF live(5) inv] by simp
    then have "?h = h" using tab h' by simp
    with live(4) p show ?thesis by simp
  qed
qed (use assms(2) in simp_all)

text \<open>Once every allocation is returned, the free list is the whole region again: no leak.\<close>

lemma heap_drained:
  assumes inv: "heap_inv h" and "sh_allocations h = Map.empty" and "0 < heap_cap h"
  shows "sh_free h = [\<lparr>blk_start = 0, blk_len = of_nat (heap_cap h)\<rparr>]"
proof -
  have u: "unat (of_nat (heap_cap h) :: usize) = heap_cap h"
    by (rule heap_capacity_Ok(2) [OF heap_invD(1) [OF inv]])
  have "occupied (sp_allocs (heap_abs h)) = {}"
    using assms(2) by (auto simp: occupied_def heap_abs_def split: if_splits)
  then have "covers (free_runs h) = covers [(0, heap_cap h)]"
    using heap_invD(5) [OF inv] by (auto simp: spec_free_bytes_def run_bytes_def)
  then have "free_runs h = [(0, heap_cap h)]"
    using assms(3) by (intro runs_unique [OF heap_invD(3) [OF inv]]) simp_all
  then have "map run_of (sh_free h) = map run_of [\<lparr>blk_start = 0, blk_len = of_nat (heap_cap h)\<rparr>]"
    by (simp add: free_runs_def run_of_def u)
  then show ?thesis by (simp only: map_run_of_eq)
qed

end
