(* ===== verification/SymHeap_Props.thy ===== *)
theory SymHeap_Props
  imports SymHeap_Refine
begin

text \<open>
  What the symmetric heap promises its clients: construction establishes the invariant, the
  heap and the mutex-protected handle interpret the allocator contract, and heaps of
  different processing elements that run the same calls stay symmetric, so that address
  translation maps a pointer of one to the pointer of the other.
\<close>

section \<open>Construction\<close>

text \<open>What Rust documents of an allocation: not null, aligned, and its last byte's
  successor is still an address.\<close>

definition alloc_contract :: "'x bindings \<Rightarrow> bool" where
  "alloc_contract B \<longleftrightarrow>
     (\<forall>n w a w'. alloc_words B n w = Some (a, w') \<longrightarrow>
        0 < unat a \<and> 8 dvd unat a \<and> unat a + 8 * n < 2 ^ 64)"

definition fresh_heap :: "symheap \<Rightarrow> nat \<Rightarrow> bool" where
  "fresh_heap h cap \<longleftrightarrow>
     heap_cap h = cap \<and> sh_allocations h = Map.empty \<and>
     sh_free h = [\<lparr>blk_start = 0, blk_len = of_nat cap\<rparr>]"

lemma fresh_heap_inv:
  assumes "fresh_heap h cap" and "region_ok h" and "8 dvd cap" and "0 < cap"
  shows "heap_inv h" and "heap_abs h = \<lparr>sp_cap = cap, sp_allocs = Map.empty\<rparr>"
proof -
  from assms(1) have cap: "heap_cap h = cap" and al: "sh_allocations h = Map.empty"
    and fr: "sh_free h = [\<lparr>blk_start = 0, blk_len = of_nat cap\<rparr>]"
    by (auto simp: fresh_heap_def)
  show abs: "heap_abs h = \<lparr>sp_cap = cap, sp_allocs = Map.empty\<rparr>"
    by (auto simp: heap_abs_def cap al)
  have "unat (of_nat cap :: usize) = cap"
    using heap_capacity_Ok(2) [OF assms(2)] cap by simp
  then have runs: "free_runs h = [(0, cap)]"
    by (simp add: free_runs_def fr run_of_def)
  show "heap_inv h"
    unfolding heap_inv_def
    using assms(2-4) al by (auto simp: abs runs spec_wf_def spec_free_bytes_def occupied_def run_bytes_def)
qed

lemma unat_pad_words:
  assumes "unat (sz :: usize) + 7 < 2 ^ 64"
  shows "unat ((sz + 7) div 8) = (unat sz + 7) div 8"
  using assms by (simp add: unat_div_distrib unat_word_ariths)

lemma heap_with_size_steps:
  assumes "8 \<le> unat sz" and "unat sz + 7 < 2 ^ 64"
  shows "heap_with_size B ctx sz =
    io_bind (vec_zeroed_u64 B ((sz + 7) div 8)) (\<lambda>(region, local_base).
      io_on_fail (release B (R_Region local_base))
        (io_bind (ucx_call B (mem_map (ucx B) ctx local_base (of_nat (round_up8 (unat sz))))) (\<lambda>memh.
         io_on_fail (release B (R_Memh memh))
           (io_bind (ucx_call B (mem_pack_rkey (ucx B) ctx memh)) (\<lambda>packed.
            io_return
              \<lparr>sh_memh = memh, sh_region = region,
               sh_free = [\<lparr>blk_start = 0, blk_len = of_nat (round_up8 (unat sz))\<rparr>],
               sh_allocations = Map.empty, sh_packed_rkey = packed,
               sh_local_base = local_base\<rparr>)))))"
proof -
  have pad: "checked_add sz (8 - 1) = Some (sz + 7)"
    using assms(2) by (simp add: unat_word_ariths)
  have "round_up8 (unat sz) < 2 ^ 64" using assms(2) by (simp add: round_up8_def)
  then have "unat (of_nat (round_up8 (unat sz)) :: usize) = round_up8 (unat sz)"
    by (intro unat_of_nat_len) simp
  then have cap: "mul_op ((sz + 7) div 8) 8 = Ok (of_nat (round_up8 (unat sz)))"
    using unat_pad_words [OF assms(2)] by (simp add: round_up8_def)
  have big: "\<not> sz < ALIGNMENT" using assms(1) by (simp add: ALIGNMENT_def word_less_nat_alt)
  show ?thesis
    unfolding heap_with_size_def SIZEOF_U64_def
    by (simp only: big if_False pad ok_or.simps io_lift_simps io_return_bind Let_def cap)
qed

text \<open>A heap that is built is fresh, and its invariant holds.\<close>

lemma io_on_fail_Ok: "io_on_fail c m w = Some (Ok a, w') \<longleftrightarrow> m w = Some (Ok a, w')"
  by (auto simp: io_on_fail_def split: option.splits outcome.splits)

lemma heap_with_size_guards:
  assumes "heap_with_size B ctx sz w = Some (Ok h, w')"
  shows "8 \<le> unat sz" and "unat sz + 7 < 2 ^ 64"
proof -
  have big: "\<not> sz < ALIGNMENT"
    using assms by (auto simp: heap_with_size_def io_err_def)
  then show "8 \<le> unat sz" by (simp add: ALIGNMENT_def word_less_nat_alt)
  show "unat sz + 7 < 2 ^ 64"
  proof (rule ccontr)
    assume "\<not> ?thesis"
    then have "checked_add sz (SIZEOF_U64 - 1) = None" by (simp add: SIZEOF_U64_def)
    with assms big show False
      by (simp add: heap_with_size_def io_err_def del: checked_add_eq_None)
  qed
qed

lemma heap_with_size_fresh:
  assumes "alloc_contract B" and "heap_with_size B ctx sz w = Some (Ok h, w')"
  shows "fresh_heap h (round_up8 (unat sz))" and "region_ok h" and "8 \<le> unat sz"
proof -
  note guards = heap_with_size_guards [OF assms(2)]
  show "8 \<le> unat sz" by (rule guards(1))
  let ?n = "(unat sz + 7) div 8"
  have n: "unat ((sz + 7) div 8) = ?n" by (rule unat_pad_words [OF guards(2)])
  obtain a w1 where alloc: "alloc_words B ?n w = Some (a, w1)" and small: "?n * 8 \<le> isize_max"
    and h: "sh_region h = replicate ?n 0" "sh_local_base h = a" "sh_allocations h = Map.empty"
      "sh_free h = [\<lparr>blk_start = 0, blk_len = of_nat (round_up8 (unat sz))\<rparr>]"
    using assms(2) unfolding heap_with_size_steps [OF guards]
    by (auto simp: io_bind_eq_Ok vec_zeroed_u64_def n io_on_fail_Ok io_return_def
        split: option.splits if_splits prod.splits)
  have "0 < unat a \<and> 8 dvd unat a \<and> unat a + 8 * ?n < 2 ^ 64"
    using assms(1) alloc unfolding alloc_contract_def by blast
  then show "region_ok h"
    using small h by (simp add: region_ok_def heap_base_def heap_cap_def mult.commute)
  show "fresh_heap h (round_up8 (unat sz))"
    using h by (simp add: fresh_heap_def heap_cap_def round_up8_def)
qed

lemma heap_with_size_inv:
  assumes "alloc_contract B" and "heap_with_size B ctx sz w = Some (Ok h, w')"
  shows "heap_inv h" and "heap_abs h = \<lparr>sp_cap = round_up8 (unat sz), sp_allocs = Map.empty\<rparr>"
proof -
  note f = heap_with_size_fresh [OF assms]
  have "0 < round_up8 (unat sz)" "8 dvd round_up8 (unat sz)"
    using f(3) by (simp_all add: round_up8_bounds)
  with f show "heap_inv h" and "heap_abs h = \<lparr>sp_cap = round_up8 (unat sz), sp_allocs = Map.empty\<rparr>"
    by (auto intro: fresh_heap_inv)
qed

section \<open>The allocator contract\<close>

fun heap_live :: "symheap \<Rightarrow> symptr \<Rightarrow> nat option" where
  "heap_live h (SymPtr a) = map_option unat (sh_allocations h a)"

lemma heap_live_upd [simp]:
  "heap_live (h\<lparr>sh_free := bs, sh_allocations := (sh_allocations h)(a := v)\<rparr>) =
     (heap_live h)(SymPtr a := map_option unat v)"
proof
  fix p
  show "heap_live (h\<lparr>sh_free := bs, sh_allocations := (sh_allocations h)(a := v)\<rparr>) p =
     ((heap_live h)(SymPtr a := map_option unat v)) p"
    by (cases p) simp
qed

lemma heap_live_abs:
  assumes "heap_inv h" and "heap_live h p = Some l"
  obtains q where "ptr_offset h p = Some q" and "sp_allocs (heap_abs h) q = Some l"
proof -
  obtain a where p: "p = SymPtr a" by (cases p)
  with assms(2) obtain k where "sh_allocations h a = Some k" "l = unat k" by auto
  with heap_inv_keys [OF assms(1)] p that show ?thesis by blast
qed

lemma heap_live_region:
  assumes "heap_inv h" and "heap_live h p = Some l"
  shows "heap_base h \<le> unat (sp_addr p)" and "unat (sp_addr p) + l \<le> heap_base h + heap_cap h"
    and "8 dvd unat (sp_addr p)" and "0 < l"
proof -
  obtain q where q: "ptr_offset h p = Some q" "sp_allocs (heap_abs h) q = Some l"
    by (rule heap_live_abs [OF assms])
  obtain a where p: "p = SymPtr a" by (cases p)
  note al = spec_wfD [OF heap_invD(2) [OF assms(1)] q(2)]
  have "8 dvd heap_base h" using heap_invD(1) [OF assms(1)] by (simp add: region_ok_def)
  with al p q(1) show "heap_base h \<le> unat (sp_addr p)"
    and "unat (sp_addr p) + l \<le> heap_base h + heap_cap h"
    and "8 dvd unat (sp_addr p)" and "0 < l" by simp_all
qed

lemma heap_live_disjoint:
  assumes inv: "heap_inv h" and "heap_live h p = Some l" and "heap_live h q = Some m" and "p \<noteq> q"
  shows "\<not> overlap p l q m"
proof -
  obtain i where i: "ptr_offset h p = Some i" "sp_allocs (heap_abs h) i = Some l"
    by (rule heap_live_abs [OF inv assms(2)])
  obtain j where j: "ptr_offset h q = Some j" "sp_allocs (heap_abs h) j = Some m"
    by (rule heap_live_abs [OF inv assms(3)])
  obtain a b where ab: "p = SymPtr a" "q = SymPtr b" by (cases p; cases q)
  have "i \<noteq> j" using i(1) j(1) ab assms(4) by (auto simp: word_unat_eq_iff)
  with spec_wf_disjoint [OF heap_invD(2) [OF inv] i(2) j(2)] i(1) j(1) ab show ?thesis
    by (auto simp: overlap_def)
qed

lemma heap_live_none:
  assumes inv: "heap_inv h" and "p < heap_cap h" and "sp_allocs (heap_abs h) p = None"
  shows "sh_allocations h (addr_at h p) = None"
  using assms heap_abs_allocs [of h "addr_at h p" p] heap_invD(1) [OF inv]
  by (simp add: addr_at_unat)

interpretation heap: allocator heap_inv heap_malloc heap_free heap_live
proof unfold_locales
  fix h n p h'
  assume inv: "heap_inv h" and eq: "heap_malloc h n = (Ok p, h')"
  show "heap_inv h' \<and> heap_live h p = None \<and>
      heap_live h' = (heap_live h)(p \<mapsto> round_up8 (unat n)) \<and> 8 dvd unat (sp_addr p)"
  proof (cases rule: heap_malloc_branches [OF inv, of n, case_names zero overflow exhausted found])
    case (found q bs r)
    let ?h = "h\<lparr>sh_free := bs, sh_allocations := (sh_allocations h)(addr_at h q \<mapsto> r)\<rparr>"
    have p: "p = SymPtr (addr_at h q)" and h': "h' = ?h" using found(3) eq by auto
    have pos: "0 < round_up8 (unat n)" using found(1) by (simp add: round_up8_bounds unat_gt_0)
    have "sp_allocs (heap_abs h) q = None"
      by (rule fits_fresh [OF heap_invD(2) [OF inv] found(6) pos])
    then have none: "heap_live h p = None"
      using heap_live_none [OF inv] fits_in_cap [OF found(6) pos] p by simp
    have live: "heap_live h' = (heap_live h)(p \<mapsto> round_up8 (unat n))"
      using found(4) p h' by simp
    then have "heap_live h' p = Some (round_up8 (unat n))" by simp
    with found(5) h' have "8 dvd unat (sp_addr p)" by (blast intro: heap_live_region(3))
    with found(5) h' none live show ?thesis by blast
  qed (use eq in simp_all)
next
  fix h n e h'
  assume inv: "heap_inv h" and eq: "heap_malloc h n = (Err e, h')"
  show "h' = h"
    by (cases rule: heap_malloc_branches [OF inv, of n]) (use eq in simp_all)
next
  fix h n h'
  assume "heap_inv h"
  then show "heap_malloc h n \<noteq> (Panic, h')" using heap_malloc_no_panic [of h n] by auto
next
  fix h p l
  assume inv: "heap_inv h" and live: "heap_live h p = Some l"
  obtain a where p: "p = SymPtr a" by (cases p)
  show "\<exists>h'. heap_free h p = (Ok (), h') \<and> heap_inv h' \<and> heap_live h' = (heap_live h)(p := None)"
    by (cases rule: heap_free_branches [OF inv, of a]) (use live p in auto)
next
  fix h p
  assume inv: "heap_inv h" and dead: "heap_live h p = None"
  obtain a where p: "p = SymPtr a" by (cases p)
  show "heap_free h p = (Err (Usage ''invalid symmetric pointer''), h)"
    by (cases rule: heap_free_branches [OF inv, of a]) (use dead p in auto)
next
  fix h p l q m
  assume "heap_inv h" "heap_live h p = Some l" "heap_live h q = Some m" "p \<noteq> q"
  then show "\<not> overlap p l q m" by (rule heap_live_disjoint)
next
  fix h p l
  assume "heap_inv h" "heap_live h p = Some l"
  then show "0 < l" by (rule heap_live_region(4))
qed

section \<open>The handle behind a mutex\<close>

definition sym_alloc_inv :: "sym_alloc \<Rightarrow> bool" where
  "sym_alloc_inv a \<longleftrightarrow> \<not> sa_poisoned a \<and> heap_inv (sa_heap a)"

text \<open>Under the invariant the lock is transparent: the heap's own call, never poisoned.\<close>

lemma sym_alloc_locked_transparent:
  assumes "\<not> sa_poisoned a" and "fst (f (sa_heap a)) \<noteq> Panic"
  shows "sym_alloc_locked f a =
    (fst (f (sa_heap a)), \<lparr>sa_poisoned = False, sa_heap = snd (f (sa_heap a))\<rparr>)"
  using assms by (cases "f (sa_heap a)"; cases "fst (f (sa_heap a))") (auto simp: sym_alloc_locked_def)

lemma sym_alloc_calls:
  assumes "sym_alloc_inv a"
  shows "sym_alloc_malloc a n = (fst (heap_malloc (sa_heap a) n),
      \<lparr>sa_poisoned = False, sa_heap = snd (heap_malloc (sa_heap a) n)\<rparr>)"
    and "sym_alloc_free a p = (fst (heap_free (sa_heap a) p),
      \<lparr>sa_poisoned = False, sa_heap = snd (heap_free (sa_heap a) p)\<rparr>)"
  unfolding sym_alloc_malloc_def sym_alloc_free_def
  using assms heap_malloc_no_panic heap_free_no_panic
  by (auto simp: sym_alloc_inv_def intro: sym_alloc_locked_transparent)

lemma sym_alloc_eta: "\<not> sa_poisoned a \<Longrightarrow> \<lparr>sa_poisoned = False, sa_heap = sa_heap a\<rparr> = a"
  by (cases a) simp

interpretation handle: allocator sym_alloc_inv sym_alloc_malloc sym_alloc_free
  "\<lambda>a. heap_live (sa_heap a)"
proof unfold_locales
  fix a n p a'
  assume inv: "sym_alloc_inv a" and eq: "sym_alloc_malloc a n = (Ok p, a')"
  then have "heap_malloc (sa_heap a) n = (Ok p, sa_heap a')" and "\<not> sa_poisoned a'"
    by (auto simp: sym_alloc_calls prod_eq_iff)
  with inv show "sym_alloc_inv a' \<and> heap_live (sa_heap a) p = None \<and>
      heap_live (sa_heap a') = (heap_live (sa_heap a))(p \<mapsto> round_up8 (unat n)) \<and>
      8 dvd unat (sp_addr p)"
    using heap.malloc_Ok [of "sa_heap a" n p "sa_heap a'"] by (simp add: sym_alloc_inv_def)
next
  fix a n e a'
  assume inv: "sym_alloc_inv a" and eq: "sym_alloc_malloc a n = (Err e, a')"
  then have "heap_malloc (sa_heap a) n = (Err e, sa_heap a')" and "\<not> sa_poisoned a'"
    by (auto simp: sym_alloc_calls prod_eq_iff)
  with inv show "a' = a"
    using heap.malloc_Err sym_alloc_eta by (metis sym_alloc_inv_def)
next
  fix a n a'
  assume inv: "sym_alloc_inv a"
  then show "sym_alloc_malloc a n \<noteq> (Panic, a')"
    using heap_malloc_no_panic by (auto simp: sym_alloc_calls sym_alloc_inv_def)
next
  fix a p l
  assume inv: "sym_alloc_inv a" and "heap_live (sa_heap a) p = Some l"
  then obtain h' where "heap_free (sa_heap a) p = (Ok (), h')" "heap_inv h'"
      "heap_live h' = (heap_live (sa_heap a))(p := None)"
    using heap.free_live [of "sa_heap a" p l] by (auto simp: sym_alloc_inv_def)
  with inv show "\<exists>a'. sym_alloc_free a p = (Ok (), a') \<and> sym_alloc_inv a' \<and>
      heap_live (sa_heap a') = (heap_live (sa_heap a))(p := None)"
    by (simp add: sym_alloc_calls sym_alloc_inv_def)
next
  fix a p
  assume inv: "sym_alloc_inv a" and "heap_live (sa_heap a) p = None"
  then show "sym_alloc_free a p = (Err (Usage ''invalid symmetric pointer''), a)"
    using heap.free_dead by (simp add: sym_alloc_calls sym_alloc_inv_def sym_alloc_eta)
qed (auto simp: sym_alloc_inv_def heap_live_disjoint heap_live_region(4))

section \<open>Symmetry across processing elements\<close>

text \<open>
  A program that every processing element runs: it allocates, and frees what its
  \<open>i\<close>-th allocation returned. \<open>spmd_run\<close> keeps the pointers the allocations returned.
\<close>

datatype spmd_op = S_Malloc usize | S_Free nat

fun spmd_step :: "symheap \<times> symptr result list \<Rightarrow> spmd_op \<Rightarrow> symheap \<times> symptr result list" where
  "spmd_step (h, ps) (S_Malloc n) = (case heap_malloc h n of (r, h') \<Rightarrow> (h', ps @ [r]))"
| "spmd_step (h, ps) (S_Free i) =
     (if i < length ps then
        (case ps ! i of Ok p \<Rightarrow> (snd (heap_free h p), ps) | _ \<Rightarrow> (h, ps))
      else (h, ps))"

definition spmd_run :: "symheap \<Rightarrow> spmd_op list \<Rightarrow> symheap \<times> symptr result list" where
  "spmd_run h xs = foldl spmd_step (h, []) xs"

text \<open>Same outcome, and at a pointer the same offset from the base of the own heap.\<close>

definition mirrored :: "u64 \<Rightarrow> u64 \<Rightarrow> symptr result \<Rightarrow> symptr result \<Rightarrow> bool" where
  "mirrored b c r s = (case (r, s) of
      (Ok p, Ok q) \<Rightarrow> to_remote_addr p b c = Ok (sp_addr q)
    | (Err e, Err d) \<Rightarrow> e = d
    | (Panic, Panic) \<Rightarrow> True
    | _ \<Rightarrow> False)"

definition symmetric :: "symheap \<Rightarrow> symheap \<Rightarrow> bool" where
  "symmetric h g \<longleftrightarrow> heap_inv h \<and> heap_inv g \<and> heap_abs h = heap_abs g"

definition same_offset :: "symheap \<Rightarrow> symheap \<Rightarrow> symptr \<Rightarrow> symptr \<Rightarrow> bool" where
  "same_offset h g p q \<longleftrightarrow>
     heap_base h \<le> unat (sp_addr p) \<and> heap_base g \<le> unat (sp_addr q) \<and>
     unat (sp_addr p) - heap_base h = unat (sp_addr q) - heap_base g"

lemma same_offset_remote:
  "same_offset h g p q \<Longrightarrow> to_remote_addr p (sh_local_base h) (sh_local_base g) = Ok (sp_addr q)"
  by (simp add: same_offset_def to_remote_addr_Ok heap_base_def)

lemma same_offset_ptr:
  "symmetric h g \<Longrightarrow> same_offset h g p q \<Longrightarrow> ptr_offset h p = ptr_offset g q"
proof -
  assume "symmetric h g" and so: "same_offset h g p q"
  then have "heap_cap h = heap_cap g"
    by (metis heap_abs_sel symmetric_def)
  with so show ?thesis
    by (cases p; cases q) (auto simp: same_offset_def ptr_offset.simps)
qed

definition same_reply :: "symheap \<Rightarrow> symheap \<Rightarrow> symptr result \<Rightarrow> symptr result \<Rightarrow> bool" where
  "same_reply h g r s = (case (r, s) of
      (Ok p, Ok q) \<Rightarrow> same_offset h g p q
    | (Err e, Err d) \<Rightarrow> e = d
    | (Panic, Panic) \<Rightarrow> True
    | _ \<Rightarrow> False)"

lemma same_reply_mirrored:
  "same_reply h g r s \<Longrightarrow> mirrored (sh_local_base h) (sh_local_base g) r s"
  by (auto simp: same_reply_def mirrored_def same_offset_remote split: outcome.splits)

lemma heap_malloc_base:
  assumes "heap_inv h"
  shows "sh_local_base (snd (heap_malloc h n)) = sh_local_base h"
  by (cases rule: heap_malloc_branches [OF assms, of n]) simp_all

lemma heap_free_base:
  assumes "heap_inv h"
  shows "sh_local_base (snd (heap_free h p)) = sh_local_base h"
  by (rule heap_free_branches [OF assms, of "sp_addr p"]) simp_all

lemma symmetric_malloc:
  assumes "symmetric h g"
  shows "symmetric (snd (heap_malloc h n)) (snd (heap_malloc g n))"
    and "same_reply h g (fst (heap_malloc h n)) (fst (heap_malloc g n))"
proof -
  from assms have inv: "heap_inv h" "heap_inv g" and abs: "heap_abs h = heap_abs g"
    by (auto simp: symmetric_def)
  have eq: "(offset_result h (fst (heap_malloc h n)), heap_abs (snd (heap_malloc h n))) =
      (offset_result g (fst (heap_malloc g n)), heap_abs (snd (heap_malloc g n)))"
    using heap_malloc_spec [OF inv(1), of n] heap_malloc_spec [OF inv(2), of n] abs by simp
  then show "symmetric (snd (heap_malloc h n)) (snd (heap_malloc g n))"
    using inv by (simp add: symmetric_def heap_malloc_inv)
  have base: "heap_base k \<le> unat (sp_addr p)" if "heap_inv k" "fst (heap_malloc k n) = Ok p" for k p
  proof -
    have "heap_malloc k n = (Ok p, snd (heap_malloc k n))" using that(2) by (simp add: prod_eq_iff)
    from heap.malloc_Ok [OF that(1) this]
    have "heap_inv (snd (heap_malloc k n))" "heap_live (snd (heap_malloc k n)) p \<noteq> None" by auto
    then have "heap_base (snd (heap_malloc k n)) \<le> unat (sp_addr p)"
      using heap_live_region(1) by blast
    then show ?thesis using heap_malloc_base [OF that(1)] by (simp add: heap_base_def)
  qed
  show "same_reply h g (fst (heap_malloc h n)) (fst (heap_malloc g n))"
    using eq base [OF inv(1)] base [OF inv(2)]
    by (auto simp: same_reply_def same_offset_def offset_result_def split: outcome.splits)
qed

lemma symmetric_free:
  assumes sym: "symmetric h g" and off: "same_offset h g p q"
  shows "symmetric (snd (heap_free h p)) (snd (heap_free g q))"
proof -
  from sym have inv: "heap_inv h" "heap_inv g" and abs: "heap_abs h = heap_abs g"
    by (auto simp: symmetric_def)
  have "heap_abs (snd (heap_free h p)) = heap_abs (snd (heap_free g q))"
    using heap_free_spec [OF inv(1), of p] heap_free_spec [OF inv(2), of q] abs
      same_offset_ptr [OF sym off] by simp
  with inv show ?thesis by (simp add: symmetric_def heap_free_inv)
qed

text \<open>Lockstep: related states stay related under every operation.\<close>

definition in_step :: "symheap \<Rightarrow> symheap \<Rightarrow> symheap \<times> symptr result list \<Rightarrow>
    symheap \<times> symptr result list \<Rightarrow> bool" where
  "in_step h g s t \<longleftrightarrow>
     symmetric (fst s) (fst t) \<and> list_all2 (same_reply h g) (snd s) (snd t) \<and>
     sh_local_base (fst s) = sh_local_base h \<and> sh_local_base (fst t) = sh_local_base g"

lemma in_step_step:
  assumes "in_step h g s t"
  shows "in_step h g (spmd_step s x) (spmd_step t x)"
proof -
  obtain k ps l qs where st: "s = (k, ps)" "t = (l, qs)" by (cases s; cases t)
  with assms have sym: "symmetric k l" and rel: "list_all2 (same_reply h g) ps qs"
    and base: "sh_local_base k = sh_local_base h" "sh_local_base l = sh_local_base g"
    by (auto simp: in_step_def)
  have so: "same_offset k l = same_offset h g" and sr: "same_reply k l = same_reply h g"
    using base by (auto simp: fun_eq_iff same_offset_def same_reply_def heap_base_def split: outcome.splits)
  have inv: "heap_inv k" "heap_inv l" using sym by (auto simp: symmetric_def)
  show ?thesis
  proof (cases x)
    case (S_Malloc n)
    show ?thesis
      using symmetric_malloc [OF sym, of n] rel base heap_malloc_base [OF inv(1)] heap_malloc_base [OF inv(2)]
      by (auto simp: S_Malloc st in_step_def sr list_all2_appendI split: prod.splits)
        (metis fst_conv snd_conv)+
  next
    case (S_Free i)
    have len: "length ps = length qs" using rel by (rule list_all2_lengthD)
    have nth: "same_reply h g (ps ! i) (qs ! i)" if "i < length ps"
      using rel that by (rule list_all2_nthD)
    show ?thesis
      using nth symmetric_free [OF sym] rel base sym heap_free_base [OF inv(1)] heap_free_base [OF inv(2)]
      by (auto simp: S_Free st in_step_def len so same_reply_def split: outcome.splits)
  qed
qed

lemma in_step_run: "in_step h g s t \<Longrightarrow> in_step h g (foldl spmd_step s xs) (foldl spmd_step t xs)"
proof (induction xs arbitrary: s t)
  case (Cons x xs)
  from Cons.IH [OF in_step_step [OF Cons.prems]] show ?case by simp
qed simp

lemma spmd_run_mirrored:
  assumes "symmetric h g"
  shows "list_all2 (mirrored (sh_local_base h) (sh_local_base g))
           (snd (spmd_run h xs)) (snd (spmd_run g xs))"
proof -
  have "in_step h g (h, []) (g, [])" using assms by (simp add: in_step_def)
  then have "in_step h g (spmd_run h xs) (spmd_run g xs)"
    unfolding spmd_run_def by (rule in_step_run)
  then have "list_all2 (same_reply h g) (snd (spmd_run h xs)) (snd (spmd_run g xs))"
    by (simp add: in_step_def)
  then show ?thesis by (rule list_all2_mono) (rule same_reply_mirrored)
qed

end
