(* ===== verification/Heap_Properties.thy ===== *)
theory Heap_Properties
  imports SymHeap_Props
begin

text \<open>
  The properties of the symmetric heap, each instantiated on a concrete heap.
\<close>

section \<open>A concrete heap\<close>

text \<open>A fresh heap of 128 bytes at a given base, on which the theorems below are instantiated.\<close>

definition sample_heap :: "u64 \<Rightarrow> symheap" where
  "sample_heap base =
     \<lparr>sh_memh = 0, sh_region = replicate 16 0, sh_free = [\<lparr>blk_start = 0, blk_len = 128\<rparr>],
      sh_allocations = Map.empty, sh_packed_rkey = [1, 2, 3, 4], sh_local_base = base\<rparr>"

lemma sample_heap_fresh:
  assumes "0 < unat base" and "8 dvd unat base" and "unat base + 128 < 2 ^ 64"
  shows "heap_inv (sample_heap base)"
    and "heap_abs (sample_heap base) = \<lparr>sp_cap = 128, sp_allocs = Map.empty\<rparr>"
proof -
  have fresh: "fresh_heap (sample_heap base) 128"
    by (simp add: fresh_heap_def sample_heap_def heap_cap_def)
  have "region_ok (sample_heap base)"
    using assms by (simp add: region_ok_def sample_heap_def heap_cap_def heap_base_def isize_max_def)
  with fresh show "heap_inv (sample_heap base)"
    and "heap_abs (sample_heap base) = \<lparr>sp_cap = 128, sp_allocs = Map.empty\<rparr>"
    by (auto intro: fresh_heap_inv)
qed

lemma sample_heap_inv [simp]: "heap_inv (sample_heap 4096)" "heap_inv (sample_heap 65536)"
  by (rule sample_heap_fresh; simp)+

lemma sample_heap_symmetric: "symmetric (sample_heap 4096) (sample_heap 65536)"
  using sample_heap_fresh [of 4096] sample_heap_fresh [of 65536] by (simp add: symmetric_def)

lemma sample_heap_base [simp]: "heap_base (sample_heap b) = unat b"
  by (simp add: heap_base_def sample_heap_def)

lemmas eval_arith =
  add_op_def sub_op_def mul_op_def checked_add_def checked_sub_def checked_mul_def
  ALIGNMENT_def SIZEOF_U64_def

lemma sample_malloc:
  "heap_malloc (sample_heap 4096) 10 =
     (Ok (SymPtr 4096),
      (sample_heap 4096)\<lparr>sh_free := [\<lparr>blk_start = 16, blk_len = 112\<rparr>],
         sh_allocations := [4096 \<mapsto> 16]\<rparr>)"
  by (simp add: heap_malloc_def round_request_def take_block_def sample_heap_def eval_arith)

lemma sample_allocations:
  "alloc_run heap_malloc heap_free (sample_heap 4096) [Malloc 10, Malloc 20] =
     ([Malloced (Ok (SymPtr 4096)), Malloced (Ok (SymPtr 4112))],
      (sample_heap 4096)\<lparr>sh_free := [\<lparr>blk_start = 40, blk_len = 88\<rparr>],
         sh_allocations := [4096 \<mapsto> 16, 4112 \<mapsto> 24]\<rparr>)"
  by (simp add: sample_malloc)
    (simp add: heap_malloc_def round_request_def take_block_def sample_heap_def eval_arith)

lemma sample_local_base [simp]: "sh_local_base (sample_heap b) = b"
  by (simp add: sample_heap_def)

section \<open>Properties\<close>

text \<open>C3: Allocation implements first fit on the set of free bytes, on every branch: under the
  invariant the word-level free-list code returns the error, or the offset, that the abstract
  allocator returns, leaves the state the abstract allocator leaves, keeps the invariant and
  does not overflow.\<close>

theorem malloc_refines_first_fit:
  assumes "heap_inv h"
  shows "spec_malloc (heap_abs h) (unat sz) =
      (offset_result h (fst (heap_malloc h sz)), heap_abs (snd (heap_malloc h sz))) \<and>
    heap_inv (snd (heap_malloc h sz)) \<and> fst (heap_malloc h sz) \<noteq> Panic"
  using assms by (simp add: heap_malloc_spec heap_malloc_inv heap_malloc_no_panic)

theorem malloc_refines_first_fit_witness:
  "spec_malloc (heap_abs (sample_heap 4096)) 10 =
      (Ok 0, heap_abs (snd (heap_malloc (sample_heap 4096) 10)))"
  using malloc_refines_first_fit [OF sample_heap_inv(1), of 10]
  by (simp add: sample_malloc)

text \<open>C4: Deallocation implements the abstract one, on every branch: a live pointer is returned
  and its bytes are free again, any other pointer (stale, foreign, inside an allocation) is
  refused and nothing changes; the invariant stays and nothing overflows.\<close>

theorem free_refines_delete:
  assumes "heap_inv h"
  shows "spec_free (heap_abs h) (ptr_offset h p) =
      (fst (heap_free h p), heap_abs (snd (heap_free h p))) \<and>
    heap_inv (snd (heap_free h p)) \<and> fst (heap_free h p) \<noteq> Panic"
  using assms by (simp add: heap_free_spec heap_free_inv heap_free_no_panic)

theorem free_refines_delete_witness:
  "spec_free (heap_abs (sample_heap 4096)) (ptr_offset (sample_heap 4096) (SymPtr 4100)) =
      (Err (Usage ''invalid symmetric pointer''), heap_abs (sample_heap 4096))"
  using free_refines_delete [OF sample_heap_inv(1), of "SymPtr 4100"]
  by (simp add: heap_free.simps sample_heap_def)

text \<open>C18: Freeing what was just allocated gives back exactly the heap before the allocation, free
  list included: coalescing undoes the split, whatever the fragmentation.\<close>

theorem malloc_then_free_is_identity:
  assumes "heap_inv h" and "heap_malloc h sz = (Ok p, h')"
  shows "heap_free h' p = (Ok (), h)"
  using assms by (rule heap_malloc_free_restores)

theorem malloc_then_free_is_identity_witness:
  "heap_free (snd (heap_malloc (sample_heap 4096) 10)) (SymPtr 4096) = (Ok (), sample_heap 4096)"
  using malloc_then_free_is_identity [OF sample_heap_inv(1) sample_malloc]
  by (simp add: sample_malloc)

text \<open>C14: Whatever sequence of calls a client makes, two live allocations never share a byte; what
  is live is read off the replies alone.\<close>

theorem live_allocations_never_overlap:
  assumes "heap_inv h" and "alloc_run heap_malloc heap_free h xs = (rs, h')"
    and "note_replies (heap_live h) xs rs p = Some l"
    and "note_replies (heap_live h) xs rs q = Some m"
    and "p \<noteq> q"
  shows "\<not> overlap p l q m"
  using assms by (rule heap.run_disjoint)

theorem live_allocations_never_overlap_witness:
  "\<not> overlap (SymPtr 4096) 16 (SymPtr 4112) 24"
  by (rule live_allocations_never_overlap [OF sample_heap_inv(1) sample_allocations])
    (simp_all add: round_up8_def)

text \<open>No leak: once every allocation has been returned, the free list is a single block, the
  whole region.\<close>

lemma returned_heap_is_one_block:
  assumes "heap_inv h" and "sh_allocations h = Map.empty" and "0 < heap_cap h"
  shows "sh_free h = [\<lparr>blk_start = 0, blk_len = of_nat (heap_cap h)\<rparr>]"
  using assms by (rule heap_drained)

lemma returned_heap_is_one_block_witness:
  "sh_free (sample_heap 4096) = [\<lparr>blk_start = 0, blk_len = of_nat (heap_cap (sample_heap 4096))\<rparr>]"
  by (rule returned_heap_is_one_block [OF sample_heap_inv(1)])
    (simp_all add: sample_heap_def heap_cap_def)

text \<open>Address translation is a bijection between two heaps: translating there and back returns
  the pointer.\<close>

lemma remote_translation_roundtrip:
  assumes "to_remote_addr p b c = Ok r"
  shows "to_remote_addr (SymPtr r) c b = Ok (sp_addr p)"
  using assms by (auto simp: to_remote_addr_Ok)

lemma remote_translation_roundtrip_witness:
  "to_remote_addr (SymPtr 0xa234) 0x9000 0x1000 = Ok 0x2234"
  using remote_translation_roundtrip [where p = "SymPtr 0x2234" and b = "0x1000" and c = "0x9000" and r = "0xa234"]
  by (simp add: to_remote_addr_Ok)

end
