(* ===== verification/Transport.thy ===== *)
theory Transport
  imports SymHeap
begin

text \<open>
  \<open>src/rma.rs\<close>, the UCX transport of one processing element: its construction (context,
  worker, packed address, what is released when a step fails), endpoints, and the loops that
  wait for a request. UCX is a parameter (\<open>Bindings\<close>).
\<close>

record transport_capabilities =
  cap_rma :: bool
  cap_loopback :: bool

record ucx_transport =
  tr_worker :: handle
  tr_context :: handle
  tr_packed_address :: bytes
  tr_capabilities :: transport_capabilities

definition config_error_to :: "'x bindings \<Rightarrow> config_error \<Rightarrow> error" where
  "config_error_to B e = (case e of
      Config_Ucs s \<Rightarrow> ucx_error B s
    | Config_Nul \<Rightarrow> Internal ''invalid UCX configuration string'')"

definition transport_new :: "'x bindings \<Rightarrow> usize \<Rightarrow> ('x world, error, ucx_transport) io" where
  "transport_new B estimated_num_eps =
     io_bind (io_call (config_error_to B) (config_read (ucx B) '''' '''')) (\<lambda>config.
     io_bind (io_on_fail (release B (R_Config config))
       (ucx_call B (context_new (ucx B) config [Feature_Tag, Feature_Rma] 1 estimated_num_eps)))
       (\<lambda>context.
     io_seq (io_effect (release B (R_Config config)))
       (io_on_fail (release B (R_Context context))
         (io_bind (ucx_call B (worker_create (ucx B) context Thread_Mode_Serialized)) (\<lambda>raw.
          io_bind (io_on_fail (release B (R_Worker raw))
            (ucx_call B (worker_pack_address (ucx B) raw))) (\<lambda>packed_address.
          io_bind (ucx_call B (mt_worker_new (ucx B) raw)) (\<lambda>worker.
          io_return
            \<lparr>tr_worker = worker, tr_context = context, tr_packed_address = packed_address,
             tr_capabilities =
               \<lparr>cap_rma = True, cap_loopback = (packed_address \<noteq> [])\<rparr>\<rparr>)))))))"

definition create_endpoint ::
  "'x bindings \<Rightarrow> ucx_transport \<Rightarrow> bytes \<Rightarrow> ('x world, error, handle) io"
where
  "create_endpoint B t address = ucx_call B (worker_create_ep (ucx B) (tr_worker t) address)"

definition loopback_endpoint ::
  "'x bindings \<Rightarrow> ucx_transport \<Rightarrow> ('x world, error, handle) io"
where
  "loopback_endpoint B t =
     (if \<not> cap_loopback (tr_capabilities t)
      then io_err (Internal ''UCX worker has no loopback address'')
      else ucx_call B (worker_create_ep (ucx B) (tr_worker t) (tr_packed_address t)))"

definition with_worker :: "ucx_transport \<Rightarrow> (handle \<Rightarrow> 'a) \<Rightarrow> 'a" where
  "with_worker t operation = operation (tr_worker t)"

definition transport_fence :: "'x bindings \<Rightarrow> ucx_transport \<Rightarrow> ('x world, error, unit) io" where
  "transport_fence B t = ucx_call B (worker_fence (ucx B) (tr_worker t))"

section \<open>Waiting\<close>

text \<open>\<open>UcxTransport::wait_request\<close>: the binding's bounded wait, retried while it reports an
  incomplete request.\<close>

definition wait_request_body ::
  "'x bindings \<Rightarrow> ucx_transport \<Rightarrow> handle \<Rightarrow> 'x world \<Rightarrow> unit option result \<times> 'x world"
where
  "wait_request_body B t request w =
     (case worker_wait_request (ucx B) (tr_worker t) request w of
        (Inl s, w') \<Rightarrow> (Err (ucx_error B s), w')
      | (Inr True, w') \<Rightarrow> (Ok (Some ()), w')
      | (Inr False, w') \<Rightarrow> (Ok None, w'))"

definition wait_request ::
  "'x bindings \<Rightarrow> ucx_transport \<Rightarrow> handle \<Rightarrow> ('x world, error, unit) io"
where
  "wait_request B t request = poll_loop (wait_request_body B t request)"

definition complete_request ::
  "'x bindings \<Rightarrow> ucx_transport \<Rightarrow> handle option \<Rightarrow> ('x world, error, unit) io"
where
  "complete_request B t request = (case request of
      None \<Rightarrow> io_return ()
    | Some r \<Rightarrow>
        io_seq (io_on_fail (release B (R_Request r)) (wait_request B t r))
          (io_effect (request_free (ucx B) r)))"

definition complete_fetch_body ::
  "'x bindings \<Rightarrow> handle \<Rightarrow> handle \<Rightarrow> 'x world \<Rightarrow> unit option result \<times> 'x world"
where
  "complete_fetch_body B worker request w =
     (case fetch_check_finished (ucx B) request w of
        (Inl s, w') \<Rightarrow> (Err (ucx_error B s), w')
      | (Inr True, w') \<Rightarrow> (Ok (Some ()), w')
      | (Inr False, w') \<Rightarrow> (Ok None, worker_progress (ucx B) worker w'))"

definition complete_fetch ::
  "'x bindings \<Rightarrow> handle \<Rightarrow> handle \<Rightarrow> ('x world, error, unit) io"
where
  "complete_fetch B worker request =
     io_seq (io_on_fail (release B (R_Request request))
               (poll_loop (complete_fetch_body B worker request)))
       (io_effect (fetch_free (ucx B) request))"

text \<open>Fields are dropped in declaration order: the worker, then the context.\<close>

definition drop_transport :: "ucx_transport \<Rightarrow> resource list" where
  "drop_transport t = [R_Worker (tr_worker t), R_Context (tr_context t)]"

definition drop_heap :: "symheap \<Rightarrow> resource list" where
  "drop_heap h = [R_Memh (sh_memh h), R_Region (sh_local_base h)]"

section \<open>Facts about waiting\<close>

text \<open>The status of the request after \<open>n\<close> bounded waits.\<close>

definition request_pending :: "'x bindings \<Rightarrow> ucx_transport \<Rightarrow> handle \<Rightarrow> nat \<Rightarrow> 'x world \<Rightarrow> bool" where
  "request_pending B t r n w \<longleftrightarrow> poll_answer (wait_request_body B t r) n w = Ok None"

lemma wait_request_no_panic [no_panic_intros]: "no_panic (wait_request B t r)"
  unfolding wait_request_def
  by (rule no_panic_poll_loop) (auto simp: wait_request_body_def split: prod.splits sum.splits bool.splits)

lemma complete_request_no_panic [no_panic_intros]: "no_panic (complete_request B t req)"
  by (cases req) (auto simp: complete_request_def intro!: no_panic_intros)

lemma complete_fetch_no_panic [no_panic_intros]: "no_panic (complete_fetch B worker req)"
  unfolding complete_fetch_def
  by (intro no_panic_intros)
    (auto simp: complete_fetch_body_def split: prod.splits sum.splits bool.splits)

lemma ucx_call_no_panic [no_panic_intros]: "no_panic (ucx_call B f)"
  unfolding ucx_call_def by (rule no_panic_call)

lemma pmix_call_no_panic [no_panic_intros]: "no_panic (pmix_call B f)"
  unfolding pmix_call_def by (rule no_panic_call)

lemma ucc_call_no_panic [no_panic_intros]: "no_panic (ucc_call f)"
  unfolding ucc_call_def by (rule no_panic_call)

lemma transport_new_no_panic [no_panic_intros]: "no_panic (transport_new B n)"
  unfolding transport_new_def by (intro no_panic_intros)

text \<open>A wait returns as soon as one of its rounds does not report an incomplete request.\<close>

lemma wait_request_completes:
  assumes "\<forall>i < n. request_pending B t r i w"
    and "poll_answer (wait_request_body B t r) n w = Ok (Some ())"
  shows "wait_request B t r w = Some (Ok (), poll_state (wait_request_body B t r) (Suc n) w)"
  using assms unfolding wait_request_def request_pending_def
  by (intro poll_loop_finishes) simp_all

lemma wait_request_fails:
  assumes "\<forall>i < n. request_pending B t r i w"
    and "poll_answer (wait_request_body B t r) n w = Err e"
  shows "wait_request B t r w = Some (Err e, poll_state (wait_request_body B t r) (Suc n) w)"
  using assms unfolding wait_request_def request_pending_def
  by (intro poll_loop_finishes) simp_all

lemma wait_request_never_returns:
  "\<forall>n. request_pending B t r n w \<Longrightarrow> wait_request B t r w = None"
  unfolding wait_request_def request_pending_def by (rule poll_loop_diverges)

end
