(* ===== verification/Bootstrap.thy ===== *)
theory Bootstrap
  imports Transport
begin

text \<open>
  \<open>src/bootstrap.rs\<close>: every processing element publishes its worker address, its packed rkey
  and the base of its heap in the PMIx key-value store, waits at a fence, then reads the
  metadata of every peer and builds one connection per peer. PMIx and UCX are parameters.
\<close>

definition cstr :: "string \<Rightarrow> bytes" where
  "cstr s = map of_char s"

definition WORKER_ADDR_KEY :: bytes where
  "WORKER_ADDR_KEY = cstr ''shmem.worker.addr''"

definition HEAP_RKEY_KEY :: bytes where
  "HEAP_RKEY_KEY = cstr ''shmem.heap.rkey''"

definition HEAP_BASE_KEY :: bytes where
  "HEAP_BASE_KEY = cstr ''shmem.heap.base''"

definition WORKER_ADDR_GET_KEY :: bytes where
  "WORKER_ADDR_GET_KEY = cstr ''shmem.worker.addr'' @ [0]"

definition HEAP_RKEY_GET_KEY :: bytes where
  "HEAP_RKEY_GET_KEY = cstr ''shmem.heap.rkey'' @ [0]"

definition HEAP_BASE_GET_KEY :: bytes where
  "HEAP_BASE_GET_KEY = cstr ''shmem.heap.base'' @ [0]"

record peer_connection =
  pc_endpoint :: handle
  pc_rkey :: handle
  pc_heap_base :: u64

type_synonym peer_table = "(u32, peer_connection) btree"

record bootstrap =
  bs_peer_rkeys :: peer_rkeys
  bs_peers :: peer_table

text \<open>\<open>bootstrap::pmix_error\<close>: a raw status, or the generic error when it is unknown.\<close>

definition pmix_error_raw :: "'x bindings \<Rightarrow> int \<Rightarrow> error" where
  "pmix_error_raw B status =
     Pmix (case pmix_from_raw (pmix B) status of Some e \<Rightarrow> e | None \<Rightarrow> pmix_generic (pmix B))"

definition pmix_raw_call :: "'x bindings \<Rightarrow> ('x, int, 'a) call \<Rightarrow> ('x world, error, 'a) io" where
  "pmix_raw_call B f = io_call (pmix_error_raw B) f"

definition put_bytes :: "'x bindings \<Rightarrow> bytes \<Rightarrow> bytes \<Rightarrow> ('x world, error, unit) io" where
  "put_bytes B key bs =
     io_bind (io_call (\<lambda>_. Usage ''bootstrap byte value must not be empty'')
                (pmix_byte_object (pmix B) bs)) (\<lambda>builder.
     io_bind (io_call (\<lambda>_. Usage ''failed to build bootstrap byte value'')
                (pmix_build (pmix B) builder)) (\<lambda>val.
     pmix_raw_call B (pmix_put_value (pmix B) (scope_global (pmix B)) key val)))"

text \<open>Steps one to three: publish, commit, fence.\<close>

definition publish ::
  "'x bindings \<Rightarrow> handle \<Rightarrow> ucx_transport \<Rightarrow> symheap \<Rightarrow> ('x world, error, unit) io"
where
  "publish B client t h =
     io_seq (put_bytes B WORKER_ADDR_KEY (tr_packed_address t))
     (io_seq (put_bytes B HEAP_RKEY_KEY (sh_packed_rkey h))
     (io_bind (io_step (pmix_uint64_object (pmix B) (sh_local_base h))) (\<lambda>builder.
      io_bind (io_call (\<lambda>_. Usage ''failed to build heap base value'')
                 (pmix_build (pmix B) builder)) (\<lambda>base.
      io_seq (pmix_raw_call B
                (pmix_put_value (pmix B) (scope_global (pmix B)) HEAP_BASE_KEY base))
     (io_seq (pmix_raw_call B (pmix_commit (pmix B)))
     (io_bind (pmix_call B (pmix_proc (pmix B) client (rank_wildcard (pmix B)))) (\<lambda>wildcard.
      pmix_raw_call B (pmix_fence (pmix B) wildcard))))))))"

text \<open>Step four for one peer: its metadata, an endpoint, its unpacked rkey.\<close>

definition connect_peer ::
  "'x bindings \<Rightarrow> handle \<Rightarrow> ucx_transport \<Rightarrow> u32 \<Rightarrow>
   ('x world, error, bytes \<times> peer_connection) io"
where
  "connect_peer B client t pe =
     io_bind (pmix_call B (pmix_proc (pmix B) client pe)) (\<lambda>peer_proc.
     io_bind (pmix_call B (pmix_get_value (pmix B) peer_proc WORKER_ADDR_GET_KEY)) (\<lambda>v1.
     io_bind (io_step (value_bytes_copy (pmix B) v1)) (\<lambda>address.
     io_bind (pmix_call B (pmix_get_value (pmix B) peer_proc HEAP_RKEY_GET_KEY)) (\<lambda>v2.
     io_bind (io_step (value_bytes_copy (pmix B) v2)) (\<lambda>rkey_bytes.
     io_bind (pmix_call B (pmix_get_value (pmix B) peer_proc HEAP_BASE_GET_KEY)) (\<lambda>v3.
     io_bind (io_step (value_uint64 (pmix B) v3)) (\<lambda>heap_base.
     if address = [] \<or> length rkey_bytes < 4 \<or> heap_base = 0
     then io_err (Internal ''peer published incomplete bootstrap metadata'')
     else
       io_bind (create_endpoint B t address) (\<lambda>endpoint.
       io_bind (io_on_fail (release B (R_Endpoint endpoint))
                  (ucx_call B (rkey_unpack (ucx B) endpoint rkey_bytes))) (\<lambda>rkey.
       io_return (rkey_bytes,
         \<lparr>pc_endpoint = endpoint, pc_rkey = rkey, pc_heap_base = heap_base\<rparr>))))))))))"

text \<open>A connection's fields are dropped in declaration order, a map's values in key order.\<close>

definition drop_peer :: "peer_connection \<Rightarrow> resource list" where
  "drop_peer c = [R_Endpoint (pc_endpoint c), R_Rkey (pc_rkey c)]"

definition drop_peers :: "peer_table \<Rightarrow> resource list" where
  "drop_peers m = concat (map drop_peer (btree_values m))"

text \<open>The loop over the peers; connections already made are dropped when a later one fails.\<close>

fun connect_peers ::
  "'x bindings \<Rightarrow> handle \<Rightarrow> ucx_transport \<Rightarrow> u32 list \<Rightarrow> bootstrap \<Rightarrow>
   ('x world, error, bootstrap) io"
where
  "connect_peers B client t [] b = io_return b"
| "connect_peers B client t (pe # pes) b =
     io_bind (io_on_fail (release_all B (drop_peers (bs_peers b))) (connect_peer B client t pe))
       (\<lambda>(rkey_bytes, c).
         connect_peers B client t pes
           \<lparr>bs_peer_rkeys = peer_rkeys_insert (bs_peer_rkeys b) pe (pc_heap_base c) rkey_bytes,
            bs_peers = btree_insert pe c (bs_peers b)\<rparr>)"

text \<open>\<open>for pe in 0..size as u32\<close>: the job size is truncated to 32 bits.\<close>

definition peer_range :: "usize \<Rightarrow> u32 list" where
  "peer_range sz = map of_nat [0..<unat (ucast sz :: u32)]"

definition handshake ::
  "'x bindings \<Rightarrow> handle \<Rightarrow> ucx_transport \<Rightarrow> symheap \<Rightarrow> usize \<Rightarrow> ('x world, error, bootstrap) io"
where
  "handshake B client t h sz =
     (if sz = 0 then io_err (Usage ''bootstrap job size must be nonzero'')
      else
        io_seq (publish B client t h)
          (connect_peers B client t (peer_range sz)
             \<lparr>bs_peer_rkeys = btree_empty, bs_peers = btree_empty\<rparr>))"

end
