(* ===== verification/Coll_Runtime.thy ===== *)
theory Coll_Runtime
  imports Bootstrap
begin

text \<open>
  \<open>src/coll.rs\<close>, the runtime of the collectives: the out-of-band allgather that UCC calls back
  to build its team (over the PMIx store), its boxed requests, and \<open>Runtime::new\<close>. A pointer
  argument is \<open>None\<close> when it is null; reading or writing outside a buffer, or using a
  request that was freed, is undefined behaviour and has no result.
\<close>

definition OOB_KEY :: bytes where
  "OOB_KEY = cstr ''openshmem.ucc.oob'' @ [0]"

text \<open>\<open>CStr::from_bytes_with_nul\<close>: exactly one NUL, at the end.\<close>

definition cstr_from_bytes :: "bytes \<Rightarrow> bytes option" where
  "cstr_from_bytes bs =
     (if bs \<noteq> [] \<and> last bs = 0 \<and> 0 \<notin> set (butlast bs) then Some (butlast bs) else None)"

text \<open>\<open>slice::from_raw_parts\<close> and \<open>ptr::copy_nonoverlapping\<close> on a buffer.\<close>

definition raw_read :: "nat \<Rightarrow> nat \<Rightarrow> ('x world, 'e, bytes) io" where
  "raw_read b n w = (if n \<le> length (w_bufs w b) then Some (Ok (take n (w_bufs w b)), w) else None)"

definition raw_write :: "nat \<Rightarrow> nat \<Rightarrow> bytes \<Rightarrow> ('x world, 'e, unit) io" where
  "raw_write b off bs w =
     (if off + length bs \<le> length (w_bufs w b) then
        Some (Ok (), w\<lparr>w_bufs := (w_bufs w)(b :=
          take off (w_bufs w b) @ bs @ drop (off + length bs) (w_bufs w b))\<rparr>)
      else None)"

text \<open>The loop over the peers: contributions are copied in rank order.\<close>

fun oob_collect ::
  "'x bindings \<Rightarrow> oob_state \<Rightarrow> nat \<Rightarrow> usize \<Rightarrow> u32 list \<Rightarrow> ('x world, unit, unit) io"
where
  "oob_collect B st dst len [] = io_return ()"
| "oob_collect B st dst len (peer # peers) =
     io_bind (io_call (\<lambda>_. ()) (pmix_proc (pmix B) (oob_client st) peer)) (\<lambda>proc.
     io_bind (io_call (\<lambda>_. ()) (pmix_get_value (pmix B) proc OOB_KEY)) (\<lambda>val.
     io_bind (io_step (value_bytes_copy (pmix B) val)) (\<lambda>peer_bytes.
     if length peer_bytes \<noteq> unat len then io_err ()
     else
       io_bind (io_lift (mul_op (ucast peer) len)) (\<lambda>off.
       io_seq (raw_write dst (unat off) peer_bytes)
         (oob_collect B st dst len peers)))))"

definition oob_exchange ::
  "'x bindings \<Rightarrow> oob_state \<Rightarrow> nat \<Rightarrow> nat \<Rightarrow> usize \<Rightarrow> ('x world, unit, unit) io"
where
  "oob_exchange B st src dst len =
     io_bind (raw_read src (unat len)) (\<lambda>bs.
     io_bind (io_lift (ok_or (cstr_from_bytes OOB_KEY) ())) (\<lambda>key.
     io_bind (io_call (\<lambda>_. ()) (pmix_byte_object (pmix B) bs)) (\<lambda>builder.
     io_bind (io_call (\<lambda>_. ()) (pmix_build (pmix B) builder)) (\<lambda>val.
     io_seq (io_call (\<lambda>_. ()) (pmix_put_value (pmix B) (scope_global (pmix B)) key val))
     (io_seq (io_call (\<lambda>_. ()) (pmix_commit (pmix B)))
     (io_bind (io_call (\<lambda>_. ()) (pmix_proc (pmix B) (oob_client st) (rank_wildcard (pmix B))))
       (\<lambda>wildcard.
     io_seq (io_call (\<lambda>_. ()) (pmix_fence (pmix B) wildcard))
       (oob_collect B st dst len (map of_nat [0..<unat (oob_size st)])))))))))"

text \<open>The callback. A panic cannot cross into C and aborts the process.\<close>

definition allgather :: "'x bindings \<Rightarrow> 'x allgather_fn" where
  "allgather B src dst len info request w =
     (case (src, dst, info) of
        (Some s, Some d, Some st) \<Rightarrow>
          if \<not> request \<or> len = 0 then Some ((-27, None), w)
          else (case oob_exchange B st s d len w of
              None \<Rightarrow> None
            | Some (Panic, w') \<Rightarrow> None
            | Some (r, w') \<Rightarrow>
                (let status = (case r of Ok _ \<Rightarrow> 0 | _ \<Rightarrow> -1)
                 in Some ((status, Some (w_next w')),
                      w'\<lparr>w_reqs := (w_reqs w')(w_next w' \<mapsto> status), w_next := Suc (w_next w')\<rparr>)))
      | _ \<Rightarrow> Some ((-27, None), w))"

definition req_test :: "'x request_fn" where
  "req_test request w = (case request of
      None \<Rightarrow> Some (-27, w)
    | Some r \<Rightarrow> (case w_reqs w r of None \<Rightarrow> None | Some status \<Rightarrow> Some (status, w)))"

definition req_free :: "'x request_fn" where
  "req_free request w = (case request of
      None \<Rightarrow> Some (-27, w)
    | Some r \<Rightarrow> (case w_reqs w r of
          None \<Rightarrow> None
        | Some _ \<Rightarrow> Some (0, w\<lparr>w_reqs := (w_reqs w)(r := None)\<rparr>)))"

section \<open>The runtime\<close>

record runtime =
  rt_team :: handle
  rt_context :: handle
  rt_lib :: handle
  rt_oob :: oob_state

definition ucc_oob :: "'x bindings \<Rightarrow> oob_state \<Rightarrow> u32 \<Rightarrow> u32 \<Rightarrow> 'x oob_table" where
  "ucc_oob B oob rank sz =
     \<lparr>ot_allgather = allgather B, ot_req_test = req_test, ot_req_free = req_free,
      ot_coll_info = oob, ot_n_oob_eps = sz, ot_oob_ep = rank\<rparr>"

definition runtime_new ::
  "'x bindings \<Rightarrow> handle \<Rightarrow> u32 \<Rightarrow> usize \<Rightarrow> ('x world, error, runtime) io"
where
  "runtime_new B client rank job_size =
     io_bind (io_on_fail (release B (R_Client client))
       (io_lift (ok_or (u32_try_from job_size) (Usage ''job size exceeds UCC limits'')))) (\<lambda>sz.
     let oob = \<lparr>oob_client = client, oob_rank = rank, oob_size = sz\<rparr> in
     io_on_fail (release B R_Oob)
       (io_bind (ucc_call (ucc_lib_init (ucc B))) (\<lambda>lib.
        io_on_fail (release B (R_Ucc_Lib lib))
          (io_bind (ucc_call (ucc_context_new (ucc B) lib)) (\<lambda>context.
           io_on_fail (release B (R_Ucc_Context context))
             (io_bind (ucc_call (ucc_team_with_params (ucc B) context (ucast sz)
                                   (ucc_oob B oob rank sz))) (\<lambda>team.
              io_return \<lparr>rt_team = team, rt_context = context, rt_lib = lib, rt_oob = oob\<rparr>)))))))"

definition drop_runtime :: "runtime \<Rightarrow> resource list" where
  "drop_runtime rt =
     [R_Team (rt_team rt), R_Ucc_Context (rt_context rt), R_Ucc_Lib (rt_lib rt), R_Oob]"

lemma runtime_new_no_panic [no_panic_intros]: "no_panic (runtime_new B client rank n)"
  unfolding runtime_new_def Let_def by (intro no_panic_intros) simp_all

end
