(* ===== verification/Init.thy ===== *)
theory Init
  imports Coll_Runtime SymHeap_Props
begin

text \<open>
  \<open>src/init.rs\<close>: the process-global state behind a mutex, initialisation with the clean-up of
  every failing step, the identity queries, finalisation; and the module-level functions of
  \<open>src/symheap.rs\<close> that run on that state. A \<open>sys\<close> is what the process sees: the mutex
  (poisoned by a panic under the lock), the optional state in it, and the world.
\<close>

record shmem_state =
  st_peers :: peer_table
  st_heap :: symheap
  st_transport :: ucx_transport
  st_collectives :: "runtime option"
  st_client :: handle
  st_rank :: u32
  st_size :: usize
  st_peer_rkeys :: peer_rkeys

record 'x sys =
  sy_poisoned :: bool
  sy_state :: "shmem_state option"
  sy_world :: "'x world"

section \<open>The lock\<close>

text \<open>A call that holds the lock from start to end: it sees and replaces the state, and a panic
  in it poisons the mutex.\<close>

definition with_lock ::
  "(shmem_state option \<Rightarrow> 'x world \<Rightarrow> ('a result \<times> shmem_state option \<times> 'x world) option) \<Rightarrow>
   ('x sys, error, 'a) io"
where
  "with_lock body s =
     (if sy_poisoned s then Some (Err (Internal ''lifecycle state lock poisoned''), s)
      else (case body (sy_state s) (sy_world s) of
          None \<Rightarrow> None
        | Some (r, st, w) \<Rightarrow>
            Some (r, \<lparr>sy_poisoned = is_panic r, sy_state = st, sy_world = w\<rparr>)))"

definition with_state ::
  "(shmem_state \<Rightarrow> ('x world, error, 'a) io) \<Rightarrow> ('x sys, error, 'a) io"
where
  "with_state operation = with_lock (\<lambda>st w. case st of
      None \<Rightarrow> Some (Err NotInitialized, None, w)
    | Some s \<Rightarrow> (case operation s w of None \<Rightarrow> None | Some (r, w') \<Rightarrow> Some (r, Some s, w')))"

definition with_state_mut ::
  "(shmem_state \<Rightarrow> 'a result \<times> shmem_state) \<Rightarrow> ('x sys, error, 'a) io"
where
  "with_state_mut operation = with_lock (\<lambda>st w. case st of
      None \<Rightarrow> Some (Err NotInitialized, None, w)
    | Some s \<Rightarrow> (case operation s of (r, s') \<Rightarrow> Some (r, Some s', w)))"

section \<open>Initialisation\<close>

text \<open>Fields are dropped in declaration order.\<close>

definition drop_state :: "shmem_state \<Rightarrow> resource list" where
  "drop_state s =
     drop_peers (st_peers s) @ drop_heap (st_heap s) @ drop_transport (st_transport s) @
     (case st_collectives s of None \<Rightarrow> [] | Some rt \<Rightarrow> drop_runtime rt) @
     [R_Client (st_client s)]"

text \<open>\<open>let _ = client.disconnect(None)\<close>.\<close>

definition disconnect_ignored :: "'x bindings \<Rightarrow> handle \<Rightarrow> 'x world \<Rightarrow> 'x world" where
  "disconnect_ignored B client w = snd (pmix_disconnect (pmix B) client w)"

text \<open>The job size: from PMIx, else from the environment.\<close>

definition job_size :: "'x bindings \<Rightarrow> handle \<Rightarrow> ('x world, error, usize option) io" where
  "job_size B client =
     io_bind (io_ok (io_bind (io_call (\<lambda>_. ()) (pmix_proc (pmix B) client (rank_wildcard (pmix B))))
        (\<lambda>wildcard. io_bind (io_call (\<lambda>_. ())
           (pmix_get_value (pmix B) wildcard (job_size_key (pmix B)))) (\<lambda>val.
         io_bind (io_step (value_uint32 (pmix B) val)) (\<lambda>n. io_return (ucast n))))))
       (\<lambda>published. case published of
          Some n \<Rightarrow> io_return (Some n)
        | None \<Rightarrow> (\<lambda>w. io_return (Option.bind (w_env w ''PMIX_SIZE'') parse_usize) w))"

text \<open>\<open>init\<close> up to the installation of the state: each failing step disconnects the client and
  drops what the earlier steps built, the latest first.\<close>

definition init_state :: "'x bindings \<Rightarrow> ('x world, error, shmem_state) io" where
  "init_state B =
     io_bind (pmix_call B (pmix_connect_new (pmix B))) (\<lambda>client.
     io_on_fail (release B (R_Client client))
       (io_bind (io_step (pmix_require_rank (pmix B) client)) (\<lambda>rank.
        io_bind (io_on_err (disconnect_ignored B client) (transport_new B 1)) (\<lambda>transport.
        io_on_fail (release_all B (drop_transport transport))
          (io_bind (io_on_err (disconnect_ignored B client)
                      (heap_new B (tr_context transport))) (\<lambda>h.
           io_on_fail (release_all B (drop_heap h))
             (io_bind (job_size B client) (\<lambda>found. case found of
                None \<Rightarrow>
                  io_on_err (disconnect_ignored B client) (io_err (Internal
                    ''PMIx job size unavailable and PMIX_SIZE is not set to a valid value''))
              | Some sz \<Rightarrow>
                  io_bind (io_on_err (disconnect_ignored B client)
                             (handshake B client transport h sz)) (\<lambda>b.
                  io_return
                    \<lparr>st_peers = bs_peers b, st_heap = h, st_transport = transport,
                     st_collectives = None, st_client = client, st_rank = rank,
                     st_size = sz, st_peer_rkeys = bs_peer_rkeys b\<rparr>)))))))))"

text \<open>The rest of \<open>init\<close>: with the feature \<open>collectives\<close>, the runtime is added to the
  installed state, and its failure removes the state again.\<close>

definition install ::
  "'x bindings \<Rightarrow> bool \<Rightarrow> shmem_state \<Rightarrow> 'x world \<Rightarrow>
   (unit result \<times> shmem_state option \<times> 'x world) option"
where
  "install B collectives s w =
     (if \<not> collectives then Some (Ok (), Some s, w)
      else (case runtime_new B (st_client s) (st_rank s) (st_size s) w of
          None \<Rightarrow> None
        | Some (Ok rt, w') \<Rightarrow> Some (Ok (), Some (s\<lparr>st_collectives := Some rt\<rparr>), w')
        | Some (Err e, w') \<Rightarrow>
            Some (Err e, None,
              release_all B (drop_state s) (disconnect_ignored B (st_client s) w'))
        | Some (Panic, w') \<Rightarrow> Some (Panic, Some s, w')))"

definition init :: "'x bindings \<Rightarrow> bool \<Rightarrow> ('x sys, error, unit) io" where
  "init B collectives = with_lock (\<lambda>st w.
     if st \<noteq> None then Some (Err AlreadyInitialized, st, w)
     else (case init_state B w of
         None \<Rightarrow> None
       | Some (Ok s, w') \<Rightarrow> install B collectives s w'
       | Some (Err e, w') \<Rightarrow> Some (Err e, None, w')
       | Some (Panic, w') \<Rightarrow> Some (Panic, None, w')))"

section \<open>Queries and finalisation\<close>

definition my_pe :: "('x sys, error, u32) io" where
  "my_pe = with_lock (\<lambda>st w. Some (ok_or (map_option st_rank st) NotInitialized, st, w))"

definition n_pes :: "('x sys, error, usize) io" where
  "n_pes = with_lock (\<lambda>st w. Some (ok_or (map_option st_size st) NotInitialized, st, w))"

text \<open>The state is taken out first; the client is disconnected, then everything is dropped,
  whatever the disconnection returned.\<close>

definition finalize :: "'x bindings \<Rightarrow> ('x sys, error, unit) io" where
  "finalize B = with_lock (\<lambda>st w. case st of
      None \<Rightarrow> Some (Ok (), None, w)
    | Some s \<Rightarrow> (case pmix_disconnect (pmix B) (st_client s) w of
          (Inl status, w') \<Rightarrow>
            Some (Err (pmix_error_raw B status), None, release_all B (drop_state s) w')
        | (Inr _, w') \<Rightarrow> Some (Ok (), None, release_all B (drop_state s) w')))"

section \<open>The heap of the process\<close>

definition symheap_malloc :: "usize \<Rightarrow> ('x sys, error, symptr) io" where
  "symheap_malloc sz = with_state_mut (\<lambda>s.
     case heap_malloc (st_heap s) sz of (r, h) \<Rightarrow> (r, s\<lparr>st_heap := h\<rparr>))"

definition symheap_free :: "symptr \<Rightarrow> ('x sys, error, unit) io" where
  "symheap_free p = with_state_mut (\<lambda>s.
     case heap_free (st_heap s) p of (r, h) \<Rightarrow> (r, s\<lparr>st_heap := h\<rparr>))"

definition symheap_heap_base :: "('x sys, error, u64) io" where
  "symheap_heap_base = with_state (\<lambda>s. io_return (sh_local_base (st_heap s)))"

end
