(* ===== verification/Rma.thy ===== *)
theory Rma
  imports Init
begin

text \<open>
  \<open>src/rma.rs\<close>, remote memory access: the check and translation of a remote address, raw and
  typed put and get, ordering (\<open>fence\<close>) and completion (\<open>quiet\<close>). Each call runs under the
  lifecycle lock. \<open>complete_request\<close> (\<open>Transport\<close>) is also the code that \<open>putmem\<close>,
  \<open>getmem\<close> and the quiet calls inline.
\<close>

definition peer_and_address ::
  "shmem_state \<Rightarrow> usize \<Rightarrow> usize \<Rightarrow> usize \<Rightarrow> (peer_connection \<times> u64) result"
where
  "peer_and_address s pe offset len =
     outcome_bind (ok_or (u32_try_from pe) (Usage ''PE number is out of range'')) (\<lambda>pe32.
     outcome_bind (ok_or (btree_get (st_peers s) pe32)
                     (Usage ''PE number is not in the job'')) (\<lambda>peer.
     outcome_bind (ok_or (checked_add (pc_heap_base peer) offset)
                     (Usage ''RMA address overflow'')) (\<lambda>address.
     outcome_bind (ok_or (checked_add offset len) (Usage ''RMA range overflow'')) (\<lambda>_.
       Ok (peer, address)))))"

section \<open>Put and get\<close>

definition putmem :: "'x bindings \<Rightarrow> usize \<Rightarrow> bytes \<Rightarrow> usize \<Rightarrow> ('x sys, error, unit) io" where
  "putmem B dst_pe bs dst_offset = with_state (\<lambda>s.
     io_bind (io_lift (peer_and_address s dst_pe dst_offset (of_nat (length bs))))
       (\<lambda>(peer, address).
        if bs = [] then io_return ()
        else
          io_bind (ucx_call B (rma_put (ucx B) (pc_endpoint peer) bs address (pc_rkey peer)))
            (complete_request B (st_transport s))))"

definition getmem :: "'x bindings \<Rightarrow> usize \<Rightarrow> usize \<Rightarrow> usize \<Rightarrow> ('x sys, error, bytes) io" where
  "getmem B src_pe src_offset len = with_state (\<lambda>s.
     io_bind (io_lift (peer_and_address s src_pe src_offset len)) (\<lambda>(peer, address).
     io_bind (vec_zeroed_u8 len) (\<lambda>buf.
     if len = 0 then io_step (buf_get buf)
     else
       io_bind (ucx_call B (rma_get (ucx B) (pc_endpoint peer) buf address (pc_rkey peer)))
         (\<lambda>request. io_seq (complete_request B (st_transport s) request)
           (io_step (buf_get buf))))))"

definition put_typed ::
  "'x bindings \<Rightarrow> 'a pod \<Rightarrow> usize \<Rightarrow> 'a list \<Rightarrow> usize \<Rightarrow> ('x sys, error, unit) io"
where
  "put_typed B T dst_pe src dst_offset =
     io_bind (io_lift (pod_as_bytes T src)) (\<lambda>bs. putmem B dst_pe bs dst_offset)"

definition get_typed ::
  "'x bindings \<Rightarrow> 'a pod \<Rightarrow> usize \<Rightarrow> usize \<Rightarrow> usize \<Rightarrow> ('x sys, error, 'a list) io"
where
  "get_typed B T src_pe src_offset len_elems =
     io_bind (io_lift (ok_or (checked_mul len_elems (pod_size T))
                         (Usage ''typed RMA length overflow''))) (\<lambda>len.
     io_bind (getmem B src_pe src_offset len) (\<lambda>bs.
     io_lift (collect_results (map (pod_decode T) (chunks_exact (unat (pod_size T)) bs)))))"

section \<open>Ordering and completion\<close>

definition fence :: "'x bindings \<Rightarrow> ('x sys, error, unit) io" where
  "fence B = with_state (\<lambda>s. transport_fence B (st_transport s))"

definition flush_peer ::
  "'x bindings \<Rightarrow> ucx_transport \<Rightarrow> peer_connection \<Rightarrow> ('x world, error, unit) io"
where
  "flush_peer B t peer =
     io_bind (ucx_call B (ep_flush (ucx B) (pc_endpoint peer))) (complete_request B t)"

fun flush_peers ::
  "'x bindings \<Rightarrow> ucx_transport \<Rightarrow> peer_connection list \<Rightarrow> ('x world, error, unit) io"
where
  "flush_peers B t [] = io_return ()"
| "flush_peers B t (peer # peers) = io_seq (flush_peer B t peer) (flush_peers B t peers)"

definition quiet :: "'x bindings \<Rightarrow> ('x sys, error, unit) io" where
  "quiet B = with_state (\<lambda>s. flush_peers B (st_transport s) (btree_values (st_peers s)))"

definition quiet_pe :: "'x bindings \<Rightarrow> usize \<Rightarrow> ('x sys, error, unit) io" where
  "quiet_pe B pe = with_state (\<lambda>s.
     io_bind (io_lift (ok_or (u32_try_from pe) (Usage ''PE number is out of range''))) (\<lambda>pe32.
     io_bind (io_lift (ok_or (btree_get (st_peers s) pe32)
                         (Usage ''PE number is not in the job''))) (\<lambda>peer.
     flush_peer B (st_transport s) peer)))"

definition quiet_all :: "'x bindings \<Rightarrow> ('x sys, error, unit) io" where
  "quiet_all B = quiet B"

section \<open>Address checks\<close>

text \<open>Exactly which requests pass the check, and where they go.\<close>

lemma peer_and_address_eq_Ok:
  "peer_and_address s pe off len = Ok (peer, address) \<longleftrightarrow>
     unat pe < 2 ^ 32 \<and> btree_get (st_peers s) (ucast pe) = Some peer \<and>
     unat address = unat (pc_heap_base peer) + unat off \<and> unat off + unat len < 2 ^ 64"
proof -
  have "\<exists>c :: u64. unat c = unat off + unat len" if "unat off + unat len < 2 ^ 64"
    using that by (intro exI [of _ "off + len"]) (simp add: unat_word_ariths)
  moreover have "unat off + unat len < 2 ^ 64" if "unat (c :: u64) = unat off + unat len" for c
    using unsigned_less [of c, where ?'a = nat] that by simp
  ultimately show ?thesis
    by (auto simp: peer_and_address_def outcome_bind_eq_Ok u32_try_from_def)
qed

lemma checked_step_no_panic: "(\<And>a. f a \<noteq> Panic) \<Longrightarrow> outcome_bind (ok_or x e) f \<noteq> Panic"
  by (cases x) simp_all

lemma peer_and_address_no_panic [simp]: "peer_and_address s pe off len \<noteq> Panic"
  unfolding peer_and_address_def by (intro checked_step_no_panic) simp

lemma flush_peer_no_panic [no_panic_intros]: "no_panic (flush_peer B t p)"
  unfolding flush_peer_def by (intro no_panic_intros)

lemma flush_peers_no_panic [no_panic_intros]: "no_panic (flush_peers B t ps)"
  by (induction ps) (simp_all add: no_panic_intros)

end
