(* ===== verification/Coll.thy ===== *)
theory Coll
  imports Init
begin

text \<open>
  \<open>src/coll.rs\<close>, the collectives: the codec between typed slices and the byte buffers given to
  UCC, the blocking operations, and the non-blocking ones with their request object. A caller's
  mutable slice is a buffer of the world and a number of elements, so that a non-blocking
  request can keep a pointer to it; the collective itself works on a separate encoded buffer.
\<close>

section \<open>Encoding and decoding\<close>

definition encode :: "'a pod \<Rightarrow> 'a list \<Rightarrow> bytes result" where
  "encode T values =
     outcome_bind (ok_or (checked_mul (of_nat (length values)) (pod_size T))
                     (Usage ''collective buffer size overflow'')) (\<lambda>capacity.
     if isize_max < unat capacity then Panic
     else Ok (fold (pod_encode T) values []))"

text \<open>The loop over the zipped elements and chunks: what was decoded before a failing chunk
  stays written.\<close>

fun decode_loop :: "'a pod \<Rightarrow> 'a list \<Rightarrow> bytes list \<Rightarrow> unit result \<times> 'a list" where
  "decode_loop T [] chunks = (Ok (), [])"
| "decode_loop T (v # vs) [] = (Ok (), v # vs)"
| "decode_loop T (v # vs) (chunk # chunks) = (case pod_decode T chunk of
      Ok x \<Rightarrow> (case decode_loop T vs chunks of (r, vs') \<Rightarrow> (r, x # vs'))
    | Err e \<Rightarrow> (Err e, v # vs)
    | Panic \<Rightarrow> (Panic, v # vs))"

definition decode :: "'a pod \<Rightarrow> bytes \<Rightarrow> 'a list \<Rightarrow> unit result \<times> 'a list" where
  "decode T bs values = (case checked_mul (of_nat (length values)) (pod_size T) of
      None \<Rightarrow> (Err (Usage ''collective buffer size overflow''), values)
    | Some expected \<Rightarrow>
        if length bs \<noteq> unat expected
        then (Err (Usage ''collective buffer has an invalid byte length''), values)
        else decode_loop T values (chunks_exact (unat (pod_size T)) bs))"

text \<open>The slice of \<open>n\<close> elements at a buffer, and writing one back.\<close>

definition slice_values :: "'a pod \<Rightarrow> nat \<Rightarrow> usize \<Rightarrow> 'x world \<Rightarrow> 'a list" where
  "slice_values T d n w =
     map (\<lambda>i. pod_value T (take (unat (pod_size T)) (drop (i * unat (pod_size T)) (w_bufs w d))))
       [0..<unat n]"

definition slice_store :: "'a pod \<Rightarrow> nat \<Rightarrow> 'a list \<Rightarrow> 'x world \<Rightarrow> 'x world" where
  "slice_store T d xs w =
     (let bs = slice_bytes T xs in
      w\<lparr>w_bufs := (w_bufs w)(d := bs @ drop (length bs) (w_bufs w d))\<rparr>)"

text \<open>\<open>decode_to\<close>: decode into the slice behind a raw pointer.\<close>

definition decode_to ::
  "'a pod \<Rightarrow> bytes \<Rightarrow> nat \<Rightarrow> usize \<Rightarrow> 'x world \<Rightarrow> unit result \<times> 'x world"
where
  "decode_to T bs destination count w =
     (case decode T bs (slice_values T destination count w) of
        (r, values) \<Rightarrow> (r, slice_store T destination values w))"

section \<open>Waiting for a collective\<close>

definition coll_wait_body ::
  "'x bindings \<Rightarrow> handle \<Rightarrow> handle \<Rightarrow> 'x world \<Rightarrow> unit option result \<times> 'x world"
where
  "coll_wait_body B context coll w = (case coll_status (ucc B) coll w of (status, w') \<Rightarrow>
     if status = ucc_ok (ucc B) then
       (case coll_finalize (ucc B) coll w' of
          (Inl e, w'') \<Rightarrow> (Err (map_ucc e), w'')
        | (Inr _, w'') \<Rightarrow> (Ok (Some ()), w''))
     else if status \<noteq> ucc_no_message (ucc B) then
       (Err (map_ucc (ucc_from_raw (ucc B) status)), w')
     else (Ok None, ucc_progress (ucc B) context w'))"

definition coll_wait :: "'x bindings \<Rightarrow> handle \<Rightarrow> handle \<Rightarrow> ('x world, error, unit) io" where
  "coll_wait B context coll =
     io_finally (release B (R_Coll coll)) (poll_loop (coll_wait_body B context coll))"

text \<open>\<open>builder.init(&team)\<close> and \<open>op.post()\<close>: an operation that was not posted is dropped.\<close>

definition coll_start ::
  "'x bindings \<Rightarrow> runtime \<Rightarrow> coll_args \<Rightarrow> ('x world, error, handle) io"
where
  "coll_start B rt args =
     io_bind (ucc_call (coll_init (ucc B) args (rt_team rt))) (\<lambda>coll.
     io_seq (io_on_fail (release B (R_Coll coll)) (ucc_call (coll_post (ucc B) coll)))
       (io_return coll))"

text \<open>\<open>state.collectives.as_ref().ok_or(..)\<close> under the lifecycle lock.\<close>

definition with_runtime ::
  "(runtime \<Rightarrow> ('x world, error, 'a) io) \<Rightarrow> ('x sys, error, 'a) io"
where
  "with_runtime operation = with_state (\<lambda>s.
     io_bind (io_lift (ok_or (st_collectives s) (Internal ''collectives are not initialized'')))
       operation)"

text \<open>A step outside the lock.\<close>

definition outside_lock :: "('x world, error, 'a) io \<Rightarrow> ('x sys, error, 'a) io" where
  "outside_lock m s = (case m (sy_world s) of
      None \<Rightarrow> None | Some (r, w) \<Rightarrow> Some (r, s\<lparr>sy_world := w\<rparr>))"

definition encode_slice ::
  "'a pod \<Rightarrow> nat \<Rightarrow> usize \<Rightarrow> ('x sys, error, nat) io"
where
  "encode_slice T d n = outside_lock (\<lambda>w.
     io_bind (io_lift (encode T (slice_values T d n w))) (\<lambda>bs. io_step (buf_new bs)) w)"

definition decode_slice ::
  "'a pod \<Rightarrow> nat \<Rightarrow> nat \<Rightarrow> usize \<Rightarrow> ('x sys, error, unit) io"
where
  "decode_slice T buf d n = outside_lock (\<lambda>w. Some (decode_to T (w_bufs w buf) d n w))"

definition team_size :: "'x bindings \<Rightarrow> runtime \<Rightarrow> ('x world, error, usize) io" where
  "team_size B rt = io_bind (ucc_call (ucc_team_size (ucc B) (rt_team rt)))
     (\<lambda>n. io_return (ucast n))"

definition barrier_args :: "nat \<Rightarrow> coll_args" where
  "barrier_args stub =
     \<lparr>ca_type = Coll_Barrier, ca_inplace = Some stub, ca_src = None, ca_dst = None,
      ca_count = 1, ca_dtype = None, ca_root = None, ca_op = None\<rparr>"

definition broadcast_args :: "'a pod \<Rightarrow> nat \<Rightarrow> usize \<Rightarrow> usize \<Rightarrow> coll_args" where
  "broadcast_args T buf n root =
     \<lparr>ca_type = Coll_Broadcast, ca_inplace = Some buf, ca_src = None, ca_dst = None,
      ca_count = n, ca_dtype = Some (pod_ucc_datatype T), ca_root = Some root, ca_op = None\<rparr>"

definition collect_args :: "'a pod \<Rightarrow> nat \<Rightarrow> nat \<Rightarrow> usize \<Rightarrow> coll_args" where
  "collect_args T send recv n =
     \<lparr>ca_type = Coll_Allgather, ca_inplace = None, ca_src = Some send, ca_dst = Some recv,
      ca_count = n, ca_dtype = Some (pod_ucc_datatype T), ca_root = None, ca_op = None\<rparr>"

definition reduce_args :: "'a pod \<Rightarrow> nat \<Rightarrow> usize \<Rightarrow> ucc_reduction_op \<Rightarrow> coll_args" where
  "reduce_args T buf n rop =
     \<lparr>ca_type = Coll_Allreduce, ca_inplace = Some buf, ca_src = None, ca_dst = None,
      ca_count = n, ca_dtype = Some (pod_ucc_datatype T), ca_root = None, ca_op = Some rop\<rparr>"

section \<open>Blocking collectives\<close>

definition barrier :: "'x bindings \<Rightarrow> ('x sys, error, unit) io" where
  "barrier B = with_runtime (\<lambda>rt.
     io_bind (io_step (buf_new [0])) (\<lambda>stub.
     io_bind (coll_start B rt (barrier_args stub)) (coll_wait B (rt_context rt))))"

definition broadcast ::
  "'x bindings \<Rightarrow> 'a pod \<Rightarrow> usize \<Rightarrow> nat \<Rightarrow> usize \<Rightarrow> ('x sys, error, unit) io"
where
  "broadcast B T root d n =
     (if n = 0 then io_err (Usage ''collective buffer must be non-empty'')
      else
        io_bind (encode_slice T d n) (\<lambda>buf.
        io_seq (with_runtime (\<lambda>rt.
          io_bind (team_size B rt) (\<lambda>sz.
          if sz \<le> root then io_err (Usage ''broadcast root is outside the UCC team'')
          else
            io_bind (coll_start B rt (broadcast_args T buf n root))
              (coll_wait B (rt_context rt)))))
          (decode_slice T buf d n)))"

text \<open>What \<open>collect\<close> makes of the received bytes: one part per rank, decoded and flattened.\<close>

definition collect_decode :: "'a pod \<Rightarrow> nat \<Rightarrow> bytes \<Rightarrow> 'a list result" where
  "collect_decode T send_len recv =
     outcome_bind (collect_results (map (\<lambda>chunk.
         collect_results (map (pod_decode T) (chunks_exact (unat (pod_size T)) chunk)))
       (chunks_exact send_len recv)))
       (\<lambda>parts. Ok (concat parts))"

text \<open>The receive buffer of \<open>ranks\<close> contributions.\<close>

definition receive_buffer :: "bytes \<Rightarrow> usize \<Rightarrow> ('x world, error, nat) io" where
  "receive_buffer send ranks =
     io_bind (io_lift (ok_or (checked_mul (of_nat (length send)) ranks)
                         (Usage ''collective receive buffer overflow''))) vec_zeroed_u8"

definition collect :: "'x bindings \<Rightarrow> 'a pod \<Rightarrow> 'a list \<Rightarrow> ('x sys, error, 'a list) io" where
  "collect B T values =
     (if values = [] then io_err (Usage ''collective contribution must be non-empty'')
      else with_runtime (\<lambda>rt.
        io_bind (io_lift (encode T values)) (\<lambda>bs.
        io_bind (io_step (buf_new bs)) (\<lambda>send.
        io_bind (team_size B rt) (\<lambda>ranks.
        io_bind (receive_buffer bs ranks) (\<lambda>recv.
        io_bind (coll_start B rt (collect_args T send recv (of_nat (length values)))) (\<lambda>coll.
        io_seq (coll_wait B (rt_context rt) coll)
          (io_bind (io_step (buf_get recv)) (\<lambda>received.
           io_lift (collect_decode T (length bs) received))))))))))"

definition reduce ::
  "'x bindings \<Rightarrow> 'a pod \<Rightarrow> ucc_reduction_op \<Rightarrow> nat \<Rightarrow> usize \<Rightarrow> ('x sys, error, unit) io"
where
  "reduce B T rop d n =
     (if \<not> pod_reduction_supported T rop
      then io_err (Usage ''reduction operation is not supported for this POD type'')
      else
        io_bind (encode_slice T d n) (\<lambda>buf.
        io_seq (with_runtime (\<lambda>rt.
          io_bind (coll_start B rt (reduce_args T buf n rop)) (coll_wait B (rt_context rt))))
          (decode_slice T buf d n)))"

section \<open>Requests of the non-blocking collectives\<close>

text \<open>\<open>Destination\<close>: the pointer, the number of elements and the copy-back function.\<close>

record 'x destination =
  de_pointer :: nat
  de_count :: usize
  de_copy_back :: "bytes \<Rightarrow> nat \<Rightarrow> usize \<Rightarrow> 'x world \<Rightarrow> unit result \<times> 'x world"

record 'x collective_request =
  cr_op :: "handle option"
  cr_context :: handle
  cr_buffers :: "nat list"
  cr_destination :: "'x destination option"
  cr_result_index :: "nat option"

definition request_new ::
  "handle \<Rightarrow> handle \<Rightarrow> nat list \<Rightarrow> 'x destination option \<Rightarrow> nat option \<Rightarrow> 'x collective_request"
where
  "request_new context coll buffers destination result_index =
     \<lparr>cr_op = Some coll, cr_context = context, cr_buffers = buffers,
      cr_destination = destination, cr_result_index = result_index\<rparr>"

text \<open>The copy-back after the operation was finalized.\<close>

definition request_copy_back ::
  "'x collective_request \<Rightarrow> 'x world \<Rightarrow> bool result \<times> 'x world"
where
  "request_copy_back q w = (case cr_destination q of
      None \<Rightarrow> (Ok True, w)
    | Some d \<Rightarrow>
        if cr_buffers q = [] then (Err (Internal ''missing collective buffer''), w)
        else (case de_copy_back d (w_bufs w (last (cr_buffers q))) (de_pointer d) (de_count d) w of
            (r, w') \<Rightarrow> (outcome_bind r (\<lambda>_. Ok True), w')))"

text \<open>The state of a test is the request and the world; the taken operation is dropped when
  the call returns.\<close>

definition request_test ::
  "'x bindings \<Rightarrow> 'x collective_request \<times> 'x world \<Rightarrow>
   bool result \<times> ('x collective_request \<times> 'x world)"
where
  "request_test B s = (case s of (q, w) \<Rightarrow> (case cr_op q of
      None \<Rightarrow> (Ok True, (q, w))
    | Some coll \<Rightarrow> (case coll_status (ucc B) coll w of (status, w1) \<Rightarrow>
        if status = ucc_no_message (ucc B) then
          (Ok False, (q, ucc_progress (ucc B) (cr_context q) w1))
        else if status \<noteq> ucc_ok (ucc B) then
          (Err (map_ucc (ucc_from_raw (ucc B) status)), (q, w1))
        else
          (let q' = q\<lparr>cr_op := None\<rparr> in
           (case coll_finalize (ucc B) coll w1 of
              (Inl e, w2) \<Rightarrow> (Err (map_ucc e), (q', release B (R_Coll coll) w2))
            | (Inr _, w2) \<Rightarrow> (case request_copy_back q' w2 of
                  (r, w3) \<Rightarrow> (r, (q', release B (R_Coll coll) w3))))))))"

definition request_wait_body ::
  "'x bindings \<Rightarrow> 'x collective_request \<times> 'x world \<Rightarrow>
   unit option result \<times> ('x collective_request \<times> 'x world)"
where
  "request_wait_body B s = (case request_test B s of
      (r, s') \<Rightarrow> (outcome_bind r (\<lambda>finished. Ok (if finished then Some () else None)), s'))"

definition request_wait ::
  "'x bindings \<Rightarrow> ('x collective_request \<times> 'x world, error, unit) io"
where
  "request_wait B = poll_loop (request_wait_body B)"

definition request_result ::
  "'a pod \<Rightarrow> 'x collective_request \<Rightarrow> 'x world \<Rightarrow> 'a list result"
where
  "request_result T q w =
     (if cr_op q \<noteq> None then Err (Usage ''collective request is not complete'')
      else
        outcome_bind (ok_or (cr_result_index q) (Usage ''request has no collected result'')) (\<lambda>index.
        outcome_bind (or_panic (if index < length (cr_buffers q)
                                then Some (cr_buffers q ! index) else None)) (\<lambda>buf.
        collect_results (map (pod_decode T)
          (chunks_exact (unat (pod_size T)) (w_bufs w buf))))))"

section \<open>Non-blocking collectives\<close>

definition barrier_nb :: "'x bindings \<Rightarrow> ('x sys, error, 'x collective_request) io" where
  "barrier_nb B = with_runtime (\<lambda>rt.
     io_bind (io_step (buf_new [0])) (\<lambda>stub.
     io_bind (coll_start B rt (barrier_args stub)) (\<lambda>coll.
     io_return (request_new (rt_context rt) coll [stub] None None))))"

definition typed_destination :: "'a pod \<Rightarrow> nat \<Rightarrow> usize \<Rightarrow> 'x destination" where
  "typed_destination T d n = \<lparr>de_pointer = d, de_count = n, de_copy_back = decode_to T\<rparr>"

definition broadcast_nb ::
  "'x bindings \<Rightarrow> 'a pod \<Rightarrow> usize \<Rightarrow> nat \<Rightarrow> usize \<Rightarrow>
   ('x sys, error, 'x collective_request) io"
where
  "broadcast_nb B T root d n =
     (if n = 0 then io_err (Usage ''collective buffer must be non-empty'')
      else
        io_bind (encode_slice T d n) (\<lambda>buf.
        with_runtime (\<lambda>rt.
          io_bind (team_size B rt) (\<lambda>sz.
          if sz \<le> root then io_err (Usage ''broadcast root is outside the UCC team'')
          else
            io_bind (coll_start B rt (broadcast_args T buf n root)) (\<lambda>coll.
            io_return (request_new (rt_context rt) coll [buf]
              (Some (typed_destination T d n)) None))))))"

definition collect_nb ::
  "'x bindings \<Rightarrow> 'a pod \<Rightarrow> 'a list \<Rightarrow> ('x sys, error, 'x collective_request) io"
where
  "collect_nb B T values =
     (if values = [] then io_err (Usage ''collective contribution must be non-empty'')
      else with_runtime (\<lambda>rt.
        io_bind (io_lift (encode T values)) (\<lambda>bs.
        io_bind (io_step (buf_new bs)) (\<lambda>send.
        io_bind (team_size B rt) (\<lambda>ranks.
        io_bind (receive_buffer bs ranks) (\<lambda>recv.
        io_bind (coll_start B rt (collect_args T send recv (of_nat (length values)))) (\<lambda>coll.
        io_return (request_new (rt_context rt) coll [send, recv] None (Some 1)))))))))"

definition reduce_nb ::
  "'x bindings \<Rightarrow> 'a pod \<Rightarrow> ucc_reduction_op \<Rightarrow> nat \<Rightarrow> usize \<Rightarrow>
   ('x sys, error, 'x collective_request) io"
where
  "reduce_nb B T rop d n =
     (if n = 0 then io_err (Usage ''collective buffer must be non-empty'')
      else if \<not> pod_reduction_supported T rop
      then io_err (Usage ''reduction operation is not supported for this POD type'')
      else
        io_bind (encode_slice T d n) (\<lambda>buf.
        with_runtime (\<lambda>rt.
          io_bind (coll_start B rt (reduce_args T buf n rop)) (\<lambda>coll.
          io_return (request_new (rt_context rt) coll [buf]
            (Some (typed_destination T d n)) None)))))"

end
