(* ===== verification/Examples.thy ===== *)
theory Examples
  imports Rma Coll
begin

text \<open>
  The programs of \<open>examples/\<close>: what they call, in which order, and how they exit. Printing is not
  modelled. The clock and the scheduler of the receiving loop are parameters: \<open>expired\<close> says
  whether the deadline has passed when the clock is read in a world, \<open>resume\<close> is the world when
  the thread runs again after \<open>yield_now\<close>.
\<close>

section \<open>\<open>ping_put_get\<close>\<close>

definition TARGET_PE :: usize where
  "TARGET_PE = 1"

definition VALUE_OFFSET :: usize where
  "VALUE_OFFSET = 0"

definition VALUE :: u64 where
  "VALUE = 0x50494e472d524d41"

text \<open>The receiver reads its own heap until the value is there or the deadline has passed.\<close>

partial_function (option) await_value ::
  "'x bindings \<Rightarrow> endian \<Rightarrow> ('x world \<Rightarrow> bool) \<Rightarrow> ('x world \<Rightarrow> 'x world) \<Rightarrow> usize \<Rightarrow> usize \<Rightarrow>
   'x sys \<Rightarrow> (unit result \<times> 'x sys) option"
where
  "await_value B e expired resume rank offset s =
     (case get_typed B (pod_u64 e) rank offset 1 s of
        None \<Rightarrow> None
      | Some (Err x, t) \<Rightarrow> Some (Err x, t)
      | Some (Panic, t) \<Rightarrow> Some (Panic, t)
      | Some (Ok received, t) \<Rightarrow>
          if received = [VALUE] then Some (Ok (), t)
          else if expired (sy_world t)
          then Some (Err (Internal ''timed out waiting for PE 1's value''), t)
          else await_value B e expired resume rank offset (t\<lparr>sy_world := resume (sy_world t)\<rparr>))"

definition ping_run ::
  "'x bindings \<Rightarrow> bool \<Rightarrow> endian \<Rightarrow> ('x world \<Rightarrow> bool) \<Rightarrow> ('x world \<Rightarrow> 'x world) \<Rightarrow>
   ('x sys, error, unit) io"
where
  "ping_run B collectives e expired resume =
     io_seq (init B collectives)
     (io_bind my_pe (\<lambda>rank32. let rank = ucast rank32 in
      io_bind n_pes (\<lambda>size.
      if size \<noteq> 2 then io_err (Usage ''ping_put_get requires exactly two PEs'')
      else
        io_bind (symheap_malloc 8) (\<lambda>buffer.
        io_bind symheap_heap_base (\<lambda>base.
        io_bind (io_lift (offset_from buffer base)) (\<lambda>offset.
        io_bind (io_lift (add_op offset VALUE_OFFSET)) (\<lambda>place.
        io_seq
          (if rank = 0 then
             io_seq (put_typed B (pod_u64 e) TARGET_PE [VALUE] place)
               (io_seq (fence B) (quiet_pe B TARGET_PE))
           else await_value B e expired resume rank place)
          (symheap_free buffer))))))))"

text \<open>The exit status of a \<open>main\<close> that always finalises; a panic unwinds out of it.\<close>

definition ping_main ::
  "'x bindings \<Rightarrow> bool \<Rightarrow> endian \<Rightarrow> ('x world \<Rightarrow> bool) \<Rightarrow> ('x world \<Rightarrow> 'x world) \<Rightarrow>
   'x sys \<Rightarrow> (nat \<times> 'x sys) option"
where
  "ping_main B collectives e expired resume s =
     (case ping_run B collectives e expired resume s of
        None \<Rightarrow> None
      | Some (Panic, t) \<Rightarrow> Some (101, t)
      | Some (result, t) \<Rightarrow> (case finalize B t of
            None \<Rightarrow> None
          | Some (Panic, u) \<Rightarrow> Some (101, u)
          | Some (finalize_result, u) \<Rightarrow>
              Some (if result = Ok () \<and> finalize_result = Ok () then 0 else 1, u)))"

section \<open>\<open>barrier\<close>\<close>

definition barrier_run :: "'x bindings \<Rightarrow> ('x sys, error, unit) io" where
  "barrier_run B =
     io_seq (init B True)
     (io_bind my_pe (\<lambda>rank.
      io_bind n_pes (\<lambda>size.
      io_seq (barrier B) (finalize B))))"

definition barrier_main :: "'x bindings \<Rightarrow> 'x sys \<Rightarrow> (nat \<times> 'x sys) option" where
  "barrier_main B s =
     (case barrier_run B s of
        None \<Rightarrow> None
      | Some (Panic, t) \<Rightarrow> Some (101, t)
      | Some (Err e, t) \<Rightarrow> Some (1, t)
      | Some (Ok _, t) \<Rightarrow> Some (0, t))"

end
