(* ===== verification/Atomics.thy ===== *)
theory Atomics
  imports Rma
begin

text \<open>
  \<open>src/rma.rs\<close>, the atomic memory operations. The trait \<open>AtomicValue\<close> is a record of its
  items; the macro \<open>atomic_family\<close> gives one unsigned and one signed implementation per
  width. An unsigned value is a word; a signed one is an \<open>int\<close> in the range of its type,
  whose bits are its two's complement pattern (the \<open>as\<close> casts of the source).
\<close>

type_synonym ('x, 'b) amo_op =
  "handle \<Rightarrow> 'b \<Rightarrow> u64 \<Rightarrow> handle \<Rightarrow> usize \<Rightarrow> ('x, ucx_status, handle option) call"

type_synonym ('x, 'b) amo_fetch =
  "handle \<Rightarrow> handle \<Rightarrow> 'b \<Rightarrow> u64 \<Rightarrow> handle \<Rightarrow> nat \<Rightarrow> ('x, ucx_status, handle) call"

text \<open>\<open>av_cell\<close> and \<open>av_load\<close> are the memory of a variable of type \<open>Bits\<close>, by which a
  fetching operation returns its reply.\<close>

record ('x, 'a, 'b) atomic_value =
  av_size :: usize
  av_bits :: "'a \<Rightarrow> 'b"
  av_from_bits :: "'b \<Rightarrow> 'a"
  av_cell :: "'b \<Rightarrow> bytes"
  av_load :: "bytes \<Rightarrow> 'b"
  av_add :: "('x, 'b) amo_op"
  av_xor :: "('x, 'b) amo_op"
  av_swap :: "('x, 'b) amo_op"
  av_and :: "('x, 'b) amo_op"
  av_or :: "('x, 'b) amo_op"
  av_cswap ::
    "handle \<Rightarrow> 'b \<Rightarrow> 'b \<Rightarrow> u64 \<Rightarrow> handle \<Rightarrow> usize \<Rightarrow> ('x, ucx_status, handle option) call"
  av_fadd :: "('x, 'b) amo_fetch"
  av_fxor :: "('x, 'b) amo_fetch"
  av_fswap :: "('x, 'b) amo_fetch"
  av_fcswap ::
    "handle \<Rightarrow> handle \<Rightarrow> 'b \<Rightarrow> 'b \<Rightarrow> u64 \<Rightarrow> handle \<Rightarrow> nat \<Rightarrow> ('x, ucx_status, handle) call"

definition unsigned_impl ::
  "endian \<Rightarrow> ('x, 'b::len word) amo \<Rightarrow> ('x, 'b word, 'b word) atomic_value"
where
  "unsigned_impl e amo =
     \<lparr>av_size = of_nat (LENGTH('b) div 8),
      av_bits = (\<lambda>v. v), av_from_bits = (\<lambda>v. v),
      av_cell = to_ne_bytes e, av_load = from_ne_bytes e,
      av_add = amo_add amo, av_xor = amo_xor amo, av_swap = amo_swap amo,
      av_and = amo_and amo, av_or = amo_or amo, av_cswap = amo_cswap amo,
      av_fadd = amo_fadd amo, av_fxor = amo_fxor amo, av_fswap = amo_fswap amo,
      av_fcswap = amo_fcswap amo\<rparr>"

definition signed_impl ::
  "endian \<Rightarrow> ('x, 'b::len word) amo \<Rightarrow> ('x, int, 'b word) atomic_value"
where
  "signed_impl e amo =
     (let unsigned = unsigned_impl e amo in
      \<lparr>av_size = of_nat (LENGTH('b) div 8),
       av_bits = word_of_int, av_from_bits = sint,
       av_cell = to_ne_bytes e, av_load = from_ne_bytes e,
       av_add = av_add unsigned, av_xor = av_xor unsigned, av_swap = av_swap unsigned,
       av_and = av_and unsigned, av_or = av_or unsigned, av_cswap = av_cswap unsigned,
       av_fadd = av_fadd unsigned, av_fxor = av_fxor unsigned, av_fswap = av_fswap unsigned,
       av_fcswap = av_fcswap unsigned\<rparr>)"

definition atomic_u32 :: "'x bindings \<Rightarrow> endian \<Rightarrow> ('x, u32, u32) atomic_value" where
  "atomic_u32 B e = unsigned_impl e (amo32 (ucx B))"

definition atomic_i32 :: "'x bindings \<Rightarrow> endian \<Rightarrow> ('x, int, u32) atomic_value" where
  "atomic_i32 B e = signed_impl e (amo32 (ucx B))"

definition atomic_u64 :: "'x bindings \<Rightarrow> endian \<Rightarrow> ('x, u64, u64) atomic_value" where
  "atomic_u64 B e = unsigned_impl e (amo64 (ucx B))"

definition atomic_i64 :: "'x bindings \<Rightarrow> endian \<Rightarrow> ('x, int, u64) atomic_value" where
  "atomic_i64 B e = signed_impl e (amo64 (ucx B))"

section \<open>Operations without a reply\<close>

text \<open>The macro \<open>atomic_op\<close>, and its five expansions.\<close>

definition atomic_op ::
  "'x bindings \<Rightarrow> ('x, 'a, 'b) atomic_value \<Rightarrow> ('x, 'b) amo_op \<Rightarrow> usize \<Rightarrow> usize \<Rightarrow> 'a \<Rightarrow>
   ('x sys, error, unit) io"
where
  "atomic_op B T method pe offset val = with_state (\<lambda>s.
     io_bind (io_lift (peer_and_address s pe offset (av_size T))) (\<lambda>(peer, addr).
     io_bind (ucx_call B
        (method (pc_endpoint peer) (av_bits T val) addr (pc_rkey peer) (av_size T)))
       (complete_request B (st_transport s))))"

definition atomic_add where "atomic_add B T = atomic_op B T (av_add T)"
definition atomic_xor where "atomic_xor B T = atomic_op B T (av_xor T)"
definition atomic_swap where "atomic_swap B T = atomic_op B T (av_swap T)"
definition atomic_and where "atomic_and B T = atomic_op B T (av_and T)"
definition atomic_or where "atomic_or B T = atomic_op B T (av_or T)"

definition atomic_cswap ::
  "'x bindings \<Rightarrow> ('x, 'a, 'b) atomic_value \<Rightarrow> usize \<Rightarrow> usize \<Rightarrow> 'a \<Rightarrow> 'a \<Rightarrow>
   ('x sys, error, unit) io"
where
  "atomic_cswap B T pe offset expected replacement = with_state (\<lambda>s.
     io_bind (io_lift (peer_and_address s pe offset (av_size T))) (\<lambda>(peer, addr).
     io_bind (ucx_call B
        (av_cswap T (pc_endpoint peer) (av_bits T expected) (av_bits T replacement) addr
           (pc_rkey peer) (av_size T)))
       (complete_request B (st_transport s))))"

section \<open>Fetching operations\<close>

text \<open>The reply variable starts as the operand; it is read after the request finished.\<close>

definition atomic_fetch ::
  "'x bindings \<Rightarrow> ('x, 'a, 'b) atomic_value \<Rightarrow> ('x, 'b) amo_fetch \<Rightarrow> usize \<Rightarrow> usize \<Rightarrow> 'a \<Rightarrow>
   ('x sys, error, 'a) io"
where
  "atomic_fetch B T method pe offset operand = with_state (\<lambda>s.
     io_bind (io_lift (peer_and_address s pe offset (av_size T))) (\<lambda>(peer, addr).
     io_bind (io_step (buf_new (av_cell T (av_bits T operand)))) (\<lambda>reply.
     with_worker (st_transport s) (\<lambda>worker.
       io_bind (ucx_call B
          (method (pc_endpoint peer) worker (av_bits T operand) addr (pc_rkey peer) reply))
         (\<lambda>request.
       io_seq (complete_fetch B worker request)
         (io_bind (io_step (buf_get reply)) (\<lambda>bs. io_return (av_from_bits T (av_load T bs)))))))))"

definition atomic_fadd where "atomic_fadd B T = atomic_fetch B T (av_fadd T)"
definition atomic_fxor where "atomic_fxor B T = atomic_fetch B T (av_fxor T)"
definition atomic_fswap where "atomic_fswap B T = atomic_fetch B T (av_fswap T)"

definition atomic_fcswap ::
  "'x bindings \<Rightarrow> ('x, 'a, 'b) atomic_value \<Rightarrow> usize \<Rightarrow> usize \<Rightarrow> 'a \<Rightarrow> 'a \<Rightarrow>
   ('x sys, error, 'a) io"
where
  "atomic_fcswap B T pe offset expected replacement = with_state (\<lambda>s.
     io_bind (io_lift (peer_and_address s pe offset (av_size T))) (\<lambda>(peer, addr).
     io_bind (io_step (buf_new (av_cell T (av_bits T expected)))) (\<lambda>reply.
     with_worker (st_transport s) (\<lambda>worker.
       io_bind (ucx_call B
          (av_fcswap T (pc_endpoint peer) worker (av_bits T expected) (av_bits T replacement)
             addr (pc_rkey peer) reply))
         (\<lambda>request.
       io_seq (complete_fetch B worker request)
         (io_bind (io_step (buf_get reply)) (\<lambda>bs. io_return (av_from_bits T (av_load T bs)))))))))"

end
