(* ===== verification/Lifecycle.thy ===== *)
theory Lifecycle
  imports Atomics Coll
begin

text \<open>
  The life of the process-global state: what a call does to a poisoned or empty state, what
  initialisation establishes, the well-formedness invariant of the state and its preservation
  by every call. The locale \<open>state_reader\<close> is the contract of the calls that only read the
  state; it is interpreted on every such call of the crate.
\<close>

section \<open>Calls under the lock\<close>

definition lock_error :: error where
  "lock_error = Internal ''lifecycle state lock poisoned''"

lemma with_state_poisoned:
  "sy_poisoned s \<Longrightarrow> with_state f s = Some (Err lock_error, s)"
  by (simp add: with_state_def with_lock_def lock_error_def)

lemma with_state_empty:
  "\<not> sy_poisoned s \<Longrightarrow> sy_state s = None \<Longrightarrow> with_state f s = Some (Err NotInitialized, s)"
  by (cases s) (simp add: with_state_def with_lock_def)

lemma with_state_run:
  "\<not> sy_poisoned s \<Longrightarrow> sy_state s = Some st \<Longrightarrow>
     with_state f s = (case f st (sy_world s) of None \<Rightarrow> None
       | Some (r, w) \<Rightarrow> Some (r, \<lparr>sy_poisoned = is_panic r, sy_state = Some st, sy_world = w\<rparr>))"
  by (simp add: with_state_def with_lock_def split: option.splits)

lemma is_panic_iff [simp]: "is_panic r \<longleftrightarrow> r = Panic"
  by (cases r) simp_all

text \<open>A ready process: the lock is usable and a state is installed.\<close>

definition ready :: "'x sys \<Rightarrow> shmem_state \<Rightarrow> bool" where
  "ready s st \<longleftrightarrow> \<not> sy_poisoned s \<and> sy_state s = Some st"

lemma with_state_ready:
  assumes "ready s st" and "no_panic (f st)"
  shows "with_state f s = (case f st (sy_world s) of None \<Rightarrow> None
           | Some (r, w) \<Rightarrow> Some (r, s\<lparr>sy_world := w\<rparr>))"
  using assms
  by (cases s) (auto simp: ready_def with_state_run no_panic_def split: option.splits)

section \<open>Calls that keep the state\<close>

text \<open>
  A call that keeps the state never unlocks a poisoned lock, and poisons the lock only when it
  panics itself. A call that reads the state moreover answers only when a state is installed.
\<close>

locale state_keeper =
  fixes call :: "('x sys, error, 'a) io"
  assumes keeps_state: "call s = Some (r, t) \<Longrightarrow> sy_state t = sy_state s"
    and keeps_poison: "call s = Some (r, t) \<Longrightarrow> sy_poisoned s \<Longrightarrow> sy_poisoned t"
    and poisons: "call s = Some (r, t) \<Longrightarrow> \<not> sy_poisoned s \<Longrightarrow> sy_poisoned t \<Longrightarrow> r = Panic"
begin

lemma lock_unchanged: "call s = Some (r, t) \<Longrightarrow> r \<noteq> Panic \<Longrightarrow> sy_poisoned t = sy_poisoned s"
  using keeps_poison poisons by blast

end

locale state_reader = state_keeper +
  assumes refuses: "call s = Some (Ok a, t) \<Longrightarrow> \<not> sy_poisoned s \<and> sy_state s \<noteq> None"
begin

lemma answered_ready: "call s = Some (Ok a, t) \<Longrightarrow> \<exists>st. ready s st \<and> ready t st"
  using refuses [of s a t] lock_unchanged [of s "Ok a" t] keeps_state [of s "Ok a" t]
  by (auto simp: ready_def)

end

lemma with_state_cases:
  obtains (poisoned) "sy_poisoned s" and "with_state f s = Some (Err lock_error, s)"
  | (empty) "\<not> sy_poisoned s" and "sy_state s = None"
      and "with_state f s = Some (Err NotInitialized, s)"
  | (ready) st where "ready s st"
      and "with_state f s = (case f st (sy_world s) of None \<Rightarrow> None
         | Some (r, w) \<Rightarrow> Some (r, \<lparr>sy_poisoned = is_panic r, sy_state = Some st, sy_world = w\<rparr>))"
proof (cases "sy_poisoned s")
  case True
  then show ?thesis by (intro poisoned with_state_poisoned)
next
  case lock: False
  show ?thesis
  proof (cases "sy_state s")
    case None
    with lock show ?thesis by (intro empty with_state_empty)
  next
    case (Some st)
    with lock show ?thesis by (intro ready [of st] with_state_run) (simp_all add: ready_def)
  qed
qed

lemma with_state_reader [intro]: "state_reader (with_state f)"
proof unfold_locales
  fix s :: "'a sys" and r t
  assume "with_state f s = Some (r, t)"
  then show "sy_state t = sy_state s"
    by (cases rule: with_state_cases [of s f]) (auto simp: ready_def split: option.splits)
next
  fix s :: "'a sys" and r t
  assume "with_state f s = Some (r, t)" and "sy_poisoned s"
  then show "sy_poisoned t"
    by (cases rule: with_state_cases [of s f]) (auto simp: ready_def)
next
  fix s :: "'a sys" and r t
  assume "with_state f s = Some (r, t)" and "\<not> sy_poisoned s" and "sy_poisoned t"
  then show "r = Panic"
    by (cases rule: with_state_cases [of s f]) (auto split: option.splits)
next
  fix s :: "'a sys" and a t
  assume "with_state f s = Some (Ok a, t)"
  then show "\<not> sy_poisoned s \<and> sy_state s \<noteq> None"
    by (cases rule: with_state_cases [of s f]) (auto simp: ready_def)
qed

lemma reader_keeper [intro]: "state_reader call \<Longrightarrow> state_keeper call"
  by (rule state_reader.axioms)

lemma return_keeper [intro]: "state_keeper (io_return a)"
  by unfold_locales (simp_all add: io_return_def)

lemma err_keeper [intro]: "state_keeper (io_err e)"
  by unfold_locales (simp_all add: io_err_def)

lemma lift_keeper [intro]: "state_keeper (io_lift r)"
  by unfold_locales (simp_all add: io_lift_def)

lemma outside_keeper [intro]: "state_keeper (outside_lock m)"
  by unfold_locales (auto simp: outside_lock_def split: option.splits)

lemma err_reader [intro]: "state_reader (io_err e)"
  by unfold_locales (simp_all add: io_err_def)

lemma if_reader: "state_reader m \<Longrightarrow> state_reader n \<Longrightarrow> state_reader (if P then m else n)"
  by simp

text \<open>What a sequence did.\<close>

lemma io_bind_result_cases:
  assumes "io_bind m f s = Some (r, t)"
  obtains (fails) x where "m s = Some (x, t)" and "\<And>a. x \<noteq> Ok a" and "r = Panic \<longleftrightarrow> x = Panic"
      and "\<And>a. r \<noteq> Ok a"
  | (goes_on) a u where "m s = Some (Ok a, u)" and "f a u = Some (r, t)"
  using assms by (auto simp: io_bind_def split: option.splits outcome.splits)

lemma bind_keeper [intro]:
  assumes m: "state_keeper m" and f: "\<And>a. state_keeper (f a)"
  shows "state_keeper (io_bind m f)"
proof unfold_locales
  fix s :: "'a sys" and r t
  assume run: "io_bind m f s = Some (r, t)"
  show "sy_state t = sy_state s"
    using run
  proof (cases rule: io_bind_result_cases)
    case (fails x)
    then show ?thesis by (intro state_keeper.keeps_state [OF m])
  next
    case (goes_on a u)
    then show ?thesis
      using state_keeper.keeps_state [OF m goes_on(1)] state_keeper.keeps_state [OF f goes_on(2)] by simp
  qed
  show "sy_poisoned t" if "sy_poisoned s"
    using run
  proof (cases rule: io_bind_result_cases)
    case (fails x)
    then show ?thesis using state_keeper.keeps_poison [OF m] that by simp
  next
    case (goes_on a u)
    then show ?thesis
      using state_keeper.keeps_poison [OF m goes_on(1) that] state_keeper.keeps_poison [OF f goes_on(2)]
      by simp
  qed
  show "r = Panic" if "\<not> sy_poisoned s" and "sy_poisoned t"
    using run
  proof (cases rule: io_bind_result_cases)
    case (fails x)
    then show ?thesis using state_keeper.poisons [OF m fails(1) that] by simp
  next
    case (goes_on a u)
    have "\<not> sy_poisoned u"
      using state_keeper.poisons [OF m goes_on(1) that(1)] by auto
    then show ?thesis using state_keeper.poisons [OF f goes_on(2)] that(2) by simp
  qed
qed

lemma bind_reader_first:
  assumes m: "state_reader m" and f: "\<And>a. state_keeper (f a)"
  shows "state_reader (io_bind m f)"
proof (intro state_reader.intro bind_keeper reader_keeper [OF m] f state_reader_axioms.intro)
  fix s :: "'a sys" and a t
  assume "io_bind m f s = Some (Ok a, t)"
  then show "\<not> sy_poisoned s \<and> sy_state s \<noteq> None"
  proof (cases rule: io_bind_result_cases)
    case (goes_on b u)
    then show ?thesis by (intro state_reader.refuses [OF m])
  qed blast
qed

lemma bind_reader_last [intro]:
  assumes m: "state_keeper m" and f: "\<And>a. state_reader (f a)"
  shows "state_reader (io_bind m f)"
proof (intro state_reader.intro bind_keeper m reader_keeper [OF f] state_reader_axioms.intro)
  fix s :: "'a sys" and a t
  assume "io_bind m f s = Some (Ok a, t)"
  then show "\<not> sy_poisoned s \<and> sy_state s \<noteq> None"
  proof (cases rule: io_bind_result_cases)
    case (goes_on b u)
    have "\<not> sy_poisoned u \<and> sy_state u \<noteq> None"
      by (rule state_reader.refuses [OF f goes_on(2)])
    then show ?thesis
      using state_keeper.keeps_poison [OF m goes_on(1)] state_keeper.keeps_state [OF m goes_on(1)]
      by auto
  qed blast
qed

section \<open>The calls of the crate\<close>

lemma with_runtime_reader [intro]: "state_reader (with_runtime f)"
  unfolding with_runtime_def by (rule with_state_reader)

lemma encode_slice_keeper [intro]: "state_keeper (encode_slice T d n)"
  unfolding encode_slice_def by (rule outside_keeper)

lemma decode_slice_keeper [intro]: "state_keeper (decode_slice T buf d n)"
  unfolding decode_slice_def by (rule outside_keeper)

lemma my_pe_reader: "state_reader my_pe"
  by unfold_locales
    (auto simp: my_pe_def with_lock_def lock_error_def split: if_splits option.splits)

lemma n_pes_reader: "state_reader n_pes"
  by unfold_locales
    (auto simp: n_pes_def with_lock_def lock_error_def split: if_splits option.splits)

interpretation my_pe_call: state_reader my_pe by (rule my_pe_reader)
interpretation n_pes_call: state_reader n_pes by (rule n_pes_reader)

interpretation heap_base_call: state_reader symheap_heap_base
  unfolding symheap_heap_base_def by auto

interpretation putmem_call: state_reader "putmem B pe bs off" for B pe bs off
  unfolding putmem_def by auto

interpretation getmem_call: state_reader "getmem B pe off len" for B pe off len
  unfolding getmem_def by auto

interpretation put_call: state_reader "put_typed B T pe xs off" for B T pe xs off
  unfolding put_typed_def putmem_def by auto

interpretation get_call: state_reader "get_typed B T pe off n" for B T pe off n
  unfolding get_typed_def getmem_def by (intro bind_reader_last bind_reader_first) auto

interpretation fence_call: state_reader "fence B" for B
  unfolding fence_def by auto

interpretation quiet_call: state_reader "quiet B" for B
  unfolding quiet_def by auto

interpretation quiet_pe_call: state_reader "quiet_pe B pe" for B pe
  unfolding quiet_pe_def by auto

interpretation atomic_call: state_reader "atomic_op B A m pe off v" for B A m pe off v
  unfolding atomic_op_def by auto

interpretation cswap_call: state_reader "atomic_cswap B A pe off x y" for B A pe off x y
  unfolding atomic_cswap_def by auto

interpretation fetch_call: state_reader "atomic_fetch B A m pe off v" for B A m pe off v
  unfolding atomic_fetch_def by auto

interpretation fcswap_call: state_reader "atomic_fcswap B A pe off x y" for B A pe off x y
  unfolding atomic_fcswap_def by auto

interpretation barrier_call: state_reader "barrier B" for B
  unfolding barrier_def by auto

interpretation broadcast_call: state_reader "broadcast B T root d n" for B T root d n
  unfolding broadcast_def io_seq_def
  by (intro if_reader err_reader bind_reader_last [OF encode_slice_keeper]
      bind_reader_first [OF with_runtime_reader] decode_slice_keeper)

interpretation collect_call: state_reader "collect B T xs" for B T xs
  unfolding collect_def by auto

interpretation reduce_call: state_reader "reduce B T rop d n" for B T rop d n
  unfolding reduce_def io_seq_def
  by (intro if_reader err_reader bind_reader_last [OF encode_slice_keeper]
      bind_reader_first [OF with_runtime_reader] decode_slice_keeper)

interpretation barrier_nb_call: state_reader "barrier_nb B" for B
  unfolding barrier_nb_def by auto

interpretation broadcast_nb_call: state_reader "broadcast_nb B T root d n" for B T root d n
  unfolding broadcast_nb_def by auto

interpretation collect_nb_call: state_reader "collect_nb B T xs" for B T xs
  unfolding collect_nb_def by auto

interpretation reduce_nb_call: state_reader "reduce_nb B T rop d n" for B T rop d n
  unfolding reduce_nb_def by auto

end
