(* ===== verification/Bootstrap_Props.thy ===== *)
theory Bootstrap_Props
  imports Bootstrap
begin

text \<open>
  What the handshake builds: one connection and one rkey entry per peer, both tables with the
  same keys and bases, every base and rkey usable; and, when the store returns what the peers
  published, the base every peer has published.
\<close>

section \<open>The tables agree\<close>

text \<open>Both tables have exactly the keys \<open>K\<close>; the entries of a peer agree and are usable.\<close>

definition tables_agree :: "peer_table \<Rightarrow> peer_rkeys \<Rightarrow> u32 set \<Rightarrow> bool" where
  "tables_agree peers rkeys K \<longleftrightarrow>
     btree_wf peers \<and> btree_wf rkeys \<and>
     (\<forall>pe. case btree_get peers pe of
         None \<Rightarrow> pe \<notin> K \<and> peer_rkeys_get rkeys pe = None
       | Some c \<Rightarrow> pe \<in> K \<and> pc_heap_base c \<noteq> 0 \<and>
           (\<exists>rk. 4 \<le> length rk \<and>
              peer_rkeys_get rkeys pe = Some \<lparr>pk_heap_base = pc_heap_base c, pk_rkey = rk\<rparr>))"

lemma tables_agree_empty: "tables_agree btree_empty btree_empty {}"
  by (simp add: tables_agree_def btree.empty_wf btree.get_empty peer_rkeys_get_def)

lemma tables_agree_insert:
  assumes "tables_agree peers rkeys K" and "pc_heap_base c \<noteq> 0" and "4 \<le> length rk"
  shows "tables_agree (btree_insert pe c peers)
    (peer_rkeys_insert rkeys pe (pc_heap_base c) rk) (insert pe K)"
proof -
  have wf: "btree_wf peers" "btree_wf rkeys" using assms(1) by (auto simp: tables_agree_def)
  show ?thesis
    unfolding tables_agree_def
  proof (intro conjI allI)
    fix q
    have "case btree_get peers q of
         None \<Rightarrow> q \<notin> K \<and> peer_rkeys_get rkeys q = None
       | Some c \<Rightarrow> q \<in> K \<and> pc_heap_base c \<noteq> 0 \<and>
           (\<exists>rk. 4 \<le> length rk \<and>
              peer_rkeys_get rkeys q = Some \<lparr>pk_heap_base = pc_heap_base c, pk_rkey = rk\<rparr>)"
      using assms(1) by (simp add: tables_agree_def)
    then show "case btree_get (btree_insert pe c peers) q of
         None \<Rightarrow> q \<notin> insert pe K \<and>
           peer_rkeys_get (peer_rkeys_insert rkeys pe (pc_heap_base c) rk) q = None
       | Some d \<Rightarrow> q \<in> insert pe K \<and> pc_heap_base d \<noteq> 0 \<and>
           (\<exists>rk'. 4 \<le> length rk' \<and>
              peer_rkeys_get (peer_rkeys_insert rkeys pe (pc_heap_base c) rk) q =
                Some \<lparr>pk_heap_base = pc_heap_base d, pk_rkey = rk'\<rparr>)"
      using assms(2,3) wf
      by (cases "q = pe")
        (auto simp: btree.get_insert peer_rkeys_get_def peer_rkeys_insert_def split: option.splits)
  qed (simp_all add: wf btree.insert_wf peer_rkeys_insert_def)
qed

lemma connect_peer_yields:
  "yields (connect_peer B client t pe)
     (\<lambda>(rk, c). 4 \<le> length rk \<and> pc_heap_base c \<noteq> 0 \<and>
        (\<exists>p w w1 u v u1 x. pmix_proc (pmix B) client pe w = (Inr p, w1) \<and>
           pmix_get_value (pmix B) p HEAP_BASE_GET_KEY u = (Inr v, u1) \<and>
           pc_heap_base c = fst (value_uint64 (pmix B) v x)))"
proof -
  have last: "yields (if address = [] \<or> length rkey_bytes < 4 \<or> heap_base = 0
     then io_err (Internal ''peer published incomplete bootstrap metadata'')
     else
       io_bind (create_endpoint B t address) (\<lambda>endpoint.
       io_bind (io_on_fail (release B (R_Endpoint endpoint))
                  (ucx_call B (rkey_unpack (ucx B) endpoint rkey_bytes))) (\<lambda>rkey.
       io_return (rkey_bytes,
         \<lparr>pc_endpoint = endpoint, pc_rkey = rkey, pc_heap_base = heap_base\<rparr>))))
     (\<lambda>(rk, c). 4 \<le> length rk \<and> pc_heap_base c \<noteq> 0 \<and> pc_heap_base c = heap_base)"
    for address rkey_bytes heap_base
    by (intro yields_if yields_err yields_bind [OF yields_any] yields_return) auto
  show ?thesis
    unfolding connect_peer_def pmix_call_def
    apply (rule yields_bind [OF yields_call])
    apply (rule yields_bind [OF yields_any])
    apply (rule yields_bind [OF yields_any])
    apply (rule yields_bind [OF yields_any])
    apply (rule yields_bind [OF yields_any])
    apply (rule yields_bind [OF yields_call])
    apply (rule yields_bind [OF yields_step])
    apply (rule yields_mono [OF last])
    apply blast
    done
qed

lemma connect_peer_usable:
  assumes "connect_peer B client t pe w = Some (Ok (rk, c), w')"
  shows "4 \<le> length rk" and "pc_heap_base c \<noteq> 0"
  using yieldsD [OF connect_peer_yields assms] by simp_all

lemma connect_peers_agree:
  assumes "connect_peers B client t pes b w = Some (Ok b', w')"
    and "tables_agree (bs_peers b) (bs_peer_rkeys b) K"
  shows "tables_agree (bs_peers b') (bs_peer_rkeys b') (K \<union> set pes)"
  using assms
proof (induction pes arbitrary: b K w)
  case Nil
  then show ?case by (simp add: io_return_eq_Ok)
next
  case (Cons pe pes)
  from Cons.prems(1) obtain rk c w1 where c: "connect_peer B client t pe w = Some (Ok (rk, c), w1)"
    and rest: "connect_peers B client t pes
        \<lparr>bs_peer_rkeys = peer_rkeys_insert (bs_peer_rkeys b) pe (pc_heap_base c) rk,
         bs_peers = btree_insert pe c (bs_peers b)\<rparr> w1 = Some (Ok b', w')"
    by (auto simp: io_bind_eq_Ok io_on_fail_eq_Ok)
  have "tables_agree (btree_insert pe c (bs_peers b))
      (peer_rkeys_insert (bs_peer_rkeys b) pe (pc_heap_base c) rk) (insert pe K)"
    by (rule tables_agree_insert [OF Cons.prems(2) connect_peer_usable(2,1) [OF c]])
  with Cons.IH [OF rest, of "insert pe K"] show ?case by simp
qed

lemma set_peer_range: "set (peer_range sz) = {pe. pe < ucast sz}"
proof
  show "set (peer_range sz) \<subseteq> {pe. pe < ucast sz}"
  proof
    fix pe assume "pe \<in> set (peer_range sz)"
    then obtain i where i: "pe = of_nat i" "i < unat (ucast sz :: u32)"
      by (auto simp: peer_range_def)
    from i(2) have "i < 2 ^ LENGTH(32)" by (rule order.strict_trans) (rule unsigned_less)
    with i(1) have "unat pe = i" by (simp add: unat_of_nat_len)
    with i show "pe \<in> {pe. pe < ucast sz}" by (simp add: word_less_nat_alt)
  qed
  show "{pe. pe < ucast sz} \<subseteq> set (peer_range sz)"
  proof
    fix pe :: u32 assume "pe \<in> {pe. pe < ucast sz}"
    then have "unat pe \<in> set [0..<unat (ucast sz :: u32)]" by (simp add: word_less_nat_alt)
    then have "of_nat (unat pe) \<in> set (peer_range sz)"
      unfolding peer_range_def set_map by (rule imageI)
    then show "pe \<in> set (peer_range sz)" by simp
  qed
qed

lemma handshake_agree:
  assumes "handshake B client t h sz w = Some (Ok b, w')"
  shows "tables_agree (bs_peers b) (bs_peer_rkeys b) {pe. pe < ucast sz}" and "sz \<noteq> 0"
proof -
  from assms show "sz \<noteq> 0" by (auto simp: handshake_def io_err_not_Ok)
  with assms obtain w1 where "connect_peers B client t (peer_range sz)
      \<lparr>bs_peer_rkeys = btree_empty, bs_peers = btree_empty\<rparr> w1 = Some (Ok b, w')"
    by (auto simp: handshake_def io_seq_eq_Ok)
  from connect_peers_agree [OF this, of "{}"]
  show "tables_agree (bs_peers b) (bs_peer_rkeys b) {pe. pe < ucast sz}"
    by (simp add: tables_agree_empty set_peer_range)
qed

lemma tables_agree_get:
  assumes "tables_agree peers rkeys K"
  shows "btree_get peers pe \<noteq> None \<longleftrightarrow> pe \<in> K"
    and "btree_get peers pe = Some c \<Longrightarrow> pc_heap_base c \<noteq> 0"
proof -
  have "case btree_get peers pe of
         None \<Rightarrow> pe \<notin> K \<and> peer_rkeys_get rkeys pe = None
       | Some c \<Rightarrow> pe \<in> K \<and> pc_heap_base c \<noteq> 0 \<and>
           (\<exists>rk. 4 \<le> length rk \<and>
              peer_rkeys_get rkeys pe = Some \<lparr>pk_heap_base = pc_heap_base c, pk_rkey = rk\<rparr>)"
    using assms by (simp add: tables_agree_def)
  then show "btree_get peers pe \<noteq> None \<longleftrightarrow> pe \<in> K"
    and "btree_get peers pe = Some c \<Longrightarrow> pc_heap_base c \<noteq> 0"
    by (auto split: option.splits)
qed

section \<open>Published metadata\<close>

text \<open>PMIx returns, for every peer, what that peer has put: here its heap base.\<close>

definition base_published :: "'x bindings \<Rightarrow> handle \<Rightarrow> (u32 \<Rightarrow> u64) \<Rightarrow> bool" where
  "base_published B client base \<longleftrightarrow>
     (\<forall>pe w p w1 u v u1 x. pmix_proc (pmix B) client pe w = (Inr p, w1) \<longrightarrow>
        pmix_get_value (pmix B) p HEAP_BASE_GET_KEY u = (Inr v, u1) \<longrightarrow>
        fst (value_uint64 (pmix B) v x) = base pe)"

lemma connect_peer_published:
  assumes "base_published B client base"
    and "connect_peer B client t pe w = Some (Ok (rk, c), w')"
  shows "pc_heap_base c = base pe"
proof -
  obtain p v0 w1 u u1 v x where "pmix_proc (pmix B) client pe v0 = (Inr p, w1)"
    and "pmix_get_value (pmix B) p HEAP_BASE_GET_KEY u = (Inr v, u1)"
    and c: "pc_heap_base c = fst (value_uint64 (pmix B) v x)"
    using yieldsD [OF connect_peer_yields assms(2)] by auto
  with assms(1) have "fst (value_uint64 (pmix B) v x) = base pe"
    unfolding base_published_def by blast
  with c show ?thesis by simp
qed

lemma connect_peers_published:
  assumes "base_published B client base"
    and "connect_peers B client t pes b w = Some (Ok b', w')"
    and "btree_wf (bs_peers b)"
    and "\<And>pe c. btree_get (bs_peers b) pe = Some c \<Longrightarrow> pc_heap_base c = base pe"
    and "btree_get (bs_peers b') pe = Some c"
  shows "pc_heap_base c = base pe"
  using assms(2-)
proof (induction pes arbitrary: b w)
  case Nil
  then show ?case by (simp add: io_return_eq_Ok)
next
  case (Cons q qs)
  from Cons.prems(1) obtain rk d w1 where d: "connect_peer B client t q w = Some (Ok (rk, d), w1)"
    and rest: "connect_peers B client t qs
        \<lparr>bs_peer_rkeys = peer_rkeys_insert (bs_peer_rkeys b) q (pc_heap_base d) rk,
         bs_peers = btree_insert q d (bs_peers b)\<rparr> w1 = Some (Ok b', w')"
    by (auto simp: io_bind_eq_Ok io_on_fail_eq_Ok)
  show ?case
  proof (rule Cons.IH [OF rest])
    show "btree_wf (bs_peers \<lparr>bs_peer_rkeys = peer_rkeys_insert (bs_peer_rkeys b) q (pc_heap_base d) rk,
         bs_peers = btree_insert q d (bs_peers b)\<rparr>)"
      using Cons.prems(2) by (simp add: btree.insert_wf)
    show "pc_heap_base e = base p" if "btree_get (bs_peers
        \<lparr>bs_peer_rkeys = peer_rkeys_insert (bs_peer_rkeys b) q (pc_heap_base d) rk,
         bs_peers = btree_insert q d (bs_peers b)\<rparr>) p = Some e" for p e
      using that Cons.prems(2,3) connect_peer_published [OF assms(1) d]
      by (auto simp: btree.get_insert split: if_splits)
    show "btree_get (bs_peers b') pe = Some c" by (rule Cons.prems(4))
  qed
qed

lemma handshake_published:
  assumes "base_published B client base" and "handshake B client t h sz w = Some (Ok b, w')"
    and "btree_get (bs_peers b) pe = Some c"
  shows "pc_heap_base c = base pe"
proof -
  from assms(2) obtain w1 where run: "connect_peers B client t (peer_range sz)
      \<lparr>bs_peer_rkeys = btree_empty, bs_peers = btree_empty\<rparr> w1 = Some (Ok b, w')"
    by (auto simp: handshake_def io_seq_eq_Ok io_err_not_Ok split: if_splits)
  show ?thesis
    by (rule connect_peers_published [OF assms(1) run _ _ assms(3)])
      (simp_all add: btree.empty_wf btree.get_empty)
qed

end
