(* ===== verification/Reach.thy ===== *)
theory Reach
  imports Lifecycle Bootstrap_Props
begin

text \<open>
  The API as a state machine: one step per call of the crate (and one for whatever else changes
  the world), the states a process can reach, and the invariant of the installed state. What
  initialisation, allocation, deallocation and finalisation do to it is proved here; the calls
  that keep the state are instances of \<open>state_keeper\<close>.
\<close>

section \<open>The invariant\<close>

definition state_inv :: "shmem_state \<Rightarrow> bool" where
  "state_inv st \<longleftrightarrow> heap_inv (st_heap st) \<and> st_size st \<noteq> 0 \<and>
     tables_agree (st_peers st) (st_peer_rkeys st) {pe. pe < ucast (st_size st)}"

definition sys_inv :: "'x sys \<Rightarrow> bool" where
  "sys_inv s \<longleftrightarrow> (case sy_state s of None \<Rightarrow> True | Some st \<Rightarrow> state_inv st)"

lemma sys_inv_Some: "sys_inv s \<Longrightarrow> sy_state s = Some st \<Longrightarrow> state_inv st"
  by (simp add: sys_inv_def)

lemma sys_inv_None: "sy_state s = None \<Longrightarrow> sys_inv s"
  by (simp add: sys_inv_def)

section \<open>Initialisation\<close>

lemma heap_new_yields: "alloc_contract B \<Longrightarrow> yields (heap_new B ctx) heap_inv"
  by (auto simp: yields_def heap_new_def intro: heap_with_size_inv)

lemma handshake_yields:
  "yields (handshake B client t h sz)
     (\<lambda>b. sz \<noteq> 0 \<and> tables_agree (bs_peers b) (bs_peer_rkeys b) {pe. pe < ucast sz})"
  unfolding yields_def using handshake_agree by blast

lemma init_state_yields:
  assumes "alloc_contract B"
  shows "yields (init_state B) (\<lambda>st. state_inv st \<and> st_collectives st = None)"
proof -
  have finish: "yields (case found of
          None \<Rightarrow> io_on_err (disconnect_ignored B client) (io_err (Internal
            ''PMIx job size unavailable and PMIX_SIZE is not set to a valid value''))
        | Some sz \<Rightarrow> io_bind (io_on_err (disconnect_ignored B client)
                             (handshake B client transport h sz)) (\<lambda>b.
            io_return \<lparr>st_peers = bs_peers b, st_heap = h, st_transport = transport,
               st_collectives = None, st_client = client, st_rank = rank,
               st_size = sz, st_peer_rkeys = bs_peer_rkeys b\<rparr>))
      (\<lambda>st. state_inv st \<and> st_collectives st = None)"
    if "heap_inv h" for found client transport h rank
  proof (cases found)
    case None
    then show ?thesis by (simp add: yields_on_err yields_err)
  next
    case (Some sz)
    show ?thesis
      unfolding Some option.case
      by (rule yields_bind [OF yields_on_err [OF handshake_yields]], rule yields_return)
        (use that in \<open>simp add: state_inv_def\<close>)
  qed
  show ?thesis
    unfolding init_state_def
    by (intro yields_bind [OF yields_any] yields_on_fail
        yields_bind [OF yields_on_err [OF heap_new_yields [OF assms]]] finish)
qed

lemma install_cases:
  assumes "install B c st w = Some (r, st', w')"
  obtains (plain) "\<not> c" and "r = Ok ()" and "st' = Some st" and "w' = w"
  | (collectives) rt where "c" and "r = Ok ()" and "st' = Some (st\<lparr>st_collectives := Some rt\<rparr>)"
      and "runtime_new B (st_client st) (st_rank st) (st_size st) w = Some (Ok rt, w')"
  | (failure) e where "c" and "r = Err e" and "st' = None"
proof (cases c)
  case False
  with assms plain show ?thesis by (simp add: install_def)
next
  case True
  let ?m = "runtime_new B (st_client st) (st_rank st) (st_size st)"
  show ?thesis
  proof (cases rule: io_result_cases [of ?m w, case_names never ok err panic])
    case never
    with assms True show ?thesis by (simp add: install_def)
  next
    case (ok rt w1)
    with assms True collectives [of rt] show ?thesis by (auto simp: install_def)
  next
    case (err e w1)
    with assms True failure [of e] show ?thesis by (auto simp: install_def)
  next
    case (panic w1)
    then show ?thesis using no_panicD [OF runtime_new_no_panic] by blast
  qed
qed

text \<open>The outcomes of \<open>init\<close>.\<close>

lemma init_cases:
  assumes "init B c s = Some (r, t)"
  obtains (locked) "sy_poisoned s" and "r = Err lock_error" and "t = s"
  | (again) st where "ready s st" and "r = Err AlreadyInitialized" and "t = s"
  | (success) st w st' where "\<not> sy_poisoned s" and "sy_state s = None" and "r = Ok ()"
      and "init_state B (sy_world s) = Some (Ok st, w)" and "ready t st'"
      and "install B c st w = Some (Ok (), Some st', sy_world t)"
  | (failure) e where "\<not> sy_poisoned s" and "sy_state s = None" and "r = Err e"
      and "\<not> sy_poisoned t" and "sy_state t = None"
  | (panic) "\<not> sy_poisoned s" and "sy_state s = None" and "r = Panic"
      and "sy_poisoned t" and "sy_state t = None"
proof (cases "sy_poisoned s")
  case True
  with assms have "r = Err lock_error \<and> t = s"
    by (simp add: init_def with_lock_def lock_error_def)
  with True locked show ?thesis by blast
next
  case lock: False
  show ?thesis
  proof (cases "sy_state s")
    case (Some st)
    with lock have "ready s st" by (simp add: ready_def)
    moreover have "r = Err AlreadyInitialized \<and> t = s"
      using assms lock Some by (cases s) (simp add: init_def with_lock_def)
    ultimately show ?thesis using again by blast
  next
    case None
    show ?thesis
    proof (cases rule: io_result_cases [of "init_state B" "sy_world s", case_names never ok err panicked])
      case never
      with assms lock None show ?thesis by (simp add: init_def with_lock_def)
    next
      case (ok st w)
      obtain st' w' where inst: "install B c st w = Some (r, st', w')"
          and t: "t = \<lparr>sy_poisoned = is_panic r, sy_state = st', sy_world = w'\<rparr>"
        using assms lock None ok by (auto simp: init_def with_lock_def split: option.splits)
      from inst show ?thesis
      proof (cases rule: install_cases)
        case plain
        with success [OF lock None _ ok, of st] inst t show ?thesis by (simp add: ready_def)
      next
        case (collectives rt)
        with success [OF lock None _ ok, of "st\<lparr>st_collectives := Some rt\<rparr>"] inst t
        show ?thesis by (simp add: ready_def)
      next
        case (failure e)
        with \<open>\<And>e. \<lbrakk>\<not> sy_poisoned s; sy_state s = None; r = Err e; \<not> sy_poisoned t; sy_state t = None\<rbrakk>
            \<Longrightarrow> thesis\<close> [of e] lock None t show ?thesis by simp
      qed
    next
      case (err e w)
      with failure [of e] lock None assms show ?thesis
        by (auto simp: init_def with_lock_def)
    next
      case (panicked w)
      with panic lock None assms show ?thesis by (auto simp: init_def with_lock_def)
    qed
  qed
qed

lemma init_success_inv:
  assumes "alloc_contract B" and "init_state B w0 = Some (Ok st, w)"
    and "install B c st w = Some (Ok (), Some st', w')"
  shows "state_inv st'"
proof -
  have "state_inv st" using yieldsD [OF init_state_yields [OF assms(1)] assms(2)] by simp
  with assms(3) show ?thesis by (cases rule: install_cases) (auto simp: state_inv_def)
qed

lemma init_inv:
  assumes "alloc_contract B" and "init B c s = Some (r, t)" and "sys_inv s"
  shows "sys_inv t"
  using assms(2)
proof (cases rule: init_cases)
  case (success st w st')
  with init_success_inv [OF assms(1) success(4,6)] show ?thesis
    by (simp add: sys_inv_def ready_def)
qed (use assms(3) in \<open>simp_all add: sys_inv_def\<close>)

section \<open>Finalisation\<close>

lemma finalize_cases:
  assumes "finalize B s = Some (r, t)"
  obtains (locked) "sy_poisoned s" and "r = Err lock_error" and "t = s"
  | (empty) "\<not> sy_poisoned s" and "sy_state s = None" and "r = Ok ()" and "t = s"
  | (finished) st where "ready s st" and "\<not> sy_poisoned t" and "sy_state t = None" and "r \<noteq> Panic"
      and "sy_world t = release_all B (drop_state st)
             (snd (pmix_disconnect (pmix B) (st_client st) (sy_world s)))"
      and "r = Ok () \<longleftrightarrow> (\<exists>u. fst (pmix_disconnect (pmix B) (st_client st) (sy_world s)) = Inr u)"
proof (cases "sy_poisoned s")
  case True
  with assms have "r = Err lock_error \<and> t = s"
    by (simp add: finalize_def with_lock_def lock_error_def)
  with True locked show ?thesis by blast
next
  case lock: False
  show ?thesis
  proof (cases "sy_state s")
    case None
    with lock assms have "r = Ok () \<and> t = s" by (cases s) (simp add: finalize_def with_lock_def)
    with lock None empty show ?thesis by blast
  next
    case (Some st)
    obtain d w where d: "pmix_disconnect (pmix B) (st_client st) (sy_world s) = (d, w)"
      by (cases "pmix_disconnect (pmix B) (st_client st) (sy_world s)")
    have "r = (case d of Inl e \<Rightarrow> Err (pmix_error_raw B e) | Inr _ \<Rightarrow> Ok ())"
      and "t = \<lparr>sy_poisoned = False, sy_state = None,
               sy_world = release_all B (drop_state st) w\<rparr>"
      using assms lock Some d by (auto simp: finalize_def with_lock_def split: sum.splits)
    then show ?thesis
      using lock Some d by (intro finished [of st]) (simp_all add: ready_def split: sum.splits)
  qed
qed

lemma finalize_inv: "finalize B s = Some (r, t) \<Longrightarrow> sys_inv s \<Longrightarrow> sys_inv t"
  by (erule finalize_cases) (simp_all add: sys_inv_None)

section \<open>Allocation under the lock\<close>

lemma with_state_mut_cases:
  obtains (poisoned) "sy_poisoned s" and "with_state_mut f s = Some (Err lock_error, s)"
  | (empty) "\<not> sy_poisoned s" and "sy_state s = None"
      and "with_state_mut f s = Some (Err NotInitialized, s)"
  | (ready) st where "ready s st"
      and "with_state_mut f s = Some (fst (f st),
         \<lparr>sy_poisoned = is_panic (fst (f st)), sy_state = Some (snd (f st)), sy_world = sy_world s\<rparr>)"
proof (cases "sy_poisoned s")
  case True
  then show ?thesis
    by (intro poisoned) (simp_all add: with_state_mut_def with_lock_def lock_error_def)
next
  case lock: False
  show ?thesis
  proof (cases "sy_state s")
    case None
    with lock show ?thesis
      by (intro empty) (cases s, simp_all add: with_state_mut_def with_lock_def)
  next
    case (Some st)
    with lock show ?thesis
      by (intro ready [of st])
        (simp_all add: ready_def with_state_mut_def with_lock_def split: prod.splits)
  qed
qed

lemma symheap_malloc_step:
  assumes "sys_inv s" and "symheap_malloc sz s = Some (r, t)"
  shows "sys_inv t" and "r \<noteq> Panic" and "sy_poisoned t = sy_poisoned s" and "sy_world t = sy_world s"
proof -
  have "sys_inv t \<and> r \<noteq> Panic \<and> sy_poisoned t = sy_poisoned s \<and> sy_world t = sy_world s"
    using assms(2) unfolding symheap_malloc_def
  proof (cases rule: with_state_mut_cases [of s "\<lambda>s. case heap_malloc (st_heap s) sz of (r, h) \<Rightarrow> (r, s\<lparr>st_heap := h\<rparr>)"])
    case (ready st)
    then have inv: "state_inv st" using assms(1) by (auto simp: ready_def intro: sys_inv_Some)
    obtain r' h where m: "heap_malloc (st_heap st) sz = (r', h)" by (cases "heap_malloc (st_heap st) sz")
    have "heap_inv h" "r' \<noteq> Panic"
      using heap_malloc_inv [of "st_heap st" sz] heap_malloc_no_panic [of "st_heap st" sz] inv m
      by (simp_all add: state_inv_def)
    with ready assms(2) m inv show ?thesis
      unfolding symheap_malloc_def by (auto simp: sys_inv_def state_inv_def ready_def)
  qed (use assms in \<open>auto simp: symheap_malloc_def lock_error_def\<close>)
  then show "sys_inv t" and "r \<noteq> Panic" and "sy_poisoned t = sy_poisoned s"
    and "sy_world t = sy_world s" by auto
qed

lemma symheap_free_step:
  assumes "sys_inv s" and "symheap_free p s = Some (r, t)"
  shows "sys_inv t" and "r \<noteq> Panic" and "sy_poisoned t = sy_poisoned s" and "sy_world t = sy_world s"
proof -
  have "sys_inv t \<and> r \<noteq> Panic \<and> sy_poisoned t = sy_poisoned s \<and> sy_world t = sy_world s"
    using assms(2) unfolding symheap_free_def
  proof (cases rule: with_state_mut_cases [of s "\<lambda>s. case heap_free (st_heap s) p of (r, h) \<Rightarrow> (r, s\<lparr>st_heap := h\<rparr>)"])
    case (ready st)
    then have inv: "state_inv st" using assms(1) by (auto simp: ready_def intro: sys_inv_Some)
    obtain r' h where m: "heap_free (st_heap st) p = (r', h)" by (cases "heap_free (st_heap st) p")
    have "heap_inv h" "r' \<noteq> Panic"
      using heap_free_inv [of "st_heap st" p] heap_free_no_panic [of "st_heap st" p] inv m
      by (simp_all add: state_inv_def)
    with ready assms(2) m inv show ?thesis
      unfolding symheap_free_def by (auto simp: sys_inv_def state_inv_def ready_def)
  qed (use assms in \<open>auto simp: symheap_free_def lock_error_def\<close>)
  then show "sys_inv t" and "r \<noteq> Panic" and "sy_poisoned t = sy_poisoned s"
    and "sy_world t = sy_world s" by auto
qed

section \<open>The API as a transition system\<close>

text \<open>
  One step per call of the crate that returns, for a program with or without the feature
  \<open>collectives\<close> whose slices have element type \<open>T\<close> and whose atomics have type \<open>A\<close>; the calls
  on a non-blocking request run outside the lock; and the world changes by itself (other
  processing elements, the network).
\<close>

inductive api_step ::
  "'x bindings \<Rightarrow> bool \<Rightarrow> 'a pod \<Rightarrow> ('x, 'v, 'b) atomic_value \<Rightarrow> 'x sys \<Rightarrow> 'x sys \<Rightarrow> bool"
  for B :: "'x bindings" and c :: bool and T :: "'a pod" and A :: "('x, 'v, 'b) atomic_value"
where
  "init B c s = Some (r, t) \<Longrightarrow> api_step B c T A s t"
| "finalize B s = Some (r, t) \<Longrightarrow> api_step B c T A s t"
| "my_pe s = Some (r, t) \<Longrightarrow> api_step B c T A s t"
| "n_pes s = Some (r, t) \<Longrightarrow> api_step B c T A s t"
| "symheap_malloc sz s = Some (r, t) \<Longrightarrow> api_step B c T A s t"
| "symheap_free p s = Some (r, t) \<Longrightarrow> api_step B c T A s t"
| "symheap_heap_base s = Some (r, t) \<Longrightarrow> api_step B c T A s t"
| "putmem B pe bs off s = Some (r, t) \<Longrightarrow> api_step B c T A s t"
| "getmem B pe off len s = Some (r, t) \<Longrightarrow> api_step B c T A s t"
| "put_typed B T pe xs off s = Some (r, t) \<Longrightarrow> api_step B c T A s t"
| "get_typed B T pe off len s = Some (r, t) \<Longrightarrow> api_step B c T A s t"
| "fence B s = Some (r, t) \<Longrightarrow> api_step B c T A s t"
| "quiet B s = Some (r, t) \<Longrightarrow> api_step B c T A s t"
| "quiet_pe B pe s = Some (r, t) \<Longrightarrow> api_step B c T A s t"
| "atomic_op B A m pe off v s = Some (r, t) \<Longrightarrow> api_step B c T A s t"
| "atomic_cswap B A pe off v v' s = Some (r, t) \<Longrightarrow> api_step B c T A s t"
| "atomic_fetch B A f pe off v s = Some (r, t) \<Longrightarrow> api_step B c T A s t"
| "atomic_fcswap B A pe off v v' s = Some (r, t) \<Longrightarrow> api_step B c T A s t"
| "barrier B s = Some (r, t) \<Longrightarrow> api_step B c T A s t"
| "broadcast B T root d n s = Some (r, t) \<Longrightarrow> api_step B c T A s t"
| "collect B T xs s = Some (r, t) \<Longrightarrow> api_step B c T A s t"
| "reduce B T rop d n s = Some (r, t) \<Longrightarrow> api_step B c T A s t"
| "barrier_nb B s = Some (r, t) \<Longrightarrow> api_step B c T A s t"
| "broadcast_nb B T root d n s = Some (r, t) \<Longrightarrow> api_step B c T A s t"
| "collect_nb B T xs s = Some (r, t) \<Longrightarrow> api_step B c T A s t"
| "reduce_nb B T rop d n s = Some (r, t) \<Longrightarrow> api_step B c T A s t"
| "request_test B (q, sy_world s) = (r, (q', w)) \<Longrightarrow> api_step B c T A s (s\<lparr>sy_world := w\<rparr>)"
| "request_wait B (q, sy_world s) = Some (r, (q', w)) \<Longrightarrow> api_step B c T A s (s\<lparr>sy_world := w\<rparr>)"
| "api_step B c T A s (s\<lparr>sy_world := w\<rparr>)"

inductive reachable ::
  "'x bindings \<Rightarrow> bool \<Rightarrow> 'a pod \<Rightarrow> ('x, 'v, 'b) atomic_value \<Rightarrow> 'x sys \<Rightarrow> bool"
  for B :: "'x bindings" and c :: bool and T :: "'a pod" and A :: "('x, 'v, 'b) atomic_value"
where
  start: "reachable B c T A \<lparr>sy_poisoned = False, sy_state = None, sy_world = w\<rparr>"
| step: "reachable B c T A s \<Longrightarrow> api_step B c T A s t \<Longrightarrow> reachable B c T A t"

text \<open>A call of the crate either keeps the state, or is one of the four that change it.\<close>

lemmas kept_states =
  my_pe_call.keeps_state n_pes_call.keeps_state heap_base_call.keeps_state
  putmem_call.keeps_state getmem_call.keeps_state put_call.keeps_state get_call.keeps_state
  fence_call.keeps_state quiet_call.keeps_state quiet_pe_call.keeps_state
  atomic_call.keeps_state cswap_call.keeps_state fetch_call.keeps_state fcswap_call.keeps_state
  barrier_call.keeps_state broadcast_call.keeps_state collect_call.keeps_state
  reduce_call.keeps_state barrier_nb_call.keeps_state broadcast_nb_call.keeps_state
  collect_nb_call.keeps_state reduce_nb_call.keeps_state

lemmas kept_poison =
  my_pe_call.keeps_poison n_pes_call.keeps_poison heap_base_call.keeps_poison
  putmem_call.keeps_poison getmem_call.keeps_poison put_call.keeps_poison get_call.keeps_poison
  fence_call.keeps_poison quiet_call.keeps_poison quiet_pe_call.keeps_poison
  atomic_call.keeps_poison cswap_call.keeps_poison fetch_call.keeps_poison fcswap_call.keeps_poison
  barrier_call.keeps_poison broadcast_call.keeps_poison collect_call.keeps_poison
  reduce_call.keeps_poison barrier_nb_call.keeps_poison broadcast_nb_call.keeps_poison
  collect_nb_call.keeps_poison reduce_nb_call.keeps_poison

lemma api_step_cases:
  assumes "api_step B c T A s t"
  obtains (init) r where "init B c s = Some (r, t)"
  | (finalize) r where "finalize B s = Some (r, t)"
  | (malloc) sz r where "symheap_malloc sz s = Some (r, t)"
  | (free) p r where "symheap_free p s = Some (r, t)"
  | (keeps) "sy_state t = sy_state s" and "sy_poisoned s \<Longrightarrow> sy_poisoned t"
  using assms
  by (cases rule: api_step.cases)
    ((erule init finalize malloc free
      | (rule keeps, erule kept_states, erule (1) kept_poison)
      | (rule keeps; simp))+)

lemma sys_inv_keeps: "sy_state t = sy_state s \<Longrightarrow> sys_inv s \<Longrightarrow> sys_inv t"
  by (simp add: sys_inv_def)

lemma api_step_inv:
  assumes "alloc_contract B" and "api_step B c T A s t" and "sys_inv s"
  shows "sys_inv t"
  using assms(2)
proof (cases rule: api_step_cases)
  case (init r)
  then show ?thesis by (rule init_inv [OF assms(1) _ assms(3)])
next
  case (finalize r)
  then show ?thesis by (rule finalize_inv [OF _ assms(3)])
next
  case (malloc sz r)
  then show ?thesis by (rule symheap_malloc_step(1) [OF assms(3)])
next
  case (free p r)
  then show ?thesis by (rule symheap_free_step(1) [OF assms(3)])
next
  case keeps
  from keeps(1) assms(3) show ?thesis by (rule sys_inv_keeps)
qed

lemma reachable_inv:
  assumes "alloc_contract B" and "reachable B c T A s"
  shows "sys_inv s"
  using assms(2)
proof (induction rule: reachable.induct)
  case (start w)
  then show ?case by (simp add: sys_inv_def)
next
  case (step s t)
  from assms(1) step.hyps(2) step.IH show ?case by (rule api_step_inv)
qed

text \<open>Once poisoned, the lock stays poisoned and the state frozen.\<close>

lemma api_step_poisoned:
  assumes "api_step B c T A s t" and "sy_poisoned s"
  shows "sy_poisoned t \<and> sy_state t = sy_state s"
  using assms(1)
proof (cases rule: api_step_cases)
  case (init r)
  then show ?thesis using assms(2) by (cases rule: init_cases) (auto simp: ready_def)
next
  case (finalize r)
  then show ?thesis using assms(2) by (cases rule: finalize_cases) (auto simp: ready_def)
next
  case (malloc sz r)
  then show ?thesis
    using assms(2) by (simp add: symheap_malloc_def with_state_mut_def with_lock_def)
next
  case (free p r)
  then show ?thesis
    using assms(2) by (simp add: symheap_free_def with_state_mut_def with_lock_def)
next
  case keeps
  with assms(2) show ?thesis by simp
qed

end
