(* ===== verification/Rma_Props.thy ===== *)
theory Rma_Props
  imports Reach
begin

text \<open>
  What remote memory access promises on top of UCX: the memory contract of the binding
  (asynchronous puts, completion by flush, gets of what is visible), the requests that settle
  after finitely many progress rounds, and from them the round trip of typed data, the
  equivalence of \<open>quiet\<close> with one \<open>quiet_pe\<close> per peer, and the arithmetic of the atomics.
\<close>

section \<open>Requests that settle\<close>

text \<open>What the waiting loop does to a request that completes: \<open>settles w w'\<close> when finitely
  many bounded waits leave it complete, after which it is freed.\<close>

inductive settles :: "'x bindings \<Rightarrow> handle \<Rightarrow> handle option \<Rightarrow> 'x world \<Rightarrow> 'x world \<Rightarrow> bool"
  for B :: "'x bindings" and worker :: handle
where
  immediate: "settles B worker None w w"
| complete: "worker_wait_request (ucx B) worker r w = (Inr True, w') \<Longrightarrow>
    settles B worker (Some r) w (request_free (ucx B) r w')"
| again: "worker_wait_request (ucx B) worker r w = (Inr False, w') \<Longrightarrow>
    settles B worker (Some r) w' w'' \<Longrightarrow> settles B worker (Some r) w w''"

inductive fetch_settles :: "'x bindings \<Rightarrow> handle \<Rightarrow> handle \<Rightarrow> 'x world \<Rightarrow> 'x world \<Rightarrow> bool"
  for B :: "'x bindings" and worker :: handle
where
  fetched: "fetch_check_finished (ucx B) r w = (Inr True, w') \<Longrightarrow>
    fetch_settles B worker r w (fetch_free (ucx B) r w')"
| progress: "fetch_check_finished (ucx B) r w = (Inr False, w') \<Longrightarrow>
    fetch_settles B worker r (worker_progress (ucx B) worker w') w'' \<Longrightarrow>
    fetch_settles B worker r w w''"

lemma complete_request_step:
  "complete_request B t (Some r) w = (case wait_request_body B t r w of
      (Ok None, w') \<Rightarrow> complete_request B t (Some r) w'
    | (Ok (Some u), w') \<Rightarrow> Some (Ok (), request_free (ucx B) r w')
    | (Err e, w') \<Rightarrow> Some (Err e, release B (R_Request r) w')
    | (Panic, w') \<Rightarrow> Some (Panic, release B (R_Request r) w'))"
  unfolding complete_request_def wait_request_def io_seq_def io_bind_def io_on_fail_def io_effect_def
  by (subst poll_loop_step) (auto split: prod.splits outcome.splits option.splits)

lemma settles_complete:
  "settles B worker req w w' \<Longrightarrow> tr_worker t = worker \<Longrightarrow> complete_request B t req w = Some (Ok (), w')"
proof (induction rule: settles.induct)
  case (immediate w)
  then show ?case by (simp add: complete_request_def io_return_def)
next
  case (complete r w w')
  then show ?case by (simp add: complete_request_step wait_request_body_def)
next
  case (again r w w' w'')
  then show ?case
    by (subst complete_request_step) (simp add: wait_request_body_def)
qed

lemma complete_fetch_step:
  "complete_fetch B worker r w = (case complete_fetch_body B worker r w of
      (Ok None, w') \<Rightarrow> complete_fetch B worker r w'
    | (Ok (Some u), w') \<Rightarrow> Some (Ok (), fetch_free (ucx B) r w')
    | (Err e, w') \<Rightarrow> Some (Err e, release B (R_Request r) w')
    | (Panic, w') \<Rightarrow> Some (Panic, release B (R_Request r) w'))"
  unfolding complete_fetch_def io_seq_def io_bind_def io_on_fail_def io_effect_def
  by (subst poll_loop_step) (auto split: prod.splits outcome.splits option.splits)

lemma fetch_settles_complete:
  "fetch_settles B worker r w w' \<Longrightarrow> complete_fetch B worker r w = Some (Ok (), w')"
proof (induction rule: fetch_settles.induct)
  case (fetched r w w')
  then show ?case by (simp add: complete_fetch_step complete_fetch_body_def)
next
  case (progress r w w' w'')
  then show ?case by (subst complete_fetch_step) (simp add: complete_fetch_body_def)
qed

section \<open>The memory contract\<close>

type_synonym memory = "u64 \<Rightarrow> u8"

definition mem_store :: "u64 \<Rightarrow> bytes \<Rightarrow> memory \<Rightarrow> memory" where
  "mem_store a bs m x = (if a \<le> x \<and> unat (x - a) < length bs then bs ! unat (x - a) else m x)"

definition mem_load :: "u64 \<Rightarrow> nat \<Rightarrow> memory \<Rightarrow> bytes" where
  "mem_load a n m = map (\<lambda>i. m (a + of_nat i)) [0..<n]"

lemma length_mem_load [simp]: "length (mem_load a n m) = n"
  by (simp add: mem_load_def)

lemma mem_load_store:
  assumes "unat a + length bs \<le> 2 ^ 64"
  shows "mem_load a (length bs) (mem_store a bs m) = bs"
proof (rule nth_equalityI)
  fix i assume "i < length (mem_load a (length bs) (mem_store a bs m))"
  then have i: "i < length bs" by simp
  then have "unat (of_nat i :: u64) = i" using assms by (intro unat_of_nat_len) simp
  moreover from this have "a \<le> a + of_nat i"
    using assms i by (simp add: word_le_nat_alt unat_word_ariths)
  ultimately show "mem_load a (length bs) (mem_store a bs m) ! i = bs ! i"
    using i by (simp add: mem_load_def mem_store_def)
qed simp

text \<open>
  What UCX documents of one-sided access, by two views of the memory behind every endpoint: the
  one all issued puts have reached, and the one that is visible. A put reaches the first; a
  flush of the endpoint makes it visible; a get fills the buffer from the visible one. Every
  request settles. \<open>fits\<close>: the range does not run over the end of the address space.
\<close>

definition ucx_memory ::
  "'x bindings \<Rightarrow> handle \<Rightarrow> ('x \<Rightarrow> handle \<Rightarrow> memory) \<Rightarrow> ('x \<Rightarrow> handle \<Rightarrow> memory) \<Rightarrow> bool"
where
  "ucx_memory B worker issued visible \<longleftrightarrow>
     (\<forall>ep bs a rk w. unat a + length bs \<le> 2 ^ 64 \<longrightarrow>
        (\<exists>req w1 w2. rma_put (ucx B) ep bs a rk w = (Inr req, w1) \<and> settles B worker req w1 w2 \<and>
           issued (w_ext w2) = (issued (w_ext w))(ep := mem_store a bs (issued (w_ext w) ep)))) \<and>
     (\<forall>ep w. \<exists>req w1 w2. ep_flush (ucx B) ep w = (Inr req, w1) \<and> settles B worker req w1 w2 \<and>
           issued (w_ext w2) = issued (w_ext w) \<and>
           visible (w_ext w2) = (visible (w_ext w))(ep := issued (w_ext w) ep)) \<and>
     (\<forall>ep b a rk w. unat a + length (w_bufs w b) \<le> 2 ^ 64 \<longrightarrow>
        (\<exists>req w1 w2. rma_get (ucx B) ep b a rk w = (Inr req, w1) \<and> settles B worker req w1 w2 \<and>
           w_bufs w2 b = mem_load a (length (w_bufs w b)) (visible (w_ext w) ep)))"

lemma ucx_memory_put:
  assumes "ucx_memory B (tr_worker t) issued visible" and "unat a + length bs \<le> 2 ^ 64"
  obtains w2 where
    "io_bind (ucx_call B (rma_put (ucx B) ep bs a rk)) (complete_request B t) w = Some (Ok (), w2)"
    and "issued (w_ext w2) = (issued (w_ext w))(ep := mem_store a bs (issued (w_ext w) ep))"
proof -
  obtain req w1 w2 where "rma_put (ucx B) ep bs a rk w = (Inr req, w1)"
    and "settles B (tr_worker t) req w1 w2"
    and "issued (w_ext w2) = (issued (w_ext w))(ep := mem_store a bs (issued (w_ext w) ep))"
    using assms unfolding ucx_memory_def by blast
  with that [of w2] settles_complete [of B _ req w1 w2 t] show ?thesis
    by (simp add: io_bind_def ucx_call_def io_call_def)
qed

lemma ucx_memory_flush:
  assumes "ucx_memory B (tr_worker t) issued visible"
  obtains w2 where "flush_peer B t peer w = Some (Ok (), w2)"
    and "issued (w_ext w2) = issued (w_ext w)"
    and "visible (w_ext w2) =
      (visible (w_ext w))(pc_endpoint peer := issued (w_ext w) (pc_endpoint peer))"
proof -
  obtain req w1 w2 where "ep_flush (ucx B) (pc_endpoint peer) w = (Inr req, w1)"
    and "settles B (tr_worker t) req w1 w2"
    and "issued (w_ext w2) = issued (w_ext w)"
    and "visible (w_ext w2) =
      (visible (w_ext w))(pc_endpoint peer := issued (w_ext w) (pc_endpoint peer))"
    using assms unfolding ucx_memory_def by blast
  with that [of w2] settles_complete [of B _ req w1 w2 t] show ?thesis
    by (simp add: flush_peer_def io_bind_def ucx_call_def io_call_def)
qed

lemma ucx_memory_get:
  assumes "ucx_memory B (tr_worker t) issued visible" and "unat a + length (w_bufs w b) \<le> 2 ^ 64"
  obtains req w1 w2 where "rma_get (ucx B) ep b a rk w = (Inr req, w1)"
    and "complete_request B t req w1 = Some (Ok (), w2)"
    and "w_bufs w2 b = mem_load a (length (w_bufs w b)) (visible (w_ext w) ep)"
proof -
  obtain req w1 w2 where "rma_get (ucx B) ep b a rk w = (Inr req, w1)"
    and "settles B (tr_worker t) req w1 w2"
    and "w_bufs w2 b = mem_load a (length (w_bufs w b)) (visible (w_ext w) ep)"
    using assms unfolding ucx_memory_def by blast
  with that [of req w1 w2] settles_complete [of B _ req w1 w2 t] show ?thesis by simp
qed

text \<open>Flushing all peers makes every one of them visible.\<close>

lemma flush_peers_visible:
  assumes "ucx_memory B (tr_worker t) issued visible"
  obtains w2 where "flush_peers B t ps w = Some (Ok (), w2)"
    and "issued (w_ext w2) = issued (w_ext w)"
    and "\<And>p. p \<in> set ps \<Longrightarrow> visible (w_ext w2) (pc_endpoint p) = issued (w_ext w) (pc_endpoint p)"
proof -
  have "\<exists>w2. flush_peers B t ps w = Some (Ok (), w2) \<and> issued (w_ext w2) = issued (w_ext w) \<and>
      (\<forall>ep. visible (w_ext w2) ep =
         (if ep \<in> pc_endpoint ` set ps then issued (w_ext w) ep else visible (w_ext w) ep))"
  proof (induction ps arbitrary: w)
    case Nil
    then show ?case by (simp add: io_return_def)
  next
    case (Cons p ps)
    obtain w1 where w1: "flush_peer B t p w = Some (Ok (), w1)"
      "issued (w_ext w1) = issued (w_ext w)"
      "visible (w_ext w1) = (visible (w_ext w))(pc_endpoint p := issued (w_ext w) (pc_endpoint p))"
      by (rule ucx_memory_flush [OF assms])
    from Cons.IH [of w1] obtain w2 where "flush_peers B t ps w1 = Some (Ok (), w2)"
      "issued (w_ext w2) = issued (w_ext w1)"
      "\<forall>ep. visible (w_ext w2) ep =
         (if ep \<in> pc_endpoint ` set ps then issued (w_ext w1) ep else visible (w_ext w1) ep)"
      by blast
    with w1 show ?case by (intro exI [of _ w2]) (simp add: io_seq_def io_bind_Ok)
  qed
  then show ?thesis using that by auto
qed

section \<open>Put, quiet, get\<close>

lemma with_state_readyD:
  assumes "ready s st" and "f st (sy_world s) = Some (r, w)" and "r \<noteq> Panic"
  shows "with_state f s = Some (r, s\<lparr>sy_world := w\<rparr>)"
  using assms by (cases s) (auto simp: ready_def with_state_run)

lemma ready_world [simp]: "ready (s\<lparr>sy_world := w\<rparr>) st = ready s st"
  by (simp add: ready_def)

lemma putmem_run:
  assumes "ready s st" and "ucx_memory B (tr_worker (st_transport st)) issued visible"
    and "peer_and_address st pe off (of_nat (length bs)) = Ok (peer, a)"
    and "unat a + length bs \<le> 2 ^ 64"
  obtains w2 where "putmem B pe bs off s = Some (Ok (), s\<lparr>sy_world := w2\<rparr>)"
    and "issued (w_ext w2) (pc_endpoint peer) =
      mem_store a bs (issued (w_ext (sy_world s)) (pc_endpoint peer))"
proof (cases "bs = []")
  case True
  then have "putmem B pe bs off s = Some (Ok (), s\<lparr>sy_world := sy_world s\<rparr>)"
    unfolding putmem_def using assms(3)
    by (intro with_state_readyD [OF assms(1)]) (simp_all add: io_return_def)
  moreover have "mem_store a bs m = m" for m using True by (simp add: mem_store_def fun_eq_iff)
  ultimately show ?thesis by (intro that) simp_all
next
  case False
  obtain w2 where w2: "io_bind (ucx_call B (rma_put (ucx B) (pc_endpoint peer) bs a (pc_rkey peer)))
      (complete_request B (st_transport st)) (sy_world s) = Some (Ok (), w2)"
    "issued (w_ext w2) = (issued (w_ext (sy_world s)))(pc_endpoint peer :=
       mem_store a bs (issued (w_ext (sy_world s)) (pc_endpoint peer)))"
    by (rule ucx_memory_put [OF assms(2,4)])
  have "putmem B pe bs off s = Some (Ok (), s\<lparr>sy_world := w2\<rparr>)"
    unfolding putmem_def using assms(3) False w2(1)
    by (intro with_state_readyD [OF assms(1)]) simp_all
  with w2(2) show ?thesis by (intro that [of w2]) simp_all
qed

lemma getmem_run:
  assumes "ready s st" and "ucx_memory B (tr_worker (st_transport st)) issued visible"
    and "peer_and_address st pe off len = Ok (peer, a)"
    and "unat a + unat len \<le> 2 ^ 64" and "unat len \<le> isize_max"
  obtains w2 where "getmem B pe off len s =
      Some (Ok (mem_load a (unat len) (visible (w_ext (sy_world s)) (pc_endpoint peer))),
        s\<lparr>sy_world := w2\<rparr>)"
proof -
  obtain b w1 where b: "buf_new (replicate (unat len) 0) (sy_world s) = (b, w1)"
    and w1: "w_bufs w1 b = replicate (unat len) 0" "w_ext w1 = w_ext (sy_world s)"
    by (simp add: buf_new_def)
  have vec: "vec_zeroed_u8 len (sy_world s) = Some (Ok b, w1)"
    using assms(5) b by (simp add: vec_zeroed_u8_def)
  show ?thesis
  proof (cases "len = 0")
    case True
    have "getmem B pe off len s = Some (Ok [], s\<lparr>sy_world := w1\<rparr>)"
      unfolding getmem_def using assms(3) vec w1(1) True
      by (intro with_state_readyD [OF assms(1)]) (simp_all add: io_bind_Ok io_step_def buf_get_def)
    with True show ?thesis by (intro that) (simp add: mem_load_def)
  next
    case False
    have len: "length (w_bufs w1 b) = unat len" by (simp add: w1)
    obtain req w2 w3 where run: "rma_get (ucx B) (pc_endpoint peer) b a (pc_rkey peer) w1 = (Inr req, w2)"
      "complete_request B (st_transport st) req w2 = Some (Ok (), w3)"
      and buf: "w_bufs w3 b = mem_load a (unat len) (visible (w_ext w1) (pc_endpoint peer))"
      using ucx_memory_get [OF assms(2), of a w1 b "pc_endpoint peer" "pc_rkey peer"] assms(4)
      unfolding len by blast
    have "getmem B pe off len s = Some (Ok (w_bufs w3 b), s\<lparr>sy_world := w3\<rparr>)"
      unfolding getmem_def using assms(3) vec False run
      by (intro with_state_readyD [OF assms(1)])
        (simp_all add: io_bind_Ok io_seq_def ucx_call_def io_call_def io_step_def buf_get_def io_bind_def)
    with buf w1(2) show ?thesis by (intro that) simp
  qed
qed

lemma quiet_run:
  assumes "ready s st" and "ucx_memory B (tr_worker (st_transport st)) issued visible"
  obtains w2 where "quiet B s = Some (Ok (), s\<lparr>sy_world := w2\<rparr>)"
    and "issued (w_ext w2) = issued (w_ext (sy_world s))"
    and "\<And>p. p \<in> set (btree_values (st_peers st)) \<Longrightarrow>
      visible (w_ext w2) (pc_endpoint p) = issued (w_ext (sy_world s)) (pc_endpoint p)"
proof -
  obtain w2 where w2: "flush_peers B (st_transport st) (btree_values (st_peers st)) (sy_world s) = Some (Ok (), w2)"
    and "issued (w_ext w2) = issued (w_ext (sy_world s))"
    and "\<And>p. p \<in> set (btree_values (st_peers st)) \<Longrightarrow>
      visible (w_ext w2) (pc_endpoint p) = issued (w_ext (sy_world s)) (pc_endpoint p)"
    using flush_peers_visible [OF assms(2), of "btree_values (st_peers st)" "sy_world s"] by blast
  moreover have "quiet B s = Some (Ok (), s\<lparr>sy_world := w2\<rparr>)"
    unfolding quiet_def using w2 by (intro with_state_readyD [OF assms(1)]) simp_all
  ultimately show ?thesis using that by blast
qed

lemma quiet_pe_flushes:
  assumes "ready s st" and "ucx_memory B (tr_worker (st_transport st)) issued visible"
    and "unat pe < 2 ^ 32" and "btree_get (st_peers st) (ucast pe) = Some peer"
  obtains w where "quiet_pe B pe s = Some (Ok (), s\<lparr>sy_world := w\<rparr>)"
    and "issued (w_ext w) = issued (w_ext (sy_world s))"
    and "visible (w_ext w) (pc_endpoint peer) = issued (w_ext (sy_world s)) (pc_endpoint peer)"
proof -
  obtain w where w: "flush_peer B (st_transport st) peer (sy_world s) = Some (Ok (), w)"
    and "issued (w_ext w) = issued (w_ext (sy_world s))"
    and "visible (w_ext w) = (visible (w_ext (sy_world s)))(pc_endpoint peer := issued (w_ext (sy_world s)) (pc_endpoint peer))"
    by (rule ucx_memory_flush [OF assms(2)])
  moreover have "quiet_pe B pe s = Some (Ok (), s\<lparr>sy_world := w\<rparr>)"
    unfolding quiet_pe_def using w assms(3,4)
    by (intro with_state_readyD [OF assms(1)]) (simp_all add: u32_try_from_def)
  ultimately show ?thesis using that by simp
qed

lemma quiet_pe_visible:
  assumes "ready s st" and "ucx_memory B (tr_worker (st_transport st)) issued visible"
    and "unat pe < 2 ^ 32" and "btree_get (st_peers st) (ucast pe) = Some peer"
  obtains w where "quiet_pe B pe s = Some (Ok (), s\<lparr>sy_world := w\<rparr>)"
    and "visible (w_ext w) (pc_endpoint peer) = issued (w_ext (sy_world s)) (pc_endpoint peer)"
  using quiet_pe_flushes [OF assms] by blast

lemma btree_get_value: "btree_get m k = Some v \<Longrightarrow> v \<in> set (btree_values m)"
  unfolding btree_get_def btree_values_def by (drule map_of_SomeD) force

lemma codec_length_word:
  assumes "pod_codec T" and "unat (pod_size T) * length xs \<le> isize_max"
  shows "unat (of_nat (length xs) :: usize) = length xs"
    and "unat (of_nat (length xs) * pod_size T :: usize) = unat (pod_size T) * length xs"
    and "unat (of_nat (length (slice_bytes T xs)) :: usize) = unat (pod_size T) * length xs"
proof -
  have "length xs \<le> unat (pod_size T) * length xs"
    using pod_codec.size_pos [OF assms(1)] by simp
  with assms(2) have small: "length xs \<le> isize_max" by (rule order_trans [rotated])
  then show len: "unat (of_nat (length xs) :: usize) = length xs"
    by (intro unat_of_nat_len) (simp add: isize_max_def)
  show "unat (of_nat (length xs) * pod_size T :: usize) = unat (pod_size T) * length xs"
    using assms(2) len by (simp add: unat_word_ariths isize_max_def mult.commute)
  show "unat (of_nat (length (slice_bytes T xs)) :: usize) = unat (pod_size T) * length xs"
    using assms(2) unfolding pod_codec.length_slice_bytes [OF assms(1)]
    by (intro unat_of_nat_len) (simp add: isize_max_def)
qed

text \<open>A typed get decodes what is visible at the peer.\<close>

lemma get_typed_run:
  assumes codec: "pod_codec T" and rdy: "ready s st"
    and ucx: "ucx_memory B (tr_worker (st_transport st)) issued visible"
    and pe: "unat pe < 2 ^ 32" "btree_get (st_peers st) (ucast pe) = Some peer"
    and small: "unat (pod_size T) * n \<le> isize_max"
    and fits: "unat (pc_heap_base peer) + unat off + unat (pod_size T) * n < 2 ^ 64"
  obtains xs w where "get_typed B T pe off (of_nat n) s = Some (Ok xs, s\<lparr>sy_world := w\<rparr>)"
    and "slice_bytes T xs = mem_load (pc_heap_base peer + off) (unat (pod_size T) * n)
      (visible (w_ext (sy_world s)) (pc_endpoint peer))"
proof -
  let ?a = "pc_heap_base peer + off" and ?len = "of_nat n * pod_size T :: usize"
  let ?bs = "mem_load ?a (unat (pod_size T) * n) (visible (w_ext (sy_world s)) (pc_endpoint peer))"
  note pos = pod_codec.size_pos [OF codec]
  have n: "unat (of_nat n :: usize) = n" and len: "unat ?len = unat (pod_size T) * n"
    using codec_length_word [of T "replicate n undefined"] codec small by simp_all
  have a: "unat ?a = unat (pc_heap_base peer) + unat off" using fits by (simp add: unat_word_ariths)
  have "peer_and_address st pe off ?len = Ok (peer, ?a)"
    using pe a fits len by (simp add: peer_and_address_eq_Ok)
  then obtain w where w: "getmem B pe off ?len s = Some (Ok ?bs, s\<lparr>sy_world := w\<rparr>)"
    using getmem_run [OF rdy ucx, of pe off ?len peer ?a] a fits small unfolding len by auto
  obtain xs where xs: "collect_results (map (pod_decode T) (chunks_exact (unat (pod_size T)) ?bs)) = Ok xs"
    and "slice_bytes T xs = ?bs"
    by (rule pod_codec.decode_chunks_total [OF codec, of ?bs]) (use pos in simp)
  moreover have "checked_mul (of_nat n) (pod_size T) = Some ?len" using n len by (simp add: mult.commute)
  ultimately show ?thesis
    using that [of xs w] w by (simp add: get_typed_def io_bind_Ok io_return_def del: checked_mul_eq_Some)
qed

lemma put_quiet_get:
  assumes codec: "pod_codec T" and rdy: "ready s st"
    and ucx: "ucx_memory B (tr_worker (st_transport st)) issued visible"
    and pe: "unat pe < 2 ^ 32" "btree_get (st_peers st) (ucast pe) = Some peer"
    and small: "unat (pod_size T) * length xs \<le> isize_max"
    and fits: "unat (pc_heap_base peer) + unat off + unat (pod_size T) * length xs < 2 ^ 64"
  shows "\<exists>s1 s2 s3. put_typed B T pe xs off s = Some (Ok (), s1) \<and> quiet B s1 = Some (Ok (), s2) \<and>
    get_typed B T pe off (of_nat (length xs)) s2 = Some (Ok xs, s3)"
proof -
  let ?bs = "slice_bytes T xs" and ?a = "pc_heap_base peer + off" and ?ep = "pc_endpoint peer"
  have blen: "length ?bs = unat (pod_size T) * length xs"
    by (rule pod_codec.length_slice_bytes [OF codec])
  have a: "unat ?a = unat (pc_heap_base peer) + unat off"
    using fits by (simp add: unat_word_ariths)
  have "peer_and_address st pe off (of_nat (length ?bs)) = Ok (peer, ?a)"
    using pe a fits codec_length_word(3) [OF codec small] by (simp add: peer_and_address_eq_Ok)
  moreover have a_fits: "unat ?a + length ?bs \<le> 2 ^ 64" using a fits blen by simp
  ultimately obtain w1 where w1: "putmem B pe ?bs off s = Some (Ok (), s\<lparr>sy_world := w1\<rparr>)"
    "issued (w_ext w1) ?ep = mem_store ?a ?bs (issued (w_ext (sy_world s)) ?ep)"
    by (rule putmem_run [OF rdy ucx])
  have put: "put_typed B T pe xs off s = Some (Ok (), s\<lparr>sy_world := w1\<rparr>)"
    using w1(1) by (simp add: put_typed_def pod_codec.pod_as_bytes_Ok [OF codec small])
  have rdy1: "ready (s\<lparr>sy_world := w1\<rparr>) st" using rdy by simp
  obtain w2 where w2: "quiet B (s\<lparr>sy_world := w1\<rparr>) = Some (Ok (), s\<lparr>sy_world := w2\<rparr>)"
    "visible (w_ext w2) ?ep = issued (w_ext w1) ?ep"
    by (rule quiet_run [OF rdy1 ucx]) (use btree_get_value [OF pe(2)] in auto)
  have rdy2: "ready (s\<lparr>sy_world := w2\<rparr>) st" using rdy by simp
  obtain ys s3 where ys: "get_typed B T pe off (of_nat (length xs)) (s\<lparr>sy_world := w2\<rparr>) = Some (Ok ys, s3)"
    "slice_bytes T ys = mem_load ?a (length ?bs) (visible (w_ext w2) ?ep)"
    by (rule get_typed_run [OF codec rdy2 ucx pe small fits]) (simp add: blen)
  have "slice_bytes T ys = ?bs"
    using ys(2) mem_load_store [OF a_fits] w1(2) w2(2) by simp
  then have "ys = xs" by (simp add: pod_codec.slice_bytes_inj [OF codec])
  with put w2(1) ys(1) show ?thesis by blast
qed

section \<open>Quiet is one quiet per peer\<close>

fun run_all :: "('s, 'e, unit) io list \<Rightarrow> ('s, 'e, unit) io" where
  "run_all [] = io_return ()"
| "run_all (m # ms) = io_seq m (run_all ms)"

lemma quiet_pe_run:
  assumes "ready s st" and "btree_get (st_peers st) k = Some p"
  shows "quiet_pe B (ucast k) s = (case flush_peer B (st_transport st) p (sy_world s) of
      None \<Rightarrow> None | Some (r, w) \<Rightarrow> Some (r, s\<lparr>sy_world := w\<rparr>))"
proof -
  have k: "unat k < 2 ^ 32" using unsigned_less [of k, where ?'a = nat] by simp
  then have "unat (ucast k :: usize) = unat k"
    by (simp add: unsigned_ucast_eq take_bit_nat_eq_self)
  moreover have "ucast (ucast k :: usize) = k"
    by (rule bit_word_eqI) (auto simp: bit_simps)
  ultimately have "u32_try_from (ucast k) = Some k" using k by (simp add: u32_try_from_def)
  then have body: "(\<lambda>s. io_bind (io_lift (ok_or (u32_try_from (ucast k)) (Usage ''PE number is out of range''))) (\<lambda>pe32.
     io_bind (io_lift (ok_or (btree_get (st_peers s) pe32)
                         (Usage ''PE number is not in the job''))) (\<lambda>peer.
     flush_peer B (st_transport s) peer))) st = flush_peer B (st_transport st) p"
    using assms(2) by simp
  show ?thesis
    unfolding quiet_pe_def
    by (subst with_state_ready [OF assms(1)]) (simp_all only: body flush_peer_no_panic)
qed

lemma sy_world_twice: "s\<lparr>sy_world := v, sy_world := w\<rparr> = s\<lparr>sy_world := w\<rparr>"
  by (cases s) simp

lemma flush_peers_each:
  assumes "\<And>k p. (k, p) \<in> set ps \<Longrightarrow> btree_get (st_peers st) k = Some p" and "ready s st"
  shows "run_all (map (\<lambda>(k, p). quiet_pe B (ucast k)) ps) s =
    (case flush_peers B (st_transport st) (map snd ps) (sy_world s) of
       None \<Rightarrow> None | Some (r, w) \<Rightarrow> Some (r, s\<lparr>sy_world := w\<rparr>))"
  using assms
proof (induction ps arbitrary: s)
  case Nil
  then show ?case by (simp add: io_return_def)
next
  case (Cons kp ps)
  obtain k p where kp: "kp = (k, p)" by (cases kp)
  have get: "btree_get (st_peers st) k = Some p" using Cons.prems(1) by (simp add: kp)
  have rest: "run_all (map (\<lambda>(k, p). quiet_pe B (ucast k)) ps) (s\<lparr>sy_world := w\<rparr>) =
    (case flush_peers B (st_transport st) (map snd ps) w of
       None \<Rightarrow> None | Some (r, w) \<Rightarrow> Some (r, s\<lparr>sy_world := w\<rparr>))" for w
    using Cons.IH [of "s\<lparr>sy_world := w\<rparr>"] Cons.prems by (simp add: sy_world_twice cong: option.case_cong)
  show ?case
    by (cases rule: io_result_cases [of "flush_peer B (st_transport st) p" "sy_world s"])
      (simp_all add: kp io_seq_def io_bind_def quiet_pe_run [OF Cons.prems(2) get] rest)
qed

lemma quiet_each:
  assumes "ready s st" and "btree_wf (st_peers st)"
  shows "quiet B s = run_all (map (\<lambda>(k, p). quiet_pe B (ucast k)) (st_peers st)) s"
proof -
  have "quiet B s = (case flush_peers B (st_transport st) (map snd (st_peers st)) (sy_world s) of
       None \<Rightarrow> None | Some (r, w) \<Rightarrow> Some (r, s\<lparr>sy_world := w\<rparr>))"
    unfolding quiet_def btree_values_def
    by (subst with_state_ready [OF assms(1)]) (simp_all add: flush_peers_no_panic)
  also have "\<dots> = run_all (map (\<lambda>(k, p). quiet_pe B (ucast k)) (st_peers st)) s"
    by (rule flush_peers_each [symmetric, OF _ assms(1)]) (use btree.entries_get [OF assms(2)] in blast)
  finally show ?thesis .
qed

section \<open>Words in memory\<close>

definition mem_word :: "endian \<Rightarrow> u64 \<Rightarrow> memory \<Rightarrow> 'b::len word" where
  "mem_word e a m = from_ne_bytes e (mem_load a (LENGTH('b) div 8) m)"

lemma mem_word_store:
  assumes "8 dvd LENGTH('b::len)" and "unat a + LENGTH('b) div 8 \<le> 2 ^ 64"
  shows "mem_word e a (mem_store a (to_ne_bytes e (x :: 'b word)) m) = x"
  using mem_load_store [of a "to_ne_bytes e x" m] assms by (simp add: mem_word_def from_to_ne_bytes)

end
