(* ===== verification/Coll_Props.thy ===== *)
theory Coll_Props
  imports Rma_Props
begin

text \<open>
  Lemmas on the collectives: the codec round trip, when a posted operation completes and what
  waiting for it, blocking or through a request, comes to, and that an in-place collective is
  its non-blocking form followed by \<open>wait\<close>. What the code relies on of UCC enters as named
  hypotheses: its two status codes differ (\<open>ucc_codes\<close>), dropping an operation does not look at
  the buffers (\<open>coll_drop_local\<close>), and no call resizes a buffer (\<open>ucc_keeps_lengths\<close>).
\<close>

section \<open>The codec of the collectives\<close>

lemma encode_Ok:
  assumes "pod_codec T" and "unat (pod_size T) * length xs \<le> isize_max"
  shows "encode T xs = Ok (slice_bytes T xs)"
proof -
  have "checked_mul (of_nat (length xs)) (pod_size T) = Some (of_nat (length xs) * pod_size T)"
    using codec_length_word [OF assms] by (simp add: mult.commute)
  then show ?thesis
    using codec_length_word(2) [OF assms] assms(2)
    by (simp add: encode_def pod_codec.fold_encode [OF assms(1)] del: checked_mul_eq_Some)
qed

lemma decode_loop_slice:
  assumes "pod_codec T"
  shows "length vs = length xs \<Longrightarrow> decode_loop T vs (map (pod_object T) xs) = (Ok (), xs)"
  by (induction vs xs rule: list_induct2) (simp_all add: pod_codec.decode_object [OF assms])

lemma chunks_slice:
  assumes "pod_codec T"
  shows "chunks_exact (unat (pod_size T)) (slice_bytes T xs) = map (pod_object T) xs"
  unfolding slice_bytes_def
  using pod_codec.size_pos [OF assms] pod_codec.object_length [OF assms]
  by (intro chunks_exact_concat) auto

lemma decode_slice_bytes:
  assumes "pod_codec T" and "unat (pod_size T) * length xs \<le> isize_max" and "length vs = length xs"
  shows "decode T (slice_bytes T xs) vs = (Ok (), xs)"
proof -
  have "checked_mul (of_nat (length vs)) (pod_size T) = Some (of_nat (length xs) * pod_size T)"
    using codec_length_word [OF assms(1,2)] assms(3) by (simp add: mult.commute)
  then show ?thesis
    using codec_length_word(2) [OF assms(1,2)] assms(1,3)
    by (simp add: decode_def chunks_slice decode_loop_slice pod_codec.length_slice_bytes
        del: checked_mul_eq_Some)
qed

text \<open>Storing a slice and reading it back; a slice in memory is its values.\<close>

lemma slice_values_store:
  assumes "pod_codec T" and "length xs = unat n"
  shows "slice_values T d n (slice_store T d xs w) = xs"
proof (rule nth_equalityI)
  show "length (slice_values T d n (slice_store T d xs w)) = length xs"
    using assms(2) by (simp add: slice_values_def)
  fix i assume "i < length (slice_values T d n (slice_store T d xs w))"
  then have i: "i < length xs" using assms(2) by (simp add: slice_values_def)
  let ?k = "unat (pod_size T)"
  have "slice_bytes T xs = slice_bytes T (take i xs) @ pod_object T (xs ! i) @ slice_bytes T (drop (Suc i) xs)"
    by (subst id_take_nth_drop [OF i]) (simp add: slice_bytes_def)
  moreover have "length (slice_bytes T (take i xs)) = i * ?k" "length (pod_object T (xs ! i)) = ?k"
    using i by (simp_all add: pod_codec.length_slice_bytes [OF assms(1)] pod_codec.object_length [OF assms(1)])
  ultimately show "slice_values T d n (slice_store T d xs w) ! i = xs ! i"
    using i assms(2)
    by (simp add: slice_values_def slice_store_def Let_def pod_codec.value_object [OF assms(1)])
qed

section \<open>Operations that complete\<close>

inductive coll_completes :: "'x bindings \<Rightarrow> handle \<Rightarrow> handle \<Rightarrow> 'x world \<Rightarrow> 'x world \<Rightarrow> bool"
  for B :: "'x bindings" and ctx :: handle and coll :: handle
where
  ended: "coll_status (ucc B) coll w = (ucc_ok (ucc B), w1) \<Longrightarrow>
    coll_finalize (ucc B) coll w1 = (Inr u, w2) \<Longrightarrow> coll_completes B ctx coll w w2"
| running: "coll_status (ucc B) coll w = (ucc_no_message (ucc B), w1) \<Longrightarrow>
    coll_completes B ctx coll (ucc_progress (ucc B) ctx w1) w2 \<Longrightarrow>
    coll_completes B ctx coll w w2"

text \<open>The two codes are different constants of UCC.\<close>

definition ucc_codes :: "'x bindings \<Rightarrow> bool" where
  "ucc_codes B \<longleftrightarrow> ucc_ok (ucc B) \<noteq> ucc_no_message (ucc B)"

lemma coll_wait_body_simps:
  assumes "ucc_codes B"
  shows "coll_wait_body B ctx coll w = (Ok (Some ()), t) \<longleftrightarrow>
      (\<exists>w1 u. coll_status (ucc B) coll w = (ucc_ok (ucc B), w1) \<and> coll_finalize (ucc B) coll w1 = (Inr u, t))"
    and "coll_wait_body B ctx coll w = (Ok None, t) \<longleftrightarrow>
      (\<exists>w1. coll_status (ucc B) coll w = (ucc_no_message (ucc B), w1) \<and> t = ucc_progress (ucc B) ctx w1)"
  using assms by (auto simp: coll_wait_body_def ucc_codes_def split: prod.splits sum.splits if_splits)

lemma coll_loop_iff:
  assumes "ucc_codes B"
  shows "poll_ends (coll_wait_body B ctx coll) w () t \<longleftrightarrow> coll_completes B ctx coll w t"
proof
  show "poll_ends (coll_wait_body B ctx coll) w () t \<Longrightarrow> coll_completes B ctx coll w t"
  proof (induction w "()" t rule: poll_ends.induct)
    case (poll_last w t)
    then show ?case by (auto simp: coll_wait_body_simps [OF assms] intro: ended)
  next
    case (poll_round w w' t)
    then show ?case by (auto simp: coll_wait_body_simps [OF assms] intro: running)
  qed
  show "coll_completes B ctx coll w t \<Longrightarrow> poll_ends (coll_wait_body B ctx coll) w () t"
  proof (induction rule: coll_completes.induct)
    case (ended w w1 u w2)
    then show ?case by (intro poll_last) (auto simp: coll_wait_body_simps [OF assms])
  next
    case (running w w1 w2)
    then have "coll_wait_body B ctx coll w = (Ok None, ucc_progress (ucc B) ctx w1)"
      by (auto simp: coll_wait_body_simps [OF assms])
    then show ?case using running.IH by (rule poll_round)
  qed
qed

lemma coll_wait_iff:
  assumes "ucc_codes B"
  shows "coll_wait B ctx coll w = Some (Ok (), t) \<longleftrightarrow>
    (\<exists>w2. coll_completes B ctx coll w w2 \<and> t = release B (R_Coll coll) w2)"
  unfolding coll_wait_def io_finally_def
  by (auto simp: coll_loop_iff [OF assms, symmetric] poll_loop_Ok_iff [symmetric]
      split: option.splits)

lemma request_test_simps:
  assumes "ucc_codes B" and "cr_op q = Some coll"
  shows "request_test B (q, w) = (Ok True, s) \<longleftrightarrow>
      (\<exists>w1 u w2 w3. coll_status (ucc B) coll w = (ucc_ok (ucc B), w1) \<and>
         coll_finalize (ucc B) coll w1 = (Inr u, w2) \<and>
         request_copy_back (q\<lparr>cr_op := None\<rparr>) w2 = (Ok True, w3) \<and>
         s = (q\<lparr>cr_op := None\<rparr>, release B (R_Coll coll) w3))"
    and "request_test B (q, w) = (Ok False, s) \<longleftrightarrow>
      (\<exists>w1. coll_status (ucc B) coll w = (ucc_no_message (ucc B), w1) \<and>
         s = (q, ucc_progress (ucc B) (cr_context q) w1))"
proof -
  have "fst (request_copy_back q' w2) \<noteq> Ok False" for q' and w2 :: "'a world"
    by (auto simp: request_copy_back_def outcome_bind_eq_Ok split: option.splits prod.splits)
  then have copy: "request_copy_back q' w2 \<noteq> (Ok False, w3)" for q' and w2 w3 :: "'a world"
    by (metis fst_conv)
  show "request_test B (q, w) = (Ok True, s) \<longleftrightarrow>
      (\<exists>w1 u w2 w3. coll_status (ucc B) coll w = (ucc_ok (ucc B), w1) \<and>
         coll_finalize (ucc B) coll w1 = (Inr u, w2) \<and>
         request_copy_back (q\<lparr>cr_op := None\<rparr>) w2 = (Ok True, w3) \<and>
         s = (q\<lparr>cr_op := None\<rparr>, release B (R_Coll coll) w3))"
    using assms
    by (auto simp: request_test_def ucc_codes_def Let_def split: prod.splits sum.splits if_splits)
  show "request_test B (q, w) = (Ok False, s) \<longleftrightarrow>
      (\<exists>w1. coll_status (ucc B) coll w = (ucc_no_message (ucc B), w1) \<and>
         s = (q, ucc_progress (ucc B) (cr_context q) w1))"
    using assms copy
    by (auto simp: request_test_def ucc_codes_def Let_def split: prod.splits sum.splits if_splits)
qed

lemma request_wait_body_simps:
  "request_wait_body B s = (Ok (Some ()), t) \<longleftrightarrow> request_test B s = (Ok True, t)"
  "request_wait_body B s = (Ok None, t) \<longleftrightarrow> request_test B s = (Ok False, t)"
  by (auto simp: request_wait_body_def outcome_bind_eq_Ok split: prod.splits if_splits)

text \<open>Waiting for a request is completing its operation and copying back.\<close>

lemma request_wait_iff:
  assumes codes: "ucc_codes B" and q: "cr_op q = Some coll"
  shows "request_wait B (q, w) = Some (Ok (), (q', t)) \<longleftrightarrow>
    (\<exists>w2 w3. coll_completes B (cr_context q) coll w w2 \<and>
       request_copy_back (q\<lparr>cr_op := None\<rparr>) w2 = (Ok True, w3) \<and>
       q' = q\<lparr>cr_op := None\<rparr> \<and> t = release B (R_Coll coll) w3)"
    (is "?L \<longleftrightarrow> ?R")
proof -
  have "?L \<longleftrightarrow> poll_ends (request_wait_body B) (q, w) () (q', t)"
    by (simp add: request_wait_def poll_loop_Ok_iff)
  also have "\<dots> \<longleftrightarrow> ?R"
  proof
    show "poll_ends (request_wait_body B) (q, w) () (q', t) \<Longrightarrow> ?R"
    proof (induction "(q, w)" "()" "(q', t)" arbitrary: w rule: poll_ends.induct)
      case poll_last
      then show ?case
        by (auto simp: request_wait_body_simps request_test_simps [OF codes q]) (metis ended)
    next
      case (poll_round s')
      then show ?case
        by (auto simp: request_wait_body_simps request_test_simps [OF codes q]) (metis running)
    qed
    show "?R \<Longrightarrow> poll_ends (request_wait_body B) (q, w) () (q', t)"
    proof -
      assume ?R
      then obtain w2 w3 where "coll_completes B (cr_context q) coll w w2"
        and rest: "request_copy_back (q\<lparr>cr_op := None\<rparr>) w2 = (Ok True, w3)"
          "q' = q\<lparr>cr_op := None\<rparr>" "t = release B (R_Coll coll) w3" by blast
      from this(1) rest(1) show ?thesis
      proof (induction rule: coll_completes.induct)
        case (ended w w1 u w2)
        then show ?case
          using rest by (intro poll_last) (auto simp: request_wait_body_simps request_test_simps [OF codes q])
      next
        case (running w w1 w2)
        then have "request_wait_body B (q, w) = (Ok None, (q, ucc_progress (ucc B) (cr_context q) w1))"
          by (auto simp: request_wait_body_simps request_test_simps [OF codes q])
        then show ?case using running.IH [OF running.prems] by (rule poll_round)
      qed
    qed
  qed
  finally show ?thesis .
qed

section \<open>Blocking is non-blocking and wait\<close>

text \<open>The destructor of an operation does not look at the buffers of the process.\<close>

definition coll_drop_local :: "'x bindings \<Rightarrow> bool" where
  "coll_drop_local B \<longleftrightarrow> (\<forall>coll w f. release B (R_Coll coll) (w\<lparr>w_bufs := f\<rparr>) =
     (release B (R_Coll coll) w)\<lparr>w_bufs := f\<rparr>)"

lemma coll_drop_bufs:
  assumes "coll_drop_local B"
  shows "w_bufs (release B (R_Coll coll) w) = w_bufs w"
proof -
  have "release B (R_Coll coll) w = release B (R_Coll coll) (w\<lparr>w_bufs := w_bufs w\<rparr>)" by simp
  also have "\<dots> = (release B (R_Coll coll) w)\<lparr>w_bufs := w_bufs w\<rparr>"
    using assms unfolding coll_drop_local_def by blast
  finally have "w_bufs (release B (R_Coll coll) w) =
      w_bufs ((release B (R_Coll coll) w)\<lparr>w_bufs := w_bufs w\<rparr>)" by (rule arg_cong)
  then show ?thesis by simp
qed

text \<open>Posting, then waiting for the request outside the lock.\<close>

definition nb_then_wait ::
  "'x bindings \<Rightarrow> ('x sys, error, 'x collective_request) io \<Rightarrow>
   ('x sys, error, 'x collective_request) io"
where
  "nb_then_wait B nb = io_bind nb (\<lambda>q s. case request_wait B (q, sy_world s) of
      None \<Rightarrow> None
    | Some (r, (q', w)) \<Rightarrow> Some (outcome_bind r (\<lambda>_. Ok q'), s\<lparr>sy_world := w\<rparr>))"

lemma nb_then_wait_Ok:
  "nb_then_wait B nb s = Some (Ok q', t) \<longleftrightarrow>
     (\<exists>q s1 w. nb s = Some (Ok q, s1) \<and> request_wait B (q, sy_world s1) = Some (Ok (), (q', w)) \<and>
        t = s1\<lparr>sy_world := w\<rparr>)"
proof -
  have "(case m of None \<Rightarrow> None
      | Some (r, (q', w)) \<Rightarrow> Some (outcome_bind r (\<lambda>_. Ok q'), s1\<lparr>sy_world := w\<rparr>)) = Some (Ok q', t) \<longleftrightarrow>
      (\<exists>w. m = Some (Ok (), (q', w)) \<and> t = s1\<lparr>sy_world := w\<rparr>)" for m and s1 :: "'a sys"
    by (cases m) (auto simp: outcome_bind_eq_Ok)
  then show ?thesis unfolding nb_then_wait_def by (simp only: io_bind_eq_Ok) blast
qed

lemma with_runtime_Ok:
  "with_runtime f s = Some (Ok a, t) \<longleftrightarrow>
     (\<exists>st rt w. ready s st \<and> st_collectives st = Some rt \<and> f rt (sy_world s) = Some (Ok a, w) \<and>
        t = s\<lparr>sy_world := w\<rparr>)"
proof -
  let ?f = "\<lambda>st. io_bind (io_lift (ok_or (st_collectives st)
    (Internal ''collectives are not initialized''))) f"
  show ?thesis
    unfolding with_runtime_def
  proof (cases rule: with_state_cases [of s ?f])
    case (ready st)
    then show "with_state ?f s = Some (Ok a, t) \<longleftrightarrow>
     (\<exists>st rt w. ready s st \<and> st_collectives st = Some rt \<and> f rt (sy_world s) = Some (Ok a, w) \<and>
        t = s\<lparr>sy_world := w\<rparr>)"
      by (cases s; cases "st_collectives st") (auto simp: ready_def io_err_def split: option.splits)
  qed (auto simp: ready_def)
qed

lemma outside_lock_Ok:
  "outside_lock m s = Some (Ok a, t) \<longleftrightarrow> (\<exists>w. m (sy_world s) = Some (Ok a, w) \<and> t = s\<lparr>sy_world := w\<rparr>)"
  by (auto simp: outside_lock_def split: option.splits)

lemma decode_to_drop:
  assumes "coll_drop_local B"
  shows "decode_to T bs d n (release B (R_Coll coll) w) =
    (case decode_to T bs d n w of (r, w') \<Rightarrow> (r, release B (R_Coll coll) w'))"
proof -
  have "slice_values T d n (release B (R_Coll coll) w) = slice_values T d n w"
    by (simp add: slice_values_def coll_drop_bufs [OF assms])
  moreover have "slice_store T d vs (release B (R_Coll coll) w) = release B (R_Coll coll) (slice_store T d vs w)" for vs
    using assms by (simp add: slice_store_def Let_def coll_drop_bufs [OF assms] coll_drop_local_def)
  ultimately show ?thesis by (simp add: decode_to_def split: prod.split)
qed

lemma copy_back_typed:
  "request_copy_back (request_new ctx coll [buf] (Some (typed_destination T d n)) ri\<lparr>cr_op := None\<rparr>) w =
     (Ok True, w') \<longleftrightarrow> decode_to T (w_bufs w buf) d n w = (Ok (), w')"
  by (auto simp: request_copy_back_def request_new_def typed_destination_def outcome_bind_eq_Ok
      split: prod.splits)

text \<open>In-place collectives, for any way to initialise and post the operation.\<close>

lemma blocking_in_place:
  assumes codes: "ucc_codes B" and drop: "coll_drop_local B"
  shows "io_seq (with_runtime (\<lambda>rt. io_bind (start rt) (coll_wait B (rt_context rt))))
      (decode_slice T buf d n) s = Some (Ok (), t) \<longleftrightarrow>
    (\<exists>q. nb_then_wait B (with_runtime (\<lambda>rt. io_bind (start rt) (\<lambda>coll.
        io_return (request_new (rt_context rt) coll [buf] (Some (typed_destination T d n)) None)))) s =
      Some (Ok q, t))" (is "?L \<longleftrightarrow> ?R")
proof -
  let ?call = "with_runtime (\<lambda>rt. io_bind (start rt) (coll_wait B (rt_context rt)))"
  let ?q = "\<lambda>rt coll. request_new (rt_context rt) coll [buf] (Some (typed_destination T d n)) None"
  let ?nb = "with_runtime (\<lambda>rt. io_bind (start rt) (\<lambda>coll. io_return (?q rt coll)))"
  let ?posted = "\<lambda>st rt coll w1. ready s st \<and> st_collectives st = Some rt \<and>
    start rt (sy_world s) = Some (Ok coll, w1)"
  let ?decoded = "\<lambda>coll w2 w3. decode_to T (w_bufs w2 buf) d n w2 = (Ok (), w3) \<and>
    t = s\<lparr>sy_world := release B (R_Coll coll) w3\<rparr>"
  have call: "?call s = Some (Ok (), u) \<longleftrightarrow> (\<exists>st rt coll w1 w2. ?posted st rt coll w1 \<and>
      coll_completes B (rt_context rt) coll w1 w2 \<and> u = s\<lparr>sy_world := release B (R_Coll coll) w2\<rparr>)" for u
    by (simp only: with_runtime_Ok io_bind_eq_Ok coll_wait_iff [OF codes]) blast
  have copy: "decode_slice T buf d n (s\<lparr>sy_world := release B (R_Coll coll) w2\<rparr>) = Some (Ok (), t) \<longleftrightarrow>
      (\<exists>w3. ?decoded coll w2 w3)" for coll w2
    by (cases "decode_to T (w_bufs w2 buf) d n w2")
      (auto simp: decode_slice_def outside_lock_Ok decode_to_drop [OF drop] coll_drop_bufs [OF drop] sy_world_twice)
  have nb: "?nb s = Some (Ok q, u) \<longleftrightarrow> (\<exists>st rt coll w1. ?posted st rt coll w1 \<and> q = ?q rt coll \<and>
      u = s\<lparr>sy_world := w1\<rparr>)" for q u
    by (simp only: with_runtime_Ok io_bind_eq_Ok io_return_eq_Ok) blast
  have wait: "request_wait B (?q rt coll, w1) = Some (Ok (), (q', w)) \<longleftrightarrow>
      (\<exists>w2 w3. coll_completes B (rt_context rt) coll w1 w2 \<and> decode_to T (w_bufs w2 buf) d n w2 = (Ok (), w3) \<and>
        q' = ?q rt coll\<lparr>cr_op := None\<rparr> \<and> w = release B (R_Coll coll) w3)" for rt coll w1 q' w
  proof -
    have op: "cr_op (?q rt coll) = Some coll" and ctx: "cr_context (?q rt coll) = rt_context rt"
      by (simp_all add: request_new_def)
    show ?thesis unfolding request_wait_iff [OF codes op] ctx copy_back_typed by blast
  qed
  show ?thesis
  proof
    assume ?L
    then obtain u where "?call s = Some (Ok (), u)" and u: "decode_slice T buf d n u = Some (Ok (), t)"
      unfolding io_seq_eq_Ok by blast
    then obtain st rt coll w1 w2 where posted: "?posted st rt coll w1"
      and ends: "coll_completes B (rt_context rt) coll w1 w2"
      and "u = s\<lparr>sy_world := release B (R_Coll coll) w2\<rparr>" unfolding call by blast
    with u obtain w3 where w3: "?decoded coll w2 w3" by (auto simp only: copy)
    have "?nb s = Some (Ok (?q rt coll), s\<lparr>sy_world := w1\<rparr>)" using posted nb by blast
    moreover have "request_wait B (?q rt coll, sy_world (s\<lparr>sy_world := w1\<rparr>)) =
        Some (Ok (), (?q rt coll\<lparr>cr_op := None\<rparr>, release B (R_Coll coll) w3))"
      using ends w3 by (simp add: wait) blast
    moreover have "t = s\<lparr>sy_world := w1\<rparr>\<lparr>sy_world := release B (R_Coll coll) w3\<rparr>"
      using w3 by (simp add: sy_world_twice)
    ultimately show ?R unfolding nb_then_wait_Ok by blast
  next
    assume ?R
    then obtain q q' u w where "?nb s = Some (Ok q, u)" "request_wait B (q, sy_world u) = Some (Ok (), (q', w))"
      and t: "t = u\<lparr>sy_world := w\<rparr>" unfolding nb_then_wait_Ok by blast
    then obtain st rt coll w1 where posted: "?posted st rt coll w1" and u: "u = s\<lparr>sy_world := w1\<rparr>"
      and "request_wait B (?q rt coll, w1) = Some (Ok (), (q', w))"
      unfolding nb by auto
    then obtain w2 w3 where "coll_completes B (rt_context rt) coll w1 w2"
      and w3: "decode_to T (w_bufs w2 buf) d n w2 = (Ok (), w3)" "w = release B (R_Coll coll) w3"
      unfolding wait by blast
    with posted call have "?call s = Some (Ok (), s\<lparr>sy_world := release B (R_Coll coll) w2\<rparr>)" by blast
    moreover have "decode_slice T buf d n (s\<lparr>sy_world := release B (R_Coll coll) w2\<rparr>) = Some (Ok (), t)"
      unfolding copy using w3 t u by (auto simp: sy_world_twice)
    ultimately show ?L unfolding io_seq_eq_Ok by blast
  qed
qed

section \<open>Buffers keep their length\<close>

text \<open>The buffers given to UCC are vectors of the caller: UCC writes into them, it cannot resize them.\<close>

definition ucc_keeps_lengths :: "'x bindings \<Rightarrow> bool" where
  "ucc_keeps_lengths B \<longleftrightarrow> (\<forall>w b.
     (\<forall>args team. length (w_bufs (snd (coll_init (ucc B) args team w)) b) = length (w_bufs w b)) \<and>
     (\<forall>h. length (w_bufs (snd (coll_post (ucc B) h w)) b) = length (w_bufs w b)) \<and>
     (\<forall>h. length (w_bufs (snd (coll_status (ucc B) h w)) b) = length (w_bufs w b)) \<and>
     (\<forall>h. length (w_bufs (snd (coll_finalize (ucc B) h w)) b) = length (w_bufs w b)) \<and>
     (\<forall>c. length (w_bufs (ucc_progress (ucc B) c w) b) = length (w_bufs w b)))"

lemma coll_start_length:
  assumes "ucc_keeps_lengths B" and "coll_start B rt args w = Some (Ok coll, w')"
  shows "length (w_bufs w' b) = length (w_bufs w b)"
proof -
  obtain w1 u where "coll_init (ucc B) args (rt_team rt) w = (Inr coll, w1)"
    and "coll_post (ucc B) coll w1 = (Inr u, w')"
    using assms(2)
    by (auto simp: coll_start_def io_bind_eq_Ok io_seq_eq_Ok io_on_fail_eq_Ok ucc_call_def
        io_call_eq_Ok io_return_eq_Ok)
  with assms(1) show ?thesis by (metis ucc_keeps_lengths_def snd_conv)
qed

lemma coll_completes_length:
  assumes keeps: "ucc_keeps_lengths B" and "coll_completes B ctx coll w w'"
  shows "length (w_bufs w' b) = length (w_bufs w b)"
  using assms(2)
proof (induction rule: coll_completes.induct)
  case (ended w w1 u w2)
  with keeps show ?case by (metis ucc_keeps_lengths_def snd_conv)
next
  case (running w w1 w2)
  with keeps show ?case by (metis ucc_keeps_lengths_def snd_conv)
qed

end
