(* ===== verification/Sample.thy ===== *)
theory Sample
  imports Coll_Props Heap_Properties
begin

text \<open>
  A concrete instance of the bindings, on which the properties are instantiated: two processing
  elements whose store, network and collectives are a small record. Puts are issued at once and
  become visible at a flush; every request and every collective needs progress rounds; the
  destructors only write a log.
\<close>

record sample_ext =
  se_issued :: "handle \<Rightarrow> memory"
  se_visible :: "handle \<Rightarrow> memory"
  se_wait :: nat
  se_fresh :: nat
  se_vals :: "nat \<Rightarrow> bytes"
  se_kvs :: "bytes \<Rightarrow> bytes option"
  se_coll :: "coll_args option"
  se_log :: "resource list"

type_synonym sample_world = "sample_ext world"

definition on_ext :: "(sample_ext \<Rightarrow> 'r \<times> sample_ext) \<Rightarrow> sample_world \<Rightarrow> 'r \<times> sample_world" where
  "on_ext f w = (case f (w_ext w) of (r, x) \<Rightarrow> (r, w\<lparr>w_ext := x\<rparr>))"

definition s_fresh :: "(sample_ext, 'f, handle) call" where
  "s_fresh = on_ext (\<lambda>x. (Inr (se_fresh x), x\<lparr>se_fresh := Suc (se_fresh x)\<rparr>))"

definition s_value :: "bytes \<Rightarrow> (sample_ext, 'f, handle) call" where
  "s_value bs = on_ext (\<lambda>x. (Inr (se_fresh x),
     x\<lparr>se_fresh := Suc (se_fresh x), se_vals := (se_vals x)(se_fresh x := bs)\<rparr>))"

definition s_ok :: "'a \<Rightarrow> (sample_ext, 'f, 'a) call" where
  "s_ok a w = (Inr a, w)"

definition s_progress :: "sample_world \<Rightarrow> sample_world" where
  "s_progress w = snd (on_ext (\<lambda>x. ((), x\<lparr>se_wait := se_wait x - 1\<rparr>)) w)"

definition s_put ::
  "handle \<Rightarrow> bytes \<Rightarrow> u64 \<Rightarrow> handle \<Rightarrow> (sample_ext, ucx_status, handle option) call" where
  "s_put ep bs a rk = on_ext (\<lambda>x. (Inr (Some 1),
     x\<lparr>se_issued := (se_issued x)(ep := mem_store a bs (se_issued x ep)), se_wait := 1\<rparr>))"

definition s_flush :: "handle \<Rightarrow> (sample_ext, ucx_status, handle option) call" where
  "s_flush ep = on_ext (\<lambda>x. (Inr (Some 2),
     x\<lparr>se_visible := (se_visible x)(ep := se_issued x ep), se_wait := 2\<rparr>))"

definition s_get ::
  "handle \<Rightarrow> nat \<Rightarrow> u64 \<Rightarrow> handle \<Rightarrow> (sample_ext, ucx_status, handle option) call" where
  "s_get ep b a rk w = (Inr None,
     w\<lparr>w_bufs := (w_bufs w)(b := mem_load a (length (w_bufs w b)) (se_visible (w_ext w) ep))\<rparr>)"

definition s_wait :: "handle \<Rightarrow> handle \<Rightarrow> (sample_ext, ucx_status, bool) call" where
  "s_wait worker r = on_ext (\<lambda>x.
     if se_wait x = 0 then (Inr True, x) else (Inr False, x\<lparr>se_wait := se_wait x - 1\<rparr>))"

definition s_check :: "handle \<Rightarrow> (sample_ext, ucx_status, bool) call" where
  "s_check r w = (Inr (se_wait (w_ext w) = 0), w)"

definition s_fetch ::
  "('b::len word \<Rightarrow> 'b word \<Rightarrow> 'b word) \<Rightarrow> handle \<Rightarrow> handle \<Rightarrow> 'b word \<Rightarrow> u64 \<Rightarrow> handle \<Rightarrow> nat \<Rightarrow>
   (sample_ext, ucx_status, handle) call"
where
  "s_fetch f ep worker v a rk b w =
     (let old = mem_word Little a (se_issued (w_ext w) ep) :: 'b word;
          new = mem_store a (to_ne_bytes Little (f old v)) (se_issued (w_ext w) ep) in
      (Inr 3, w\<lparr>w_bufs := (w_bufs w)(b := to_ne_bytes Little old),
        w_ext := (w_ext w)\<lparr>se_issued := (se_issued (w_ext w))(ep := new),
           se_visible := (se_visible (w_ext w))(ep := new), se_wait := 1\<rparr>\<rparr>))"

definition s_amo_op ::
  "('b::len word \<Rightarrow> 'b word \<Rightarrow> 'b word) \<Rightarrow> handle \<Rightarrow> 'b word \<Rightarrow> u64 \<Rightarrow> handle \<Rightarrow> usize \<Rightarrow>
   (sample_ext, ucx_status, handle option) call"
where
  "s_amo_op f ep v a rk sz = on_ext (\<lambda>x. (Inr None,
     x\<lparr>se_issued := (se_issued x)(ep := mem_store a
        (to_ne_bytes Little (f (mem_word Little a (se_issued x ep)) v)) (se_issued x ep))\<rparr>))"

definition sample_amo :: "(sample_ext, 'b::len word) amo" where
  "sample_amo =
     \<lparr>amo_add = s_amo_op (+), amo_xor = s_amo_op (XOR), amo_swap = s_amo_op (\<lambda>_ v. v),
      amo_and = s_amo_op (AND), amo_or = s_amo_op (OR),
      amo_cswap = (\<lambda>ep x y. s_amo_op (\<lambda>old v. if old = x then v else old) ep y),
      amo_fadd = s_fetch (+), amo_fxor = s_fetch (XOR), amo_fswap = s_fetch (\<lambda>_ v. v),
      amo_fcswap = (\<lambda>ep wk x y. s_fetch (\<lambda>old v. if old = x then v else old) ep wk y)\<rparr>"

definition sample_ucx :: "sample_ext ucx" where
  "sample_ucx =
     \<lparr>ucx_is_err = (\<lambda>s. s < 0), config_read = (\<lambda>_ _. s_fresh),
      context_new = (\<lambda>_ _ _ _. s_fresh), worker_create = (\<lambda>_ _. s_fresh),
      worker_pack_address = (\<lambda>_. s_ok [1, 2, 3]), mt_worker_new = s_ok,
      worker_create_ep = (\<lambda>_ _. s_ok 22), worker_wait_request = s_wait,
      worker_fence = (\<lambda>_. s_ok ()), worker_progress = (\<lambda>_. s_progress),
      request_free = (\<lambda>_ w. w), mem_map = (\<lambda>_ _ _. s_fresh),
      mem_pack_rkey = (\<lambda>_ _. s_ok [1, 2, 3, 4]), rkey_unpack = (\<lambda>_ _. s_fresh),
      rma_put = s_put, rma_get = s_get, ep_flush = s_flush,
      fetch_check_finished = s_check, fetch_free = (\<lambda>_ w. w),
      amo32 = sample_amo, amo64 = sample_amo\<rparr>"

definition s_get_value :: "handle \<Rightarrow> bytes \<Rightarrow> (sample_ext, pmix_error, handle) call" where
  "s_get_value p key w =
     (if key = [9] then s_value [] w
      else (case se_kvs (w_ext w) (butlast key) of
          None \<Rightarrow> (Inl 5, w) | Some bs \<Rightarrow> s_value bs w))"

definition sample_pmix :: "sample_ext pmix" where
  "sample_pmix =
     \<lparr>pmix_success = 0, pmix_generic = -1, pmix_from_raw = (\<lambda>_. None),
      rank_wildcard = -2, job_size_key = [9], scope_global = 3,
      pmix_connect_new = s_fresh, pmix_require_rank = (\<lambda>_ w. (0, w)),
      pmix_disconnect = (\<lambda>_. s_ok ()), pmix_proc = (\<lambda>_ pe. s_ok (unat pe)),
      pmix_get_value = s_get_value,
      pmix_byte_object = (\<lambda>bs w. if bs = [] then (Inl (), w) else s_value bs w),
      pmix_uint64_object = (\<lambda>n w. case s_value (le_bytes n) w of
         (Inr h, w') \<Rightarrow> (h, w') | (Inl (u :: unit), w') \<Rightarrow> (0, w')),
      pmix_build = s_ok,
      pmix_put_value = (\<lambda>_ key v. on_ext (\<lambda>x.
         (Inr (), x\<lparr>se_kvs := (se_kvs x)(key := Some (se_vals x v))\<rparr>))),
      pmix_commit = s_ok (), pmix_fence = (\<lambda>_. s_ok ()),
      value_bytes_copy = (\<lambda>v w. (se_vals (w_ext w) v, w)),
      value_uint64 = (\<lambda>_ w. (4096, w)), value_uint32 = (\<lambda>_ w. (2, w))\<rparr>"

text \<open>Writing at the start of a buffer of a fixed length.\<close>

definition overwrite :: "bytes \<Rightarrow> bytes \<Rightarrow> bytes" where
  "overwrite old new = take (length old) (new @ drop (length new) old)"

text \<open>What the other rank of the two contributes: to a gather of single bytes and to a sum of bytes the
  same bytes as this rank, to a larger gather the bytes of a word.\<close>

definition s_other :: "bytes \<Rightarrow> bytes" where
  "s_other bs = (if length bs = 1 then bs else [7, 0, 0, 0])"

definition s_reduced :: "coll_args \<Rightarrow> sample_world \<Rightarrow> sample_world" where
  "s_reduced args w = (case ca_inplace args of
      Some buf \<Rightarrow>
        if ca_type args = Coll_Allreduce \<and> ca_op args = Some Op_Sum \<and> ca_dtype args = Some Uint8
        then w\<lparr>w_bufs := (w_bufs w)(buf := map (\<lambda>b. b + b) (w_bufs w buf))\<rparr> else w
    | None \<Rightarrow> w)"

definition s_coll_post :: "handle \<Rightarrow> (sample_ext, ucc_status, unit) call" where
  "s_coll_post h w =
     (let w1 = w\<lparr>w_ext := (w_ext w)\<lparr>se_wait := 2\<rparr>\<rparr> in
      (case se_coll (w_ext w) of
         None \<Rightarrow> (Inr (), w1)
       | Some args \<Rightarrow> (case (ca_src args, ca_dst args) of
            (Some src, Some dst) \<Rightarrow> (Inr (), w1\<lparr>w_bufs := (w_bufs w)(dst :=
               overwrite (w_bufs w dst) (w_bufs w src @ s_other (w_bufs w src)))\<rparr>)
          | _ \<Rightarrow> (Inr (), s_reduced args w1))))"

definition sample_ucc :: "sample_ext ucc" where
  "sample_ucc =
     \<lparr>ucc_ok = 0, ucc_no_message = 1, ucc_from_raw = (\<lambda>n. n),
      ucc_lib_init = s_fresh, ucc_context_new = (\<lambda>_. s_fresh),
      ucc_team_with_params = (\<lambda>_ _ _. s_fresh), ucc_team_size = (\<lambda>_. s_ok 2),
      coll_init = (\<lambda>args _. on_ext (\<lambda>x. (Inr 5, x\<lparr>se_coll := Some args\<rparr>))),
      coll_post = s_coll_post,
      coll_status = (\<lambda>_ w. (if se_wait (w_ext w) = 0 then 0 else 1, w)),
      coll_finalize = (\<lambda>_. s_ok ()), ucc_progress = (\<lambda>_. s_progress)\<rparr>"

definition sample_bindings :: "sample_ext bindings" where
  "sample_bindings =
     \<lparr>ucx = sample_ucx, pmix = sample_pmix, ucc = sample_ucc,
      alloc_words = (\<lambda>n w. if n < 2 ^ 60 then Some (4096, w) else None),
      release = (\<lambda>r w. w\<lparr>w_ext := (w_ext w)\<lparr>se_log := se_log (w_ext w) @ [r]\<rparr>\<rparr>)\<rparr>"

lemma sample_sel [simp]:
  "ucx sample_bindings = sample_ucx" "pmix sample_bindings = sample_pmix"
  "ucc sample_bindings = sample_ucc"
  "alloc_words sample_bindings n w = (if n < 2 ^ 60 then Some (4096, w) else None)"
  "release sample_bindings r w = w\<lparr>w_ext := (w_ext w)\<lparr>se_log := se_log (w_ext w) @ [r]\<rparr>\<rparr>"
  by (simp_all add: sample_bindings_def)

declare sample_ucx_def [simp] sample_pmix_def [simp] sample_ucc_def [simp]

definition sample_ext0 :: sample_ext where
  "sample_ext0 =
     \<lparr>se_issued = (\<lambda>_ _. 0), se_visible = (\<lambda>_ _. 0), se_wait = 0, se_fresh = 10,
      se_vals = (\<lambda>_. []), se_kvs = Map.empty, se_coll = None, se_log = []\<rparr>"

definition sample_world0 :: sample_world where
  "sample_world0 =
     \<lparr>w_env = [''SHMEM_SYMMETRIC_SIZE'' \<mapsto> ''128''], w_bufs = (\<lambda>_. []), w_next = 0,
      w_reqs = Map.empty, w_ext = sample_ext0\<rparr>"

text \<open>A process before initialisation, and one that is ready.\<close>

definition sample_start :: "sample_ext sys" where
  "sample_start = \<lparr>sy_poisoned = False, sy_state = None, sy_world = sample_world0\<rparr>"

definition sample_peer :: "handle \<Rightarrow> peer_connection" where
  "sample_peer ep = \<lparr>pc_endpoint = ep, pc_rkey = Suc ep, pc_heap_base = 65536\<rparr>"

definition sample_rkey :: peer_rkey where
  "sample_rkey = \<lparr>pk_heap_base = 65536, pk_rkey = [1, 2, 3, 4]\<rparr>"

definition sample_state :: shmem_state where
  "sample_state =
     \<lparr>st_peers = [(0, sample_peer 20), (1, sample_peer 22)], st_heap = sample_heap 4096,
      st_transport = \<lparr>tr_worker = 11, tr_context = 10, tr_packed_address = [1, 2, 3],
        tr_capabilities = \<lparr>cap_rma = True, cap_loopback = True\<rparr>\<rparr>,
      st_collectives = Some \<lparr>rt_team = 30, rt_context = 31, rt_lib = 32,
        rt_oob = \<lparr>oob_client = 9, oob_rank = 0, oob_size = 2\<rparr>\<rparr>,
      st_client = 9, st_rank = 0, st_size = 2,
      st_peer_rkeys = [(0, sample_rkey), (1, sample_rkey)]\<rparr>"

definition sample_sys :: "sample_ext sys" where
  "sample_sys = \<lparr>sy_poisoned = False, sy_state = Some sample_state, sy_world = sample_world0\<rparr>"

lemma sample_ready [simp]: "ready sample_sys sample_state"
  by (simp add: ready_def sample_sys_def)

lemma sample_table: "btree_get (st_peers sample_state) 1 = Some (sample_peer 22)"
  by (simp add: sample_state_def btree_get_def)

section \<open>The sample keeps the contracts\<close>

lemma sample_alloc: "alloc_contract sample_bindings"
  by (auto simp: alloc_contract_def split: if_splits)

lemma s_wait_simps:
  "se_wait (w_ext w) = 0 \<Longrightarrow> s_wait worker r w = (Inr True, w)"
  "se_wait (w_ext w) = Suc n \<Longrightarrow> s_wait worker r w = (Inr False, w\<lparr>w_ext := (w_ext w)\<lparr>se_wait := n\<rparr>\<rparr>)"
  by (simp_all add: s_wait_def on_ext_def)

lemma sample_settles:
  "settles sample_bindings worker (Some r) w (w\<lparr>w_ext := (w_ext w)\<lparr>se_wait := 0\<rparr>\<rparr>)"
proof (induction "se_wait (w_ext w)" arbitrary: w)
  case 0
  then have "settles sample_bindings worker (Some r) w (request_free (ucx sample_bindings) r w)"
    by (intro settles.complete) (simp add: s_wait_simps)
  moreover have "w\<lparr>w_ext := (w_ext w)\<lparr>se_wait := 0\<rparr>\<rparr> = w" using 0 by simp
  ultimately show ?case by simp
next
  case (Suc n)
  let ?w = "w\<lparr>w_ext := (w_ext w)\<lparr>se_wait := n\<rparr>\<rparr>"
  have "worker_wait_request (ucx sample_bindings) worker r w = (Inr False, ?w)"
    using Suc(2) by (simp add: s_wait_simps)
  moreover have "settles sample_bindings worker (Some r) ?w (?w\<lparr>w_ext := (w_ext ?w)\<lparr>se_wait := 0\<rparr>\<rparr>)"
    by (rule Suc(1)) simp
  ultimately have "settles sample_bindings worker (Some r) w (?w\<lparr>w_ext := (w_ext ?w)\<lparr>se_wait := 0\<rparr>\<rparr>)"
    by (rule settles.again)
  then show ?case by simp
qed

lemma sample_memory: "ucx_memory sample_bindings worker se_issued se_visible"
  unfolding ucx_memory_def
proof (intro conjI allI impI)
  fix ep bs a rk and w :: sample_world
  let ?w = "w\<lparr>w_ext := (w_ext w)\<lparr>se_issued :=
    (se_issued (w_ext w))(ep := mem_store a bs (se_issued (w_ext w) ep)), se_wait := 1\<rparr>\<rparr>"
  have "rma_put (ucx sample_bindings) ep bs a rk w = (Inr (Some 1), ?w)"
    by (simp add: s_put_def on_ext_def)
  moreover note sample_settles [of worker 1 ?w]
  ultimately show "\<exists>req w1 w2. rma_put (ucx sample_bindings) ep bs a rk w = (Inr req, w1) \<and>
      settles sample_bindings worker req w1 w2 \<and>
      se_issued (w_ext w2) = (se_issued (w_ext w))(ep := mem_store a bs (se_issued (w_ext w) ep))"
    by (intro exI conjI) (assumption, assumption, simp)
next
  fix ep and w :: sample_world
  let ?w = "w\<lparr>w_ext := (w_ext w)\<lparr>se_visible :=
    (se_visible (w_ext w))(ep := se_issued (w_ext w) ep), se_wait := 2\<rparr>\<rparr>"
  have "ep_flush (ucx sample_bindings) ep w = (Inr (Some 2), ?w)"
    by (simp add: s_flush_def on_ext_def)
  moreover note sample_settles [of worker 2 ?w]
  ultimately show "\<exists>req w1 w2. ep_flush (ucx sample_bindings) ep w = (Inr req, w1) \<and>
      settles sample_bindings worker req w1 w2 \<and> se_issued (w_ext w2) = se_issued (w_ext w) \<and>
      se_visible (w_ext w2) = (se_visible (w_ext w))(ep := se_issued (w_ext w) ep)"
    by (intro exI conjI) (assumption, assumption, simp, simp)
next
  fix ep b a rk and w :: sample_world
  have "rma_get (ucx sample_bindings) ep b a rk w = (Inr None, snd (s_get ep b a rk w))"
    by (simp add: s_get_def)
  moreover note settles.immediate [of sample_bindings worker "snd (s_get ep b a rk w)"]
  ultimately show "\<exists>req w1 w2. rma_get (ucx sample_bindings) ep b a rk w = (Inr req, w1) \<and>
      settles sample_bindings worker req w1 w2 \<and>
      w_bufs w2 b = mem_load a (length (w_bufs w b)) (se_visible (w_ext w) ep)"
    by (intro exI conjI) (assumption, assumption, simp add: s_get_def)
qed

lemma sample_published: "base_published sample_bindings client (\<lambda>_. 4096)"
  by (simp add: base_published_def)

lemma sample_codes: "ucc_codes sample_bindings"
  by (simp add: ucc_codes_def)

section \<open>Initialisation of the sample\<close>

lemmas eval_calls =
  s_fresh_def s_value_def s_ok_def on_ext_def pmix_call_def ucx_call_def ucc_call_def pmix_raw_call_def

lemma parse_128: "parse_usize ''128'' = Some 128"
  by (simp add: digit_of_def checked_add_def checked_mul_def)

lemma sample_transport:
  "transport_new sample_bindings 1 w = Some (Ok \<lparr>tr_worker = se_fresh (w_ext w) + 2,
     tr_context = se_fresh (w_ext w) + 1, tr_packed_address = [1, 2, 3],
     tr_capabilities = \<lparr>cap_rma = True, cap_loopback = True\<rparr>\<rparr>,
     w\<lparr>w_ext := (w_ext w)\<lparr>se_fresh := se_fresh (w_ext w) + 3,
        se_log := se_log (w_ext w) @ [R_Config (se_fresh (w_ext w))]\<rparr>\<rparr>)"
  by (simp add: transport_new_def io_ok_simps eval_calls io_effect_def numeral_eq_Suc)

definition sample_built :: "nat \<Rightarrow> symheap" where
  "sample_built n = (sample_heap 4096)\<lparr>sh_memh := n\<rparr>"

lemma sample_heap_new:
  assumes "w_env w ''SHMEM_SYMMETRIC_SIZE'' = Some ''128''"
  shows "heap_new sample_bindings c w = Some (Ok (sample_built (se_fresh (w_ext w))),
    w\<lparr>w_ext := (w_ext w)\<lparr>se_fresh := Suc (se_fresh (w_ext w))\<rparr>\<rparr>)"
proof -
  have "heap_size_setting w = 128"
    using assms by (simp add: heap_size_setting_def parse_128 del: parse_usize.simps)
  then show ?thesis
    by (simp add: heap_new_def heap_with_size_steps io_ok_simps eval_calls vec_zeroed_u64_def
        isize_max_def sample_built_def sample_heap_def round_up8_def)
qed

lemma keys_differ:
  "HEAP_RKEY_KEY \<noteq> WORKER_ADDR_KEY" "HEAP_BASE_KEY \<noteq> HEAP_RKEY_KEY" "HEAP_BASE_KEY \<noteq> WORKER_ADDR_KEY"
  by (simp_all add: HEAP_RKEY_KEY_def WORKER_ADDR_KEY_def HEAP_BASE_KEY_def cstr_def)

lemma get_keys: "butlast WORKER_ADDR_GET_KEY = WORKER_ADDR_KEY" "butlast HEAP_RKEY_GET_KEY = HEAP_RKEY_KEY" "butlast HEAP_BASE_GET_KEY = HEAP_BASE_KEY" "WORKER_ADDR_GET_KEY \<noteq> [9]" "HEAP_RKEY_GET_KEY \<noteq> [9]" "HEAP_BASE_GET_KEY \<noteq> [9]"
  by (simp_all add: HEAP_RKEY_KEY_def WORKER_ADDR_KEY_def HEAP_BASE_KEY_def cstr_def HEAP_RKEY_GET_KEY_def WORKER_ADDR_GET_KEY_def HEAP_BASE_GET_KEY_def)

lemma sample_job: "\<exists>w1. job_size sample_bindings c w = Some (Ok (Some 2), w1) \<and> se_kvs (w_ext w1) = se_kvs (w_ext w)"
  by (simp add: job_size_def io_ok_simps eval_calls io_ok_def io_bind_def io_call_def io_step_def s_get_value_def io_return_def)

definition sample_published_in :: "sample_world \<Rightarrow> bool" where
  "sample_published_in w \<longleftrightarrow> se_kvs (w_ext w) WORKER_ADDR_KEY = Some [1, 2, 3] \<and>
     se_kvs (w_ext w) HEAP_RKEY_KEY = Some [1, 2, 3, 4] \<and>  se_kvs (w_ext w) HEAP_BASE_KEY \<noteq> None"

lemma sample_publish:
  assumes "tr_packed_address t = [1, 2, 3]" "sh_packed_rkey h = [1, 2, 3, 4]"
  shows "\<exists>w1. publish sample_bindings c t h w = Some (Ok (), w1) \<and> sample_published_in w1"
  using assms
  by (simp add: publish_def put_bytes_def io_ok_simps eval_calls keys_differ keys_differ [symmetric] sample_published_in_def)

lemma sample_connect:
  assumes "sample_published_in w"
  shows "\<exists>c w1. connect_peer sample_bindings cl t pe w = Some (Ok ([1,2,3,4], c), w1) \<and> sample_published_in w1"
  using assms
  by (auto simp add: connect_peer_def create_endpoint_def io_ok_simps eval_calls sample_published_in_def s_get_value_def get_keys)

lemma sample_runtime: "\<exists>rt w1. runtime_new sample_bindings c 0 2 w = Some (Ok rt, w1)"
  by (simp add: runtime_new_def io_ok_simps Let_def eval_calls u32_try_from_def)

lemma sample_connect_all:
  "sample_published_in w \<Longrightarrow>
     \<exists>b' w1. connect_peers sample_bindings cl t pes b w = Some (Ok b', w1)"
proof (induction pes arbitrary: b w)
  case Nil
  then show ?case by (simp add: io_return_eq_Ok)
next
  case (Cons pe pes)
  obtain c w1 where "connect_peer sample_bindings cl t pe w = Some (Ok ([1, 2, 3, 4], c), w1)"
    and "sample_published_in w1" using sample_connect [OF Cons.prems] by blast
  with Cons.IH [OF this(2)] show ?case
    by (auto simp: io_bind_eq_Ok io_on_fail_eq_Ok)
qed

lemma sample_handshake:
  assumes "tr_packed_address t = [1, 2, 3]" and "sh_packed_rkey h = [1, 2, 3, 4]"
  obtains b w1 where "handshake sample_bindings cl t h 2 w = Some (Ok b, w1)"
proof -
  obtain w1 where pub: "publish sample_bindings cl t h w = Some (Ok (), w1)" "sample_published_in w1"
    using sample_publish [OF assms] by blast
  obtain b w2 where "connect_peers sample_bindings cl t (peer_range 2)
      \<lparr>bs_peer_rkeys = btree_empty, bs_peers = btree_empty\<rparr> w1 = Some (Ok b, w2)"
    using sample_connect_all [OF pub(2)] by blast
  with pub(1) show ?thesis by (intro that [of b w2]) (auto simp: handshake_def io_seq_eq_Ok)
qed

text \<open>Initialisation of the sample process succeeds, with the collectives.\<close>

lemma sample_init_state:
  "\<exists>st w1. init_state sample_bindings sample_world0 = Some (Ok st, w1) \<and> st_size st = 2 \<and> st_rank st = 0 \<and>
     st_heap st = sample_built 14 \<and> (\<forall>pe c. btree_get (st_peers st) pe = Some c \<longrightarrow> pc_heap_base c = 4096)"
proof -
  let ?w = "sample_world0\<lparr>w_ext := sample_ext0\<lparr>se_fresh := 15, se_log := [R_Config 11]\<rparr>\<rparr>"
  let ?t = "\<lparr>tr_worker = 13, tr_context = 12, tr_packed_address = [1, 2, 3],
     tr_capabilities = \<lparr>cap_rma = True, cap_loopback = True\<rparr>\<rparr>"
  obtain w1 where job: "job_size sample_bindings 10 ?w = Some (Ok (Some 2), w1)"
    using sample_job by blast
  obtain b w2 where hs: "handshake sample_bindings 10 ?t (sample_built 14) 2 w1 = Some (Ok b, w2)"
    by (rule sample_handshake [of ?t "sample_built 14"]) (simp_all add: sample_built_def sample_heap_def)
  note bases = handshake_published [OF sample_published hs]
  show ?thesis
    unfolding init_state_def
    by (simp add: io_ok_simps eval_calls sample_transport sample_heap_new sample_world0_def sample_ext0_def)
      (use job hs bases in \<open>auto simp: sample_world0_def sample_ext0_def io_ok_simps\<close>)
qed

lemma sample_init:
  obtains st t where "init sample_bindings True sample_start = Some (Ok (), t)" and "ready t st"
    and "st_size st = 2" and "st_rank st = 0" and "st_heap st = sample_built 14"
    and "\<forall>pe c. btree_get (st_peers st) pe = Some c \<longrightarrow> pc_heap_base c = 4096"
proof -
  obtain st w1 where st: "init_state sample_bindings sample_world0 = Some (Ok st, w1)"
    and "st_size st = 2" "st_rank st = 0" "st_heap st = sample_built 14"
      "\<forall>pe c. btree_get (st_peers st) pe = Some c \<longrightarrow> pc_heap_base c = 4096" using sample_init_state by blast
  moreover obtain rt w2 where "runtime_new sample_bindings (st_client st) 0 2 w1 = Some (Ok rt, w2)"
    using sample_runtime by blast
  ultimately show ?thesis
    using that by (simp add: init_def with_lock_def sample_start_def install_def ready_def)
qed

end
