(* ===== verification/Example_Properties.thy ===== *)
theory Example_Properties
  imports Examples Sample
begin

text \<open>
  The components together: the sender of \<open>ping_put_get\<close> goes through initialisation, the
  symmetric heap, a remote write, the ordering calls and deallocation.
\<close>

lemma symheap_malloc_run:
  "ready t st \<Longrightarrow> heap_malloc (st_heap st) n = (Ok p, h) \<Longrightarrow>
     symheap_malloc n t = Some (Ok p, t\<lparr>sy_state := Some (st\<lparr>st_heap := h\<rparr>)\<rparr>)"
  by (cases t) (simp add: symheap_malloc_def with_state_mut_def with_lock_def ready_def)

lemma symheap_free_run:
  "ready t st \<Longrightarrow> heap_free (st_heap st) p = (Ok (), h) \<Longrightarrow>
     symheap_free p t = Some (Ok (), t\<lparr>sy_state := Some (st\<lparr>st_heap := h\<rparr>)\<rparr>)"
  by (cases t) (simp add: symheap_free_def with_state_mut_def with_lock_def ready_def)

lemma query_runs:
  assumes "ready t st"
  shows "my_pe t = Some (Ok (st_rank st), t)" and "n_pes t = Some (Ok (st_size st), t)"
    and "symheap_heap_base t = Some (Ok (sh_local_base (st_heap st)), t)"
  using assms by (cases t, simp add: my_pe_def n_pes_def symheap_heap_base_def with_state_def
      with_lock_def ready_def io_return_def)+

text \<open>A fence of the worker that completes and leaves the memory as it is.\<close>

definition fence_completes ::
  "'x bindings \<Rightarrow> handle \<Rightarrow> ('x \<Rightarrow> handle \<Rightarrow> memory) \<Rightarrow> ('x \<Rightarrow> handle \<Rightarrow> memory) \<Rightarrow> bool"
where
  "fence_completes B worker issued visible \<longleftrightarrow> (\<forall>w. \<exists>u w'. worker_fence (ucx B) worker w = (Inr u, w') \<and>
     issued (w_ext w') = issued (w_ext w) \<and> visible (w_ext w') = visible (w_ext w))"

lemma fence_run:
  assumes "ready s st" and "fence_completes B (tr_worker (st_transport st)) issued visible"
  obtains w where "fence B s = Some (Ok (), s\<lparr>sy_world := w\<rparr>)"
    and "issued (w_ext w) = issued (w_ext (sy_world s))"
proof -
  obtain u w where "worker_fence (ucx B) (tr_worker (st_transport st)) (sy_world s) = (Inr u, w)"
    and w: "issued (w_ext w) = issued (w_ext (sy_world s))"
    using assms(2) unfolding fence_completes_def by blast
  then have "transport_fence B (st_transport st) (sy_world s) = Some (Ok (), w)"
    by (simp add: transport_fence_def ucx_call_def io_call_def)
  then have "fence B s = Some (Ok (), s\<lparr>sy_world := w\<rparr>)"
    unfolding fence_def by (intro with_state_readyD [OF assms(1)]) simp_all
  with w show ?thesis using that by blast
qed

text \<open>Putting a value, fencing and quieting its peer: the value is visible there.\<close>

lemma put_fence_quiet:
  assumes "ready s st" and ucx: "ucx_memory B (tr_worker (st_transport st)) issued visible"
    and fence: "fence_completes B (tr_worker (st_transport st)) issued visible"
    and pe: "unat pe < 2 ^ 32" "btree_get (st_peers st) (ucast pe) = Some peer"
    and T: "pod_codec T" "unat (pod_size T) * length xs \<le> isize_max"
    and fits: "unat (pc_heap_base peer) + unat off + unat (pod_size T) * length xs < 2 ^ 64"
  obtains w where "io_seq (put_typed B T pe xs off) (io_seq (fence B) (quiet_pe B pe)) s = Some (Ok (), s\<lparr>sy_world := w\<rparr>)"
    and "mem_load (pc_heap_base peer + off) (unat (pod_size T) * length xs) (visible (w_ext w) (pc_endpoint peer)) =
      slice_bytes T xs"
proof -
  let ?bs = "slice_bytes T xs" and ?a = "pc_heap_base peer + off"
  note len = codec_length_word [OF T]
  have blen: "length ?bs = unat (pod_size T) * length xs" by (rule pod_codec.length_slice_bytes [OF T(1)])
  have a: "unat ?a = unat (pc_heap_base peer) + unat off" using fits by (simp add: unat_word_ariths)
  have a_fits: "unat ?a + length ?bs \<le> 2 ^ 64" using a fits blen by simp
  have "peer_and_address st pe off (of_nat (length ?bs)) = Ok (peer, ?a)"
    using pe a fits len(3) by (simp add: peer_and_address_eq_Ok)
  then obtain w1 where w1: "putmem B pe ?bs off s = Some (Ok (), s\<lparr>sy_world := w1\<rparr>)"
    "issued (w_ext w1) (pc_endpoint peer) = mem_store ?a ?bs (issued (w_ext (sy_world s)) (pc_endpoint peer))"
    by (rule putmem_run [OF assms(1) ucx _ a_fits])
  have "ready (s\<lparr>sy_world := w1\<rparr>) st" using assms(1) by simp
  then obtain w2 where w2: "fence B (s\<lparr>sy_world := w1\<rparr>) = Some (Ok (), s\<lparr>sy_world := w2\<rparr>)"
    "issued (w_ext w2) = issued (w_ext w1)"
    using fence_run [OF _ fence, of "s\<lparr>sy_world := w1\<rparr>"] by (auto simp: sy_world_twice)
  have "ready (s\<lparr>sy_world := w2\<rparr>) st" using assms(1) by simp
  then obtain w3 where w3: "quiet_pe B pe (s\<lparr>sy_world := w2\<rparr>) = Some (Ok (), s\<lparr>sy_world := w3\<rparr>)"
    "visible (w_ext w3) (pc_endpoint peer) = issued (w_ext w2) (pc_endpoint peer)"
    using quiet_pe_visible [OF _ ucx pe, of "s\<lparr>sy_world := w2\<rparr>"] by (auto simp: sy_world_twice)
  have "put_typed B T pe xs off s = Some (Ok (), s\<lparr>sy_world := w1\<rparr>)"
    using w1(1) by (simp add: put_typed_def pod_codec.pod_as_bytes_Ok [OF T])
  with w2(1) w3(1) have "io_seq (put_typed B T pe xs off) (io_seq (fence B) (quiet_pe B pe)) s = Some (Ok (), s\<lparr>sy_world := w3\<rparr>)"
    by (simp add: io_seq_def io_bind_def)
  moreover have "mem_load ?a (length ?bs) (visible (w_ext w3) (pc_endpoint peer)) = ?bs"
    using mem_load_store [OF a_fits] w1(2) w2(2) w3(2) by simp
  ultimately show ?thesis using that blen by simp
qed

text \<open>C10: The components together: when a process of rank 0 in a job of two runs \<open>ping_put_get\<close> and its
  initialisation succeeded, the whole program returns without an error, the value is visible at
  the place in PE 1's heap that corresponds to the own allocation, and the process is left
  exactly in the state that initialisation built.\<close>

theorem ping_delivers_the_value:
  assumes "alloc_contract B" and "\<not> sy_poisoned s" and "sy_state s = None"
    and init: "init B c s = Some (Ok (), t)" and st: "ready t st" and "st_rank st = 0" and "st_size st = 2"
    and ucx: "ucx_memory B (tr_worker (st_transport st)) issued visible"
    and fence: "fence_completes B (tr_worker (st_transport st)) issued visible"
    and malloc: "heap_malloc (st_heap st) 8 = (Ok p, h)" and off: "offset_from p (sh_local_base (st_heap st)) = Ok off"
    and fits: "\<forall>peer. btree_get (st_peers st) 1 = Some peer \<longrightarrow> unat (pc_heap_base peer) + unat off + 8 < 2 ^ 64"
  shows "\<exists>u peer. ping_run B c e expired resume s = Some (Ok (), u) \<and> sy_state u = Some st \<and>
    btree_get (st_peers st) 1 = Some peer \<and>
    mem_load (pc_heap_base peer + off) 8 (visible (w_ext (sy_world u)) (pc_endpoint peer)) =
      slice_bytes (pod_u64 e) [VALUE]"
proof -
  have inv: "state_inv st" using init
  proof (cases rule: init_cases)
    case (success st0 w st')
    then have "st' = st" using st by (simp add: ready_def)
    with init_success_inv [OF assms(1) success(4,6)] show ?thesis by simp
  qed simp_all
  then have "btree_get (st_peers st) 1 \<noteq> None"
    using tables_agree_get(1) [of "st_peers st" "st_peer_rkeys st" "{pe. pe < ucast (st_size st)}" 1] assms(7)
    by (simp add: state_inv_def)
  then obtain peer where peer: "btree_get (st_peers st) 1 = Some peer" by blast
  let ?st = "st\<lparr>st_heap := h\<rparr>" and ?T = "pod_u64 e"
  let ?t1 = "t\<lparr>sy_state := Some ?st\<rparr>"
  have st1: "ready ?t1 ?st" using st by (simp add: ready_def)
  have base: "sh_local_base h = sh_local_base (st_heap st)"
    using inv heap_malloc_base [of "st_heap st" 8] malloc by (simp add: state_inv_def)
  have free: "heap_free h p = (Ok (), st_heap st)"
    using inv malloc by (intro heap_malloc_free_restores) (simp_all add: state_inv_def)
  have size: "unat (pod_size ?T) = 8" by (simp add: pod_u64_def pod_impl_def)
  obtain w where sent: "io_seq (put_typed B ?T TARGET_PE [VALUE] off) (io_seq (fence B) (quiet_pe B TARGET_PE)) ?t1 =
      Some (Ok (), ?t1\<lparr>sy_world := w\<rparr>)"
    and mem: "mem_load (pc_heap_base peer + off) (unat (pod_size ?T) * length [VALUE]) (visible (w_ext w) (pc_endpoint peer)) =
      slice_bytes ?T [VALUE]"
    by (rule put_fence_quiet [OF st1, of B issued visible TARGET_PE peer ?T "[VALUE]" off])
      (use ucx fence peer fits size in \<open>simp_all add: TARGET_PE_def isize_max_def u64.pod_codec_axioms\<close>)
  have free_run: "symheap_free p (?t1\<lparr>sy_world := w\<rparr>) = Some (Ok (), ?t1\<lparr>sy_world := w, sy_state := Some st\<rparr>)"
    using symheap_free_run [of "?t1\<lparr>sy_world := w\<rparr>" ?st p "st_heap st"] st1 free by simp
  have "add_op off VALUE_OFFSET = (Ok off :: usize result)" by (simp add: VALUE_OFFSET_def)
  then have "ping_run B c e expired resume s = io_seq (io_seq (put_typed B ?T TARGET_PE [VALUE] off)
      (io_seq (fence B) (quiet_pe B TARGET_PE))) (symheap_free p) ?t1"
    using init query_runs [OF st] query_runs(3) [OF st1] symheap_malloc_run [OF st malloc] off base assms(6,7)
    by (simp add: ping_run_def Let_def io_seq_def io_bind_def io_lift_def del: add_op_eq_Ok)
  also have "\<dots> = Some (Ok (), ?t1\<lparr>sy_world := w, sy_state := Some st\<rparr>)"
    using sent free_run unfolding io_seq_eq_Ok by blast
  finally have "ping_run B c e expired resume s = Some (Ok (), ?t1\<lparr>sy_world := w, sy_state := Some st\<rparr>)" .
  with peer mem size show ?thesis by (cases t) auto
qed

lemma sample_fence: "fence_completes sample_bindings worker se_issued se_visible"
  by (simp add: fence_completes_def s_ok_def)

lemma sample_built_malloc:
  obtains h where "heap_malloc (sample_built n) 8 = (Ok (SymPtr 4096), h)"
  by (rule that [of "snd (heap_malloc (sample_built n) 8)"])
    (simp add: heap_malloc_def round_request_def take_block_def sample_built_def sample_heap_def eval_arith)

theorem ping_delivers_the_value_witness:
  "\<exists>u ep. ping_run sample_bindings True Little (\<lambda>_. False) (\<lambda>w. w) sample_start = Some (Ok (), u) \<and>
     mem_load 4096 8 (se_visible (w_ext (sy_world u)) ep) = slice_bytes (pod_u64 Little) [VALUE]"
proof -
  obtain st t where t: "init sample_bindings True sample_start = Some (Ok (), t)" "ready t st"
    "st_rank st = 0" "st_size st = 2" and heap: "st_heap st = sample_built 14"
    and bases: "\<forall>pe c. btree_get (st_peers st) pe = Some c \<longrightarrow> pc_heap_base c = 4096"
    by (rule sample_init) blast
  obtain h where malloc: "heap_malloc (st_heap st) 8 = (Ok (SymPtr 4096), h)"
    using sample_built_malloc [of 14] heap by metis
  have "offset_from (SymPtr 4096) (sh_local_base (st_heap st)) = Ok 0"
    by (simp add: heap sample_built_def)
  moreover have "\<forall>peer. btree_get (st_peers st) 1 = Some peer \<longrightarrow> unat (pc_heap_base peer) + unat (0 :: usize) + 8 < 2 ^ 64"
    using bases by auto
  moreover have "\<not> sy_poisoned sample_start" "sy_state sample_start = None" by (simp_all add: sample_start_def)
  ultimately obtain u peer where "ping_run sample_bindings True Little (\<lambda>_. False) (\<lambda>w. w) sample_start = Some (Ok (), u)"
    and "btree_get (st_peers st) 1 = Some peer" and "mem_load (pc_heap_base peer + 0) 8
      (se_visible (w_ext (sy_world u)) (pc_endpoint peer)) = slice_bytes (pod_u64 Little) [VALUE]"
    using ping_delivers_the_value [OF sample_alloc _ _ t sample_memory sample_fence malloc] by blast
  with bases show ?thesis by auto
qed

end
