(* ===== verification/Pgas.thy ===== *)
theory Pgas
  imports Example_Properties
begin

text \<open>
  The partitioned global address space: two processes that went through \<open>init\<close> and made the same
  allocation calls. What each calls on its own heap keeps the heaps symmetric, the handshake has
  given the first the base of the second, and so an offset of the own heap names the peer's
  allocation.
\<close>

section \<open>What initialisation built\<close>

text \<open>The heap is new, and the connection table holds what the peers published.\<close>

definition built :: "'x bindings \<Rightarrow> shmem_state \<Rightarrow> bool" where
  "built B st \<longleftrightarrow> sp_allocs (heap_abs (st_heap st)) = Map.empty \<and>
     (\<forall>base pe c. base_published B (st_client st) base \<longrightarrow> btree_get (st_peers st) pe = Some c \<longrightarrow>
        pc_heap_base c = base pe)"

lemma init_state_built:
  assumes "alloc_contract B"
  shows "yields (init_state B) (built B)"
proof -
  have heap: "yields (heap_new B ctx) (\<lambda>h. sp_allocs (heap_abs h) = Map.empty)" for ctx
    using heap_with_size_inv(2) [OF assms] by (auto simp: yields_def heap_new_def)
  have hs: "yields (handshake B client t h sz)
      (\<lambda>b. \<forall>base pe c. base_published B client base \<longrightarrow> btree_get (bs_peers b) pe = Some c \<longrightarrow>
         pc_heap_base c = base pe)" for client t h sz
    using handshake_published by (auto simp: yields_def)
  have finish: "yields (case found of
          None \<Rightarrow> io_on_err (disconnect_ignored B client) (io_err (Internal
            ''PMIx job size unavailable and PMIX_SIZE is not set to a valid value''))
        | Some sz \<Rightarrow> io_bind (io_on_err (disconnect_ignored B client)
                             (handshake B client transport h sz)) (\<lambda>b.
            io_return \<lparr>st_peers = bs_peers b, st_heap = h, st_transport = transport,
               st_collectives = None, st_client = client, st_rank = rank,
               st_size = sz, st_peer_rkeys = bs_peer_rkeys b\<rparr>)) (built B)"
    if "sp_allocs (heap_abs h) = Map.empty" for found client transport h rank
  proof (cases found)
    case None
    then show ?thesis by (simp add: yields_on_err yields_err)
  next
    case (Some sz)
    show ?thesis
      unfolding Some option.case
      by (rule yields_bind [OF yields_on_err [OF hs]], rule yields_return)
        (use that in \<open>simp add: built_def\<close>)
  qed
  show ?thesis
    unfolding init_state_def
    by (intro yields_bind [OF yields_any] yields_on_fail yields_bind [OF yields_on_err [OF heap]] finish)
qed

lemma init_built:
  assumes "alloc_contract B" and "init B c s = Some (Ok (), t)"
  obtains st where "ready t st" and "built B st" and "state_inv st"
  using assms(2)
proof (cases rule: init_cases)
  case (success st w st')
  have "built B st" using yieldsD [OF init_state_built [OF assms(1)] success(4)] .
  with success(6) have "built B st'" by (cases rule: install_cases) (auto simp: built_def)
  with success(5) init_success_inv [OF assms(1) success(4,6)] show ?thesis using that by blast
qed (simp_all add: lock_error_def)

section \<open>The same calls in every process\<close>

fun spmd_call ::
  "'x sys \<times> symptr result list \<Rightarrow> spmd_op \<Rightarrow> ('x sys \<times> symptr result list) option"
where
  "spmd_call (s, ps) (S_Malloc n) = (case symheap_malloc n s of
      None \<Rightarrow> None | Some (r, t) \<Rightarrow> Some (t, ps @ [r]))"
| "spmd_call (s, ps) (S_Free i) =
     (if i < length ps then
        (case ps ! i of
           Ok p \<Rightarrow> (case symheap_free p s of None \<Rightarrow> None | Some (r, t) \<Rightarrow> Some (t, ps))
         | _ \<Rightarrow> Some (s, ps))
      else Some (s, ps))"

fun spmd_calls ::
  "'x sys \<times> symptr result list \<Rightarrow> spmd_op list \<Rightarrow> ('x sys \<times> symptr result list) option"
where
  "spmd_calls c [] = Some c"
| "spmd_calls c (x # xs) = (case spmd_call c x of None \<Rightarrow> None | Some c' \<Rightarrow> spmd_calls c' xs)"

text \<open>A process whose heap is replaced.\<close>

definition with_heap :: "'x sys \<Rightarrow> shmem_state \<Rightarrow> symheap \<Rightarrow> 'x sys" where
  "with_heap s st h = s\<lparr>sy_state := Some (st\<lparr>st_heap := h\<rparr>)\<rparr>"

lemma with_heap_simps [simp]:
  "with_heap (with_heap s st h) (st\<lparr>st_heap := h\<rparr>) k = with_heap s st k"
  "sy_world (with_heap s st h) = sy_world s"
  "sy_state (with_heap s st h) = Some (st\<lparr>st_heap := h\<rparr>)"
  by (simp_all add: with_heap_def)

lemma with_heap_ready: "ready s st \<Longrightarrow> ready (with_heap s st h) (st\<lparr>st_heap := h\<rparr>)"
  by (simp add: ready_def with_heap_def)

lemma with_heap_same: "ready s st \<Longrightarrow> with_heap s st (st_heap st) = s"
  by (cases s) (simp add: ready_def with_heap_def)

lemma with_state_mut_heap:
  assumes "ready s st" and "f (st_heap st) = (r, h)" and "r \<noteq> Panic"
  shows "with_state_mut (\<lambda>st. case f (st_heap st) of (r, h) \<Rightarrow> (r, st\<lparr>st_heap := h\<rparr>)) s =
    Some (r, with_heap s st h)"
  using assms by (cases s) (auto simp: with_state_mut_def with_lock_def ready_def with_heap_def)

lemma spmd_call_step:
  assumes "ready s st" and "heap_inv (st_heap st)"
  shows "spmd_call (s, ps) x =
    (case spmd_step (st_heap st, ps) x of (h, qs) \<Rightarrow> Some (with_heap s st h, qs))"
proof (cases x)
  case (S_Malloc n)
  obtain r h where m: "heap_malloc (st_heap st) n = (r, h)" by (cases "heap_malloc (st_heap st) n")
  then have "r \<noteq> Panic" using heap_malloc_no_panic [OF assms(2), of n] by simp
  from with_state_mut_heap [where f = "\<lambda>h. heap_malloc h n", OF assms(1) m this] m show ?thesis
    by (simp add: S_Malloc symheap_malloc_def)
next
  case (S_Free i)
  have "symheap_free p s = Some (fst (heap_free (st_heap st) p), with_heap s st (snd (heap_free (st_heap st) p)))" for p
    unfolding symheap_free_def
    by (rule with_state_mut_heap [OF assms(1)]) (simp_all add: heap_free_no_panic [OF assms(2)])
  then show ?thesis
    by (auto simp: S_Free with_heap_same [OF assms(1)] split: outcome.splits)
qed

lemma spmd_step_inv: "heap_inv h \<Longrightarrow> heap_inv (fst (spmd_step (h, ps) x))"
  by (cases x) (auto simp: heap_malloc_inv heap_free_inv split_def split: outcome.splits)

text \<open>On a ready process, the calls are the heap's own run; they all return.\<close>

lemma spmd_calls_run:
  assumes "ready s st" and "heap_inv (st_heap st)"
  shows "spmd_calls (s, ps) xs =
    (case foldl spmd_step (st_heap st, ps) xs of (h, qs) \<Rightarrow> Some (with_heap s st h, qs))"
  using assms
proof (induction xs arbitrary: s st ps)
  case Nil
  then show ?case by (simp add: with_heap_same)
next
  case (Cons x xs)
  obtain h qs where step: "spmd_step (st_heap st, ps) x = (h, qs)" by (cases "spmd_step (st_heap st, ps) x")
  with spmd_step_inv [OF Cons.prems(2), of ps x] have "heap_inv h" by simp
  with Cons.IH [OF with_heap_ready [OF Cons.prems(1)], of h qs] step show ?case
    by (simp add: spmd_call_step [OF Cons.prems] split: prod.splits)
qed

section \<open>Symmetric allocations\<close>

lemma heap_live_iff_abs:
  assumes "heap_inv h"
  shows "heap_live h p = Some l \<longleftrightarrow> (\<exists>q. ptr_offset h p = Some q \<and> sp_allocs (heap_abs h) q = Some l)"
proof
  assume "heap_live h p = Some l"
  then show "\<exists>q. ptr_offset h p = Some q \<and> sp_allocs (heap_abs h) q = Some l"
    using heap_live_abs [OF assms] by blast
next
  assume "\<exists>q. ptr_offset h p = Some q \<and> sp_allocs (heap_abs h) q = Some l"
  moreover obtain a where "p = SymPtr a" by (cases p)
  ultimately show "heap_live h p = Some l"
    using heap_abs_allocs [of h a] heap_invD(1) [OF assms] by (auto simp: map_option_case split: option.splits)
qed

text \<open>Lockstep at the end of a run: an allocation that is live in one heap is live in the other,
  with the same length, at the same offset.\<close>

lemma spmd_run_live:
  assumes sym: "symmetric h g" and i: "i < length (snd (spmd_run h xs))"
    and p: "snd (spmd_run h xs) ! i = Ok p" and live: "heap_live (fst (spmd_run h xs)) p = Some n"
  obtains q where "snd (spmd_run g xs) ! i = Ok q" and "heap_live (fst (spmd_run g xs)) q = Some n"
    and "same_offset h g p q" and "heap_inv (fst (spmd_run g xs))"
    and "sh_local_base (fst (spmd_run g xs)) = sh_local_base g"
    and "sh_local_base (fst (spmd_run h xs)) = sh_local_base h"
proof -
  let ?k = "fst (spmd_run h xs)" and ?l = "fst (spmd_run g xs)"
  have "in_step h g (spmd_run h xs) (spmd_run g xs)"
    unfolding spmd_run_def by (rule in_step_run) (simp add: in_step_def sym)
  then have kl: "symmetric ?k ?l" and rel: "list_all2 (same_reply h g) (snd (spmd_run h xs)) (snd (spmd_run g xs))"
    and base: "sh_local_base ?k = sh_local_base h" "sh_local_base ?l = sh_local_base g"
    by (auto simp: in_step_def)
  from list_all2_nthD [OF rel i] p obtain q where q: "snd (spmd_run g xs) ! i = Ok q" "same_offset h g p q"
    by (auto simp: same_reply_def split: outcome.splits)
  have inv: "heap_inv ?k" "heap_inv ?l" and abs: "heap_abs ?k = heap_abs ?l" using kl by (auto simp: symmetric_def)
  have "same_offset ?k ?l p q" using q(2) base by (simp add: same_offset_def heap_base_def)
  from same_offset_ptr [OF kl this] live have "heap_live ?l q = Some n"
    by (simp add: heap_live_iff_abs [OF inv(1)] heap_live_iff_abs [OF inv(2)] abs)
  with q base inv(2) show ?thesis by (intro that)
qed

text \<open>Offsets, lengths and ranks as the calls take them.\<close>

lemma heap_spec_eq:
  "heap_abs h = heap_abs g \<longleftrightarrow>
     heap_cap h = heap_cap g \<and> sp_allocs (heap_abs h) = sp_allocs (heap_abs g)"
  by (simp add: heap_abs_def)

lemma same_offset_off:
  assumes "same_offset h g p q"
  obtains off where "offset_from p (sh_local_base h) = Ok off"
    and "unat (sp_addr q) = unat (sh_local_base g) + unat off"
proof -
  let ?off = "sp_addr p - sh_local_base h"
  have "unat ?off = unat (sp_addr p) - unat (sh_local_base h)"
    using assms by (intro unat_sub) (simp add: same_offset_def heap_base_def word_le_nat_alt)
  then have "unat (sp_addr p) = unat (sh_local_base h) + unat ?off"
    and "unat (sp_addr q) = unat (sh_local_base g) + unat ?off"
    using assms by (simp_all only: same_offset_def heap_base_def) linarith+
  then show ?thesis by (intro that [of ?off]) (simp_all only: offset_from_Ok)
qed

lemma live_room:
  assumes "heap_inv h" and "heap_live h q = Some n"
  shows "unat (sp_addr q) + n < 2 ^ 64" and "n \<le> isize_max"
  using heap_live_region(1,2) [OF assms] heap_invD(1) [OF assms(1)]
  by (simp_all add: region_ok_def)

lemma rank_word: "unat (ucast (k :: u32) :: usize) < 2 ^ 32" "ucast (ucast k :: usize) = k"
proof -
  show "unat (ucast k :: usize) < 2 ^ 32"
    using unsigned_less [of k, where ?'a = nat] by (simp add: unsigned_ucast_eq take_bit_nat_eq_self)
  show "ucast (ucast k :: usize) = k" by (rule bit_word_eqI) (auto simp: bit_simps)
qed

end
