(* ===== verification/Symmetry_Properties.thy ===== *)
theory Symmetry_Properties
  imports Pgas
begin

text \<open>
  The partitioned global address space: heaps of different processing elements stay symmetric,
  and one-sided access with an offset of the own heap reaches the allocation of the peer.
\<close>

text \<open>C2: Two processing elements whose heaps start with the same size and that make the same
  allocation and deallocation calls get, call by call, the same outcomes; and translating a
  pointer of the first with \<open>to_remote_addr\<close> gives exactly the pointer the second one
  got, although the two regions lie at different addresses.\<close>

theorem spmd_calls_stay_symmetric:
  assumes "alloc_contract B" and "heap_with_size B ctx sz w = Some (Ok h, w')"
    and "alloc_contract D" and "heap_with_size D ctx' sz v = Some (Ok g, v')"
  shows "list_all2 (mirrored (sh_local_base h) (sh_local_base g))
           (snd (spmd_run h xs)) (snd (spmd_run g xs))"
proof (rule spmd_run_mirrored)
  show "symmetric h g"
    using heap_with_size_inv [OF assms(1,2)] heap_with_size_inv [OF assms(3,4)]
    by (simp add: symmetric_def)
qed

theorem spmd_calls_stay_symmetric_witness:
  "\<exists>h w h' w'. heap_with_size sample_bindings 1 100 sample_world0 = Some (Ok h, w) \<and>
     heap_with_size sample_bindings 2 100 w = Some (Ok h', w') \<and>
     list_all2 (mirrored (sh_local_base h) (sh_local_base h'))
       (snd (spmd_run h [S_Malloc 10, S_Malloc 0, S_Free 0, S_Malloc 8]))
       (snd (spmd_run h' [S_Malloc 10, S_Malloc 0, S_Free 0, S_Malloc 8]))"
proof -
  have run: "\<exists>h w'. heap_with_size sample_bindings c 100 w = Some (Ok h, w')" for c w
    by (simp add: heap_with_size_steps io_ok_simps eval_calls vec_zeroed_u64_def isize_max_def)
  from run [of 1 sample_world0] obtain h w
    where h: "heap_with_size sample_bindings 1 100 sample_world0 = Some (Ok h, w)" by blast
  from run [of 2 w] obtain h' w'
    where h': "heap_with_size sample_bindings 2 100 w = Some (Ok h', w')" by blast
  from spmd_calls_stay_symmetric [OF sample_alloc h sample_alloc h'] h h' show ?thesis by blast
qed

text \<open>The address part alone. A put to the peer lands in the peer's own allocation: when two processing elements built
  heaps of the same size and made the same calls, and the connection table holds the base the
  peer published, then the address computed for the offset of the pointer that my \<open>i\<close>-th
  allocation returned is the pointer the peer's \<open>i\<close>-th allocation returned.\<close>

lemma one_sided_access_reaches_the_peers_allocation:
  assumes "symmetric h g"
    and "i < length (snd (spmd_run h xs))"
    and "snd (spmd_run h xs) ! i = Ok p" and "snd (spmd_run g xs) ! i = Ok q"
    and "unat pe < 2 ^ 32" and "btree_get (st_peers st) (ucast pe) = Some c"
    and "pc_heap_base c = sh_local_base g"
    and "offset_from p (sh_local_base h) = Ok off" and "unat off + unat len < 2 ^ 64"
  shows "peer_and_address st pe off len = Ok (c, sp_addr q)"
proof -
  have "mirrored (sh_local_base h) (sh_local_base g) (Ok p) (Ok q)"
    using list_all2_nthD [OF spmd_run_mirrored [OF assms(1)] assms(2)] assms(3,4) by simp
  then have "unat (sh_local_base h) \<le> unat (sp_addr p)"
    and "unat (sp_addr q) = unat (sh_local_base g) + (unat (sp_addr p) - unat (sh_local_base h))"
    by (simp_all add: mirrored_def to_remote_addr_Ok)
  with assms(5-9) show ?thesis
    by (simp add: peer_and_address_eq_Ok offset_from_Ok)
qed

lemma sample_mallocs:
  "snd (spmd_run (sample_heap b) [S_Malloc 10]) = [Ok (SymPtr b)]"
  if "unat b + 16 < 2 ^ 64"
  using that
  by (simp add: spmd_run_def heap_malloc_def round_request_def take_block_def sample_heap_def eval_arith)

lemma one_sided_access_reaches_the_peers_allocation_witness:
  "peer_and_address sample_state 1 0 8 = Ok (sample_peer 22, 65536)"
  using one_sided_access_reaches_the_peers_allocation [OF sample_heap_symmetric, of 0 "[S_Malloc 10]"
      "SymPtr 4096" "SymPtr 65536" 1 sample_state "sample_peer 22" 0 8]
  by (simp add: sample_mallocs sample_table sample_peer_def)

text \<open>C1: The promise of the partitioned global address space, end to end: two processes initialise
  with heaps of the same size, make the same allocation and deallocation calls, and the store gives
  the first the base that the second published. Then a typed put at the offset of my \<open>i\<close>-th
  allocation, with a fence and a quiet of the peer, returns, and its bytes are visible at the pointer
  that the peer got for its own \<open>i\<close>-th allocation, which is still live there with the same length.\<close>

theorem symmetric_put_lands_in_the_peers_allocation:
  assumes "alloc_contract B" and "init B c s = Some (Ok (), t)" and "sy_state t = Some st"
    and "alloc_contract D" and "init D d s' = Some (Ok (), t')" and "sy_state t' = Some st'"
    and "heap_cap (st_heap st) = heap_cap (st_heap st')"
    and "base_published B (st_client st) base" and "base (st_rank st') = sh_local_base (st_heap st')"
    and "btree_get (st_peers st) (st_rank st') = Some peer"
    and "ucx_memory B (tr_worker (st_transport st)) issued visible"
    and "fence_completes B (tr_worker (st_transport st)) issued visible"
    and "spmd_calls (t, []) xs = Some (u, ps)" and "sy_state u = Some su"
    and "i < length ps" and "ps ! i = Ok p" and "heap_live (st_heap su) p = Some n"
    and "pod_codec T" and "unat (pod_size T) * length vals \<le> n"
  shows "\<exists>off v u' su' qs q.
    offset_from p (sh_local_base (st_heap st)) = Ok off \<and>
    io_seq (put_typed B T (ucast (st_rank st')) vals off)
      (io_seq (fence B) (quiet_pe B (ucast (st_rank st')))) u = Some (Ok (), v) \<and>
    spmd_calls (t', []) xs = Some (u', qs) \<and> sy_state u' = Some su' \<and>
    qs ! i = Ok q \<and> heap_live (st_heap su') q = Some n \<and>
    mem_load (sp_addr q) (unat (pod_size T) * length vals) (visible (w_ext (sy_world v)) (pc_endpoint peer)) =
      slice_bytes T vals"
proof -
  let ?h = "st_heap st" and ?g = "st_heap st'" and ?pe = "ucast (st_rank st') :: usize"
  let ?len = "unat (pod_size T) * length vals"
  from init_built [OF assms(1,2)] assms(3) have st: "ready t st" "built B st" "heap_inv ?h"
    by (auto simp: ready_def state_inv_def)
  from init_built [OF assms(4,5)] assms(6) have st': "ready t' st'" "built D st'" "heap_inv ?g"
    by (auto simp: ready_def state_inv_def)
  have "symmetric ?h ?g"
    using st(2,3) st'(2,3) assms(7) by (simp add: symmetric_def built_def heap_spec_eq)
  note run = spmd_calls_run [OF st(1,3), of "[]" xs, folded spmd_run_def]
    and run' = spmd_calls_run [OF st'(1,3), of "[]" xs, folded spmd_run_def]
  have u: "u = with_heap t st (fst (spmd_run ?h xs))" and ps: "ps = snd (spmd_run ?h xs)"
    using run assms(13) by (simp_all split: prod.splits)
  have su: "st_heap su = fst (spmd_run ?h xs)" using assms(14) u by (auto simp: with_heap_def)
  obtain q where q: "snd (spmd_run ?g xs) ! i = Ok q" "heap_live (fst (spmd_run ?g xs)) q = Some n"
    and so: "same_offset ?h ?g p q" and inv: "heap_inv (fst (spmd_run ?g xs))"
    and base: "sh_local_base (fst (spmd_run ?g xs)) = sh_local_base ?g"
    using spmd_run_live [OF \<open>symmetric ?h ?g\<close>, of i xs p n] assms(15-17) unfolding ps su by blast
  have peer: "pc_heap_base peer = sh_local_base ?g"
    using st(2) assms(8-10) by (auto simp: built_def)
  obtain off where off: "offset_from p (sh_local_base ?h) = Ok off" and q_off: "unat (sp_addr q) = unat (sh_local_base ?g) + unat off"
    using same_offset_off [OF so] .
  have room: "unat (sh_local_base ?g) + unat off + ?len < 2 ^ 64" "?len \<le> isize_max"
    using live_room [OF inv q(2)] assms(19) q_off by simp_all
  then have addr: "sh_local_base ?g + off = sp_addr q"
    using q_off by (simp add: word_unat_eq_iff unat_word_ariths)
  have pe: "unat ?pe < 2 ^ 32" "btree_get (st_peers (st\<lparr>st_heap := fst (spmd_run ?h xs)\<rparr>)) (ucast ?pe) = Some peer"
    using rank_word [of "st_rank st'"] assms(10) by simp_all
  have "ready u (st\<lparr>st_heap := fst (spmd_run ?h xs)\<rparr>)" unfolding u by (rule with_heap_ready [OF st(1)])
  then obtain w where "io_seq (put_typed B T ?pe vals off) (io_seq (fence B) (quiet_pe B ?pe)) u = Some (Ok (), u\<lparr>sy_world := w\<rparr>)"
    and "mem_load (pc_heap_base peer + off) ?len (visible (w_ext w) (pc_endpoint peer)) = slice_bytes T vals"
    using put_fence_quiet [OF _ _ _ pe assms(18) room(2), of u B issued visible off] assms(11,12) room(1) peer
    by auto
  moreover have "spmd_calls (t', []) xs = Some (with_heap t' st' (fst (spmd_run ?g xs)), snd (spmd_run ?g xs))"
    using run' by (simp split: prod.splits)
  ultimately show ?thesis
    using off q addr peer
    by (intro exI [of _ off] exI [of _ "u\<lparr>sy_world := w\<rparr>"] exI [of _ "with_heap t' st' (fst (spmd_run ?g xs))"]
        exI [of _ "st'\<lparr>st_heap := fst (spmd_run ?g xs)\<rparr>"] exI [of _ "snd (spmd_run ?g xs)"] exI [of _ q] conjI) simp_all
qed

lemma sample_built_run:
  obtains h where "spmd_run (sample_built 14) [S_Malloc 10] = (h, [Ok (SymPtr 4096)])"
    and "heap_live h (SymPtr 4096) = Some 16"
  by (rule that [of "fst (spmd_run (sample_built 14) [S_Malloc 10])"])
    (simp_all add: spmd_run_def heap_malloc_def round_request_def take_block_def sample_built_def sample_heap_def eval_arith)

theorem symmetric_put_lands_in_the_peers_allocation_witness:
  "\<exists>t st u p off v. init sample_bindings True sample_start = Some (Ok (), t) \<and> sy_state t = Some st \<and>
     spmd_calls (t, []) [S_Malloc 10] = Some (u, [Ok p]) \<and>
     offset_from p (sh_local_base (st_heap st)) = Ok off \<and>
     io_seq (put_typed sample_bindings (pod_u32 Little) 0 [7, 9] off)
       (io_seq (fence sample_bindings) (quiet_pe sample_bindings 0)) u = Some (Ok (), v)"
proof -
  obtain st t where t: "init sample_bindings True sample_start = Some (Ok (), t)" "ready t st"
    "st_size st = 2" "st_rank st = 0" and heap: "st_heap st = sample_built 14"
    by (rule sample_init) blast
  have st: "sy_state t = Some st" using t(2) by (simp add: ready_def)
  have inv: "state_inv st" using init_inv [OF sample_alloc t(1)] st by (simp add: sys_inv_def sample_start_def)
  obtain c where c: "btree_get (st_peers st) 0 = Some c"
    using inv tables_agree_get(1) [of "st_peers st" "st_peer_rkeys st" "{pe. pe < 2}" 0] t(3)
    by (auto simp: state_inv_def)
  obtain h where h: "spmd_run (st_heap st) [S_Malloc 10] = (h, [Ok (SymPtr 4096)])" "heap_live h (SymPtr 4096) = Some 16"
    by (rule sample_built_run [folded heap])
  have run: "spmd_calls (t, []) [S_Malloc 10] = Some (with_heap t st h, [Ok (SymPtr 4096)])"
    using spmd_calls_run [OF t(2), of "[]" "[S_Malloc 10]", folded spmd_run_def] inv h by (simp add: state_inv_def)
  have size: "unat (pod_size (pod_u32 Little)) = 4" by (simp add: pod_u32_def pod_impl_def)
  obtain off v where "offset_from (SymPtr 4096) (sh_local_base (st_heap st)) = Ok off"
    and "io_seq (put_typed sample_bindings (pod_u32 Little) 0 [7, 9] off)
      (io_seq (fence sample_bindings) (quiet_pe sample_bindings 0)) (with_heap t st h) = Some (Ok (), v)"
    using symmetric_put_lands_in_the_peers_allocation [OF sample_alloc t(1) st sample_alloc t(1) st refl
        sample_published _ _ sample_memory sample_fence run _ _ _ _ u32.pod_codec_axioms [of Little], where
        peer = c and i = 0 and p = "SymPtr 4096" and n = 16 and vals = "[7, 9]" and su = "st\<lparr>st_heap := h\<rparr>"]
      h(2) c t(4) size
    by (auto simp: heap sample_built_def)
  with t(1) st run show ?thesis by blast
qed

end
