(* ===== verification/Error_Layers.thy ===== *)
theory Error_Layers
  imports Lifecycle
begin

text \<open>
  Which errors a computation can return, as a static exception specification: \<open>raises m P\<close> says
  that every error of \<open>m\<close> satisfies \<open>P\<close>. Its rules follow the structure of the computations; the
  layers are the variants of \<open>Error\<close> that a part of the crate may answer with.
\<close>

section \<open>Exception specifications\<close>

definition raises :: "('s, 'e, 'a) io \<Rightarrow> ('e \<Rightarrow> bool) \<Rightarrow> bool" where
  "raises m P \<longleftrightarrow> (\<forall>s e t. m s = Some (Err e, t) \<longrightarrow> P e)"

named_theorems raises_intros "exception specifications of computations"

lemma raisesD: "raises m P \<Longrightarrow> m s = Some (Err e, t) \<Longrightarrow> P e"
  unfolding raises_def by blast

lemma raises_mono: "raises m Q \<Longrightarrow> (\<And>e. Q e \<Longrightarrow> P e) \<Longrightarrow> raises m P"
  by (auto simp: raises_def)

lemma raises_return [raises_intros]: "raises (io_return a) P"
  by (simp add: raises_def io_return_def)

lemma raises_err [raises_intros]: "P e \<Longrightarrow> raises (io_err e) P"
  by (simp add: raises_def io_err_def)

lemma raises_lift [raises_intros]: "(\<And>e. r = Err e \<Longrightarrow> P e) \<Longrightarrow> raises (io_lift r) P"
  by (auto simp: raises_def io_lift_def)

lemma raises_call: "(\<And>s x t. f s = (Inl x, t) \<Longrightarrow> P (conv x)) \<Longrightarrow> raises (io_call conv f) P"
  by (auto simp: raises_def io_call_def split: prod.splits sum.splits)

lemma raises_step [raises_intros]: "raises (io_step f) P"
  by (auto simp: raises_def io_step_def split: prod.splits)

lemma raises_effect [raises_intros]: "raises (io_effect f) P"
  by (simp add: raises_def io_effect_def)

lemma io_bind_eq_Err:
  "io_bind m f s = Some (Err e, t) \<longleftrightarrow>
     m s = Some (Err e, t) \<or> (\<exists>a u. m s = Some (Ok a, u) \<and> f a u = Some (Err e, t))"
  by (auto simp: io_bind_def split: option.splits outcome.splits)

lemma raises_bind [raises_intros]:
  "raises m P \<Longrightarrow> (\<And>a. raises (f a) P) \<Longrightarrow> raises (io_bind m f) P"
  unfolding raises_def io_bind_eq_Err by blast

lemma raises_seq [raises_intros]: "raises m P \<Longrightarrow> raises n P \<Longrightarrow> raises (io_seq m n) P"
  unfolding io_seq_def by (rule raises_bind)

lemma raises_on_fail [raises_intros]: "raises m P \<Longrightarrow> raises (io_on_fail c m) P"
  by (auto simp: raises_def io_on_fail_def split: option.splits outcome.splits)

lemma raises_on_err [raises_intros]: "raises m P \<Longrightarrow> raises (io_on_err c m) P"
  by (auto simp: raises_def io_on_err_def split: option.splits outcome.splits)

lemma raises_finally [raises_intros]: "raises m P \<Longrightarrow> raises (io_finally c m) P"
  by (auto simp: raises_def io_finally_def split: option.splits)

lemma raises_ok [raises_intros]: "raises (io_ok m) P"
  by (auto simp: raises_def io_ok_def split: option.splits outcome.splits)

lemma raises_if [raises_intros]:
  "(b \<Longrightarrow> raises m P) \<Longrightarrow> (\<not> b \<Longrightarrow> raises n P) \<Longrightarrow> raises (if b then m else n) P"
  by simp

lemma poll_result_Err: "poll_result a = Some (Err e) \<longleftrightarrow> a = Err e"
  by (induction a rule: poll_result.induct) auto

text \<open>A loop whose body keeps an invariant of its state.\<close>

lemma poll_loop_Err:
  assumes "poll_loop body s = Some (Err e, t)" and "I s"
    and keep: "\<And>s. I s \<Longrightarrow> I (snd (body s))" and err: "\<And>s e. I s \<Longrightarrow> fst (body s) = Err e \<Longrightarrow> P e"
  shows "P e"
proof -
  obtain n where "poll_result (poll_answer body n s) = Some (Err e)"
    using assms(1) by (metis poll_loop_returned)
  then have "fst (body (poll_state body n s)) = Err e" by (simp add: poll_result_Err poll_answer_def)
  moreover have "I (poll_state body n s)"
    using assms(2) by (induction n arbitrary: s) (simp_all add: keep)
  ultimately show ?thesis using err by blast
qed

lemma raises_poll_loop [raises_intros]:
  "(\<And>s e. fst (body s) = Err e \<Longrightarrow> P e) \<Longrightarrow> raises (poll_loop body) P"
  unfolding raises_def by (intro allI impI) (erule poll_loop_Err [where I = "\<lambda>_. True"], simp_all)

lemma raises_with_state [raises_intros]:
  assumes "P NotInitialized" and "P lock_error" and "\<And>st. raises (f st) P"
  shows "raises (with_state f) P"
  unfolding raises_def
proof (intro allI impI)
  fix s e t
  assume "with_state f s = Some (Err e, t)"
  then show "P e"
    by (cases rule: with_state_cases [of s f])
      (use assms in \<open>auto simp: raises_def split: option.splits\<close>)
qed

lemma raises_outside_lock [raises_intros]: "raises m P \<Longrightarrow> raises (outside_lock m) P"
  by (auto simp: raises_def outside_lock_def split: option.splits)

section \<open>Failures of the bindings\<close>

text \<open>
  The code trusts the failures of two bindings: \<open>map_ucc\<close> wraps what UCC answered, \<open>pmix_error\<close>
  what PMIx did. What it relies on is that these libraries never report a failure by their own
  success status.
\<close>

definition ucc_success :: "'x bindings \<Rightarrow> ucc_status" where
  "ucc_success B = ucc_from_raw (ucc B) (ucc_ok (ucc B))"

definition never_fails_with :: "('f \<Rightarrow> bool) \<Rightarrow> ('x, 'f, 'a) call \<Rightarrow> bool" where
  "never_fails_with P f \<longleftrightarrow> (\<forall>w w' s. f w = (Inl s, w') \<longrightarrow> \<not> P s)"

definition pmix_raw_success :: "'x bindings \<Rightarrow> int \<Rightarrow> bool" where
  "pmix_raw_success B raw \<longleftrightarrow> pmix_from_raw (pmix B) raw = Some (pmix_success (pmix B))"

definition failures_are_failures :: "'x bindings \<Rightarrow> bool" where
  "failures_are_failures B \<longleftrightarrow>
     (\<forall>n. ucc_from_raw (ucc B) n = ucc_success B \<longrightarrow> n = ucc_ok (ucc B)) \<and>
     never_fails_with (\<lambda>s. s = ucc_success B) (ucc_lib_init (ucc B)) \<and>
     (\<forall>l. never_fails_with (\<lambda>s. s = ucc_success B) (ucc_context_new (ucc B) l)) \<and>
     (\<forall>c n t. never_fails_with (\<lambda>s. s = ucc_success B) (ucc_team_with_params (ucc B) c n t)) \<and>
     (\<forall>t. never_fails_with (\<lambda>s. s = ucc_success B) (ucc_team_size (ucc B) t)) \<and>
     (\<forall>args t. never_fails_with (\<lambda>s. s = ucc_success B) (coll_init (ucc B) args t)) \<and>
     (\<forall>c. never_fails_with (\<lambda>s. s = ucc_success B) (coll_post (ucc B) c)) \<and>
     (\<forall>c. never_fails_with (\<lambda>s. s = ucc_success B) (coll_finalize (ucc B) c)) \<and>
     pmix_generic (pmix B) \<noteq> pmix_success (pmix B) \<and>
     (\<forall>c. never_fails_with (pmix_raw_success B) (pmix_disconnect (pmix B) c)) \<and>
     (\<forall>sc k v. never_fails_with (pmix_raw_success B) (pmix_put_value (pmix B) sc k v)) \<and>
     never_fails_with (pmix_raw_success B) (pmix_commit (pmix B)) \<and>
     (\<forall>p. never_fails_with (pmix_raw_success B) (pmix_fence (pmix B) p))"

lemma failuresD:
  assumes "failures_are_failures B"
  shows "never_fails_with (\<lambda>s. s = ucc_success B) (ucc_lib_init (ucc B))"
    "never_fails_with (\<lambda>s. s = ucc_success B) (ucc_context_new (ucc B) l)"
    "never_fails_with (\<lambda>s. s = ucc_success B) (ucc_team_with_params (ucc B) c n tb)"
    "never_fails_with (\<lambda>s. s = ucc_success B) (ucc_team_size (ucc B) tm)"
    "never_fails_with (\<lambda>s. s = ucc_success B) (coll_init (ucc B) args tm)"
    "never_fails_with (\<lambda>s. s = ucc_success B) (coll_post (ucc B) c)"
    "never_fails_with (\<lambda>s. s = ucc_success B) (coll_finalize (ucc B) c)"
    "never_fails_with (pmix_raw_success B) (pmix_disconnect (pmix B) c)"
    "never_fails_with (pmix_raw_success B) (pmix_put_value (pmix B) sc k v)"
    "never_fails_with (pmix_raw_success B) (pmix_commit (pmix B))"
    "never_fails_with (pmix_raw_success B) (pmix_fence (pmix B) p)"
  using assms by (simp_all add: failures_are_failures_def)

lemma status_is_failure:
  "failures_are_failures B \<Longrightarrow> n \<noteq> ucc_ok (ucc B) \<Longrightarrow> ucc_from_raw (ucc B) n \<noteq> ucc_success B"
  by (auto simp: failures_are_failures_def)

section \<open>The layers\<close>

text \<open>The identity queries, the heap, the remote accesses, the collectives.\<close>

fun query_error :: "error \<Rightarrow> bool" where
  "query_error NotInitialized = True"
| "query_error (Internal m) = (m = ''lifecycle state lock poisoned'')"
| "query_error _ = False"

fun heap_error :: "error \<Rightarrow> bool" where
  "heap_error (Usage m) = True"
| "heap_error e = query_error e"

fun rma_error :: "'x bindings \<Rightarrow> error \<Rightarrow> bool" where
  "rma_error B (Ucx s) = ucx_is_err (ucx B) s"
| "rma_error B (Usage m) = True"
| "rma_error B (Internal m) = True"
| "rma_error B e = query_error e"

fun coll_error :: "'x bindings \<Rightarrow> error \<Rightarrow> bool" where
  "coll_error B (Ucc s) = (s \<noteq> ucc_success B)"
| "coll_error B (Usage m) = True"
| "coll_error B (Internal m) = True"
| "coll_error B e = query_error e"

text \<open>Initialisation and finalisation.\<close>

fun init_error :: "'x bindings \<Rightarrow> error \<Rightarrow> bool" where
  "init_error B (Pmix p) = (p \<noteq> pmix_success (pmix B))"
| "init_error B (Ucx s) = ucx_is_err (ucx B) s"
| "init_error B (Ucc s) = (s \<noteq> ucc_success B)"
| "init_error B NotInitialized = False"
| "init_error B _ = True"

fun finalize_error :: "'x bindings \<Rightarrow> error \<Rightarrow> bool" where
  "finalize_error B (Pmix p) = (p \<noteq> pmix_success (pmix B))"
| "finalize_error B (Internal m) = (m = ''lifecycle state lock poisoned'')"
| "finalize_error B _ = False"

lemma lock_error_layers [simp]:
  "query_error lock_error" "heap_error lock_error" "rma_error B lock_error" "coll_error B lock_error"
  "init_error B lock_error" "finalize_error B lock_error"
  by (simp_all add: lock_error_def)

lemma ucx_error_layers [simp]: "rma_error B (ucx_error B s)" "init_error B (ucx_error B s)"
  by (simp_all add: ucx_error_def from_ucx_def)

lemma pmix_error_layer [simp]: "init_error B (pmix_error_from B p)"
  by (auto simp: pmix_error_from_def from_pmix_def)

lemma pmix_raw_layers:
  assumes "failures_are_failures B" and "\<not> pmix_raw_success B n"
  shows "init_error B (pmix_error_raw B n)" "finalize_error B (pmix_error_raw B n)"
  using assms
  by (auto simp: pmix_error_raw_def pmix_raw_success_def failures_are_failures_def split: option.splits)

lemma map_ucc_layers [simp]:
  "s \<noteq> ucc_success B \<Longrightarrow> coll_error B (map_ucc s)" "s \<noteq> ucc_success B \<Longrightarrow> init_error B (map_ucc s)"
  by (simp_all add: map_ucc_def)

lemma raises_bindings [raises_intros]:
  "raises (ucx_call B f) (rma_error B)" "raises (ucx_call B f) (init_error B)"
  "raises (pmix_call B g) (init_error B)"
  unfolding ucx_call_def pmix_call_def by (rule raises_call, simp)+

lemma raises_trusted [raises_intros]:
  "failures_are_failures B \<Longrightarrow> never_fails_with (pmix_raw_success B) h \<Longrightarrow>
     raises (pmix_raw_call B h) (init_error B)"
  "never_fails_with (\<lambda>s. s = ucc_success B) k \<Longrightarrow> raises (ucc_call k) (coll_error B)"
  "never_fails_with (\<lambda>s. s = ucc_success B) k \<Longrightarrow> raises (ucc_call k) (init_error B)"
  unfolding pmix_raw_call_def ucc_call_def never_fails_with_def
  by (rule raises_call; blast intro: pmix_raw_layers(1) map_ucc_layers)+

section \<open>Pure parts\<close>

lemma outcome_bind_eq_Err:
  "outcome_bind m f = Err e \<longleftrightarrow> m = Err e \<or> (\<exists>a. m = Ok a \<and> f a = Err e)"
  by (cases m) auto

definition usage_error :: "error \<Rightarrow> bool" where
  "usage_error e \<longleftrightarrow> (\<exists>m. e = Usage m)"

lemma usage_layers:
  "usage_error e \<Longrightarrow> heap_error e" "usage_error e \<Longrightarrow> rma_error B e" "usage_error e \<Longrightarrow> coll_error B e"
  "usage_error e \<Longrightarrow> init_error B e"
  by (auto simp: usage_error_def)

lemma peer_and_address_usage: "peer_and_address st pe off len = Err e \<Longrightarrow> usage_error e"
  by (auto simp: peer_and_address_def outcome_bind_eq_Err usage_error_def)

lemma heap_malloc_usage: "heap_malloc h n = (Err e, h') \<Longrightarrow> usage_error e"
  by (auto simp: heap_malloc_def round_request_def take_block_def outcome_bind_eq_Err usage_error_def
      add_op_def sub_op_def Let_def split: if_splits outcome.splits option.splits)

lemma merge_blocks_no_Err: "merge_blocks ms bs \<noteq> Err e"
  by (induction ms bs rule: merge_blocks.induct) (auto simp: outcome_bind_eq_Err add_op_def Let_def)

lemma heap_free_usage: "heap_free h p = (Err e, h') \<Longrightarrow> usage_error e"
  by (cases p) (auto simp: block_in_region_def heap_capacity_def mul_op_def outcome_bind_eq_Err
      usage_error_def merge_blocks_no_Err Let_def
      split: outcome.splits option.splits if_splits bool.splits)

lemma encode_usage: "encode T xs = Err e \<Longrightarrow> usage_error e"
  by (auto simp: encode_def outcome_bind_eq_Err usage_error_def split: if_splits)

lemma collect_results_Err: "collect_results rs = Err e \<Longrightarrow> Err e \<in> set rs"
  by (induction rs) (auto simp: outcome_bind_eq_Err)

context pod_codec
begin

lemma decode_chunk_no_Err: "Err e \<notin> set (map (pod_decode T) (chunks_exact (unat (pod_size T)) bs))"
proof
  assume "Err e \<in> set (map (pod_decode T) (chunks_exact (unat (pod_size T)) bs))"
  then obtain c where "c \<in> set (chunks_exact (unat (pod_size T)) bs)" and c: "pod_decode T c = Err e" by auto
  then have "length c = unat (pod_size T)" by (intro chunks_exact_lengths)
  from decode_length [OF this] c show False by auto
qed

lemma decode_chunks_no_Err: "collect_results (map (pod_decode T) (chunks_exact (unat (pod_size T)) bs)) \<noteq> Err e"
  by (meson decode_chunk_no_Err collect_results_Err)

lemma decode_usage:
  assumes "decode T bs vs = (Err e, vs')"
  shows "usage_error e"
proof -
  have "\<exists>x. pod_decode T c = Ok x" if "c \<in> set (chunks_exact (unat (pod_size T)) bs)" for c
    using decode_length [OF chunks_exact_lengths [OF that]] by blast
  moreover have "fst (decode_loop T vs cs) \<noteq> Err e" if "\<And>c. c \<in> set cs \<Longrightarrow> \<exists>x. pod_decode T c = Ok x" for cs
    using that
  proof (induction T vs cs rule: decode_loop.induct)
    case (3 T v vs c cs)
    then obtain x where "pod_decode T c = Ok x" by auto
    with 3 show ?case by (auto split: prod.splits)
  qed simp_all
  ultimately have "fst (decode_loop T vs (chunks_exact (unat (pod_size T)) bs)) \<noteq> Err e" by blast
  with assms show ?thesis
    by (auto simp: decode_def usage_error_def split: option.splits if_splits)
qed

lemma collect_decode_no_Err: "collect_decode T n bs \<noteq> Err e"
proof
  assume "collect_decode T n bs = Err e"
  then have "Err e \<in> set (map (\<lambda>chunk. collect_results (map (pod_decode T)
      (chunks_exact (unat (pod_size T)) chunk))) (chunks_exact n bs))"
    by (auto simp: collect_decode_def outcome_bind_eq_Err dest: collect_results_Err)
  then obtain chunk where "collect_results (map (pod_decode T) (chunks_exact (unat (pod_size T)) chunk)) = Err e"
    by auto
  with decode_chunks_no_Err show False by blast
qed

end

section \<open>The calls\<close>

lemma raises_vec [raises_intros]: "raises (vec_zeroed_u8 n) P" "raises (vec_zeroed_u64 B n) P"
  by (auto simp: raises_def vec_zeroed_u8_def vec_zeroed_u64_def split: prod.splits option.splits if_splits)

lemma raises_usage:
  "(\<And>e. r = Err e \<Longrightarrow> usage_error e) \<Longrightarrow> raises (io_lift r) (rma_error B)"
  "(\<And>e. r = Err e \<Longrightarrow> usage_error e) \<Longrightarrow> raises (io_lift r) (coll_error B)"
  "(\<And>e. r = Err e \<Longrightarrow> usage_error e) \<Longrightarrow> raises (io_lift r) (init_error B)"
    apply (rule raises_lift, rule usage_layers, blast)
   apply (rule raises_lift, rule usage_layers, blast)
  apply (rule raises_lift, rule usage_layers, blast)
  done

lemma usage_ok_or: "ok_or x (Usage m) = Err e \<Longrightarrow> usage_error e"
  by (simp add: usage_error_def)

lemma raises_wait [raises_intros]: "raises (complete_request B t req) (rma_error B)"
proof (cases req)
  case None
  then show ?thesis by (simp add: complete_request_def raises_return)
next
  case (Some r)
  have "raises (wait_request B t r) (rma_error B)"
    unfolding wait_request_def
    by (rule raises_poll_loop) (auto simp: wait_request_body_def split: prod.splits sum.splits bool.splits)
  then show ?thesis
    by (simp add: Some complete_request_def) (intro raises_intros)
qed

lemma raises_fetch [raises_intros]: "raises (complete_fetch B worker req) (rma_error B)"
  unfolding complete_fetch_def
  by (intro raises_intros)
    (auto simp: complete_fetch_body_def split: prod.splits sum.splits bool.splits)

lemma raises_rma:
  "raises (putmem B pe bs off) (rma_error B)" "raises (getmem B pe off len) (rma_error B)"
  "raises (fence B) (rma_error B)" "raises (quiet_pe B pe) (rma_error B)"
  "raises (atomic_op B A m pe off v) (rma_error B)" "raises (atomic_cswap B A pe off v v') (rma_error B)"
  "raises (atomic_fetch B A f pe off v) (rma_error B)" "raises (atomic_fcswap B A pe off v v') (rma_error B)"
  unfolding putmem_def getmem_def fence_def quiet_pe_def atomic_op_def atomic_cswap_def
    atomic_fetch_def atomic_fcswap_def transport_fence_def with_worker_def flush_peer_def split_def
  by (intro raises_intros raises_usage(1); simp add: usage_ok_or peer_and_address_usage)+

lemma raises_quiet: "raises (quiet B) (rma_error B)" "raises (quiet_all B) (rma_error B)"
proof -
  have "raises (flush_peers B t ps) (rma_error B)" for t ps
    by (induction ps) (simp_all add: flush_peer_def raises_intros)
  then show "raises (quiet B) (rma_error B)" unfolding quiet_def by (intro raises_intros) simp_all
  then show "raises (quiet_all B) (rma_error B)" by (simp add: quiet_all_def)
qed

lemma raises_put_typed: "raises (put_typed B T pe xs off) (rma_error B)"
  unfolding put_typed_def
  by (intro raises_intros raises_rma(1))
    (auto simp: pod_as_bytes_def outcome_bind_eq_Err split: if_splits)

lemma raises_get_typed:
  assumes "pod_codec T"
  shows "raises (get_typed B T pe off n) (rma_error B)"
  unfolding get_typed_def
  by (intro raises_intros raises_rma(2))
    (auto dest: usage_ok_or usage_layers(2) simp: pod_codec.decode_chunks_no_Err [OF assms])

text \<open>Heap and queries.\<close>

lemma raises_with_state_mut:
  "(\<And>st e st'. f st = (Err e, st') \<Longrightarrow> usage_error e) \<Longrightarrow> raises (with_state_mut f) heap_error"
  using usage_layers(1)
  by (auto simp: raises_def with_state_mut_def with_lock_def split: if_splits option.splits prod.splits)

lemma raises_heap:
  "raises (symheap_malloc n) heap_error" "raises (symheap_free p) heap_error"
  "raises symheap_heap_base query_error" "raises my_pe query_error" "raises n_pes query_error"
proof -
  show "raises (symheap_malloc n) heap_error"
    unfolding symheap_malloc_def by (rule raises_with_state_mut) (auto dest: heap_malloc_usage split: prod.splits)
  show "raises (symheap_free p) heap_error"
    unfolding symheap_free_def by (rule raises_with_state_mut) (auto dest: heap_free_usage split: prod.splits)
  show "raises symheap_heap_base query_error"
    unfolding symheap_heap_base_def by (intro raises_intros) simp_all
  show "raises my_pe query_error" and "raises n_pes query_error"
    by (auto simp: raises_def my_pe_def n_pes_def with_lock_def split: if_splits)
qed

section \<open>Collectives\<close>

lemma raises_coll_start:
  "failures_are_failures B \<Longrightarrow> raises (coll_start B rt args) (coll_error B)"
  unfolding coll_start_def by (intro raises_intros failuresD)

lemma raises_coll_wait:
  assumes "failures_are_failures B"
  shows "raises (coll_wait B ctx coll) (coll_error B)"
proof -
  have "coll_error B e" if "fst (coll_wait_body B ctx coll w) = Err e" for w e
    using that failuresD(7) [OF assms, of coll] status_is_failure [OF assms]
    by (auto simp: coll_wait_body_def never_fails_with_def split: prod.splits sum.splits if_splits)
  then show ?thesis unfolding coll_wait_def by (intro raises_intros)
qed

lemma raises_team_size: "failures_are_failures B \<Longrightarrow> raises (team_size B rt) (coll_error B)"
  unfolding team_size_def by (intro raises_intros failuresD)

lemma raises_with_runtime [raises_intros]:
  "(\<And>rt. raises (f rt) (coll_error B)) \<Longrightarrow> raises (with_runtime f) (coll_error B)"
  unfolding with_runtime_def by (intro raises_intros) auto

lemma raises_encode_slice [raises_intros]: "raises (encode_slice T d n) (coll_error B)"
  by (auto simp: raises_def encode_slice_def outside_lock_def io_bind_eq_Err io_step_def io_lift_def
      split: option.splits prod.splits dest!: encode_usage intro: usage_layers)

lemma raises_decode_slice: "pod_codec T \<Longrightarrow> raises (decode_slice T buf d n) (coll_error B)"
  by (auto simp: raises_def decode_slice_def outside_lock_def decode_to_def split: prod.splits
      dest!: pod_codec.decode_usage intro: usage_layers)

lemma raises_receive_buffer [raises_intros]: "raises (receive_buffer bs n) (coll_error B)"
  unfolding receive_buffer_def by (intro raises_intros raises_usage(2)) (rule usage_ok_or)

lemmas raises_coll_steps = raises_coll_start raises_coll_wait raises_team_size

lemma raises_blocking:
  assumes "failures_are_failures B" and "pod_codec T"
  shows "raises (barrier B) (coll_error B)" and "raises (broadcast B T root d n) (coll_error B)"
    and "raises (collect B T xs) (coll_error B)" and "raises (reduce B T rop d n) (coll_error B)"
  unfolding barrier_def broadcast_def collect_def reduce_def
  by (intro raises_intros raises_coll_steps raises_decode_slice assms raises_usage(2);
      simp add: encode_usage pod_codec.collect_decode_no_Err [OF assms(2)])+

lemma raises_nonblocking:
  assumes "failures_are_failures B"
  shows "raises (barrier_nb B) (coll_error B)" "raises (broadcast_nb B T root d n) (coll_error B)"
    "raises (collect_nb B T xs) (coll_error B)" "raises (reduce_nb B T rop d n) (coll_error B)"
  unfolding barrier_nb_def broadcast_nb_def collect_nb_def reduce_nb_def
  by (intro raises_intros raises_coll_steps assms raises_usage(2); simp add: encode_usage)+

text \<open>The methods of a request: its destination, if any, is the slice of elements of one type that
  the call which made it was given.\<close>

definition typed_request :: "'a pod \<Rightarrow> 'x collective_request \<Rightarrow> bool" where
  "typed_request T q \<longleftrightarrow> cr_destination q = None \<or> (\<exists>d n. cr_destination q = Some (typed_destination T d n))"

lemma typed_request_finished [simp]: "typed_request T (q\<lparr>cr_op := c\<rparr>) = typed_request T q"
  by (simp add: typed_request_def)

lemma request_copy_back_Err:
  assumes "pod_codec T" and "typed_request T q" and "request_copy_back q w = (Err e, w')"
  shows "coll_error B e"
  using assms(2,3) unfolding typed_request_def
  by (auto simp: request_copy_back_def typed_destination_def decode_to_def outcome_bind_eq_Err
      split: if_splits prod.splits dest!: pod_codec.decode_usage [OF assms(1)] intro: usage_layers)

lemma request_test_Err:
  assumes "failures_are_failures B" and "pod_codec T" and "typed_request T (fst qw)"
    and "fst (request_test B qw) = Err e"
  shows "coll_error B e"
  using assms(3,4) failuresD(7) [OF assms(1)] status_is_failure [OF assms(1)]
  by (cases qw) (auto simp: request_test_def never_fails_with_def Let_def
      split: option.splits prod.splits sum.splits if_splits dest!: request_copy_back_Err [OF assms(2), rotated])

lemma request_test_typed: "typed_request T (fst qw) \<Longrightarrow> typed_request T (fst (snd (request_test B qw)))"
  by (cases qw) (auto simp: request_test_def Let_def split: option.splits prod.splits sum.splits)

lemma request_wait_Err:
  assumes "failures_are_failures B" and "pod_codec T" and "typed_request T (fst qw)"
    and "request_wait B qw = Some (Err e, t)"
  shows "coll_error B e"
  using assms(4) unfolding request_wait_def
proof (rule poll_loop_Err [where I = "\<lambda>qw. typed_request T (fst qw)"])
  show "typed_request T (fst qw)" by (rule assms(3))
  show "typed_request T (fst (snd (request_wait_body B s)))" if "typed_request T (fst s)" for s
    using request_test_typed [OF that, of B]
    by (cases "request_test B s") (simp add: request_wait_body_def)
  show "coll_error B e" if "typed_request T (fst s)" "fst (request_wait_body B s) = Err e" for s e
    using that(2) request_test_Err [OF assms(1,2) that(1)]
    by (auto simp: request_wait_body_def outcome_bind_eq_Err split: prod.splits)
qed

lemma request_result_Err: "pod_codec T \<Longrightarrow> request_result T q w = Err e \<Longrightarrow> usage_error e"
  by (auto simp: request_result_def outcome_bind_eq_Err usage_error_def pod_codec.decode_chunks_no_Err
      split: if_splits option.splits)

section \<open>Initialisation and finalisation\<close>

lemma raises_transport_new [raises_intros]: "raises (transport_new B n) (init_error B)"
proof -
  have "raises (io_call (config_error_to B) (config_read (ucx B) f g)) (init_error B)" for f g
    by (rule raises_call) (auto simp: config_error_to_def split: config_error.splits)
  then show ?thesis unfolding transport_new_def by (intro raises_intros)
qed

lemma raises_heap_new [raises_intros]: "raises (heap_new B ctx) (init_error B)"
proof -
  have "raises (heap_with_size B ctx sz) (init_error B)" for sz
    unfolding heap_with_size_def Let_def split_def
    by (intro raises_intros raises_usage(3)) (auto simp: usage_ok_or mul_op_def)
  then show ?thesis by (simp add: raises_def heap_new_def)
qed

lemma raises_put_bytes: "failures_are_failures B \<Longrightarrow> raises (put_bytes B k bs) (init_error B)"
  unfolding put_bytes_def by (intro raises_intros raises_call failuresD; simp)

lemma raises_handshake:
  assumes "failures_are_failures B"
  shows "raises (handshake B client t h sz) (init_error B)"
proof -
  have connect: "raises (connect_peers B client t pes b) (init_error B)" for pes b
  proof (induction pes arbitrary: b)
    case (Cons pe pes)
    show ?case
      unfolding connect_peers.simps split_def connect_peer_def create_endpoint_def
      by (intro raises_intros Cons.IH) simp_all
  qed (simp add: raises_return)
  have publish: "raises (publish B client t h) (init_error B)"
    unfolding publish_def
    by (intro raises_intros raises_call raises_put_bytes failuresD assms; simp)
  show ?thesis unfolding handshake_def by (intro raises_intros connect publish) simp_all
qed

lemma raises_runtime_new:
  "failures_are_failures B \<Longrightarrow> raises (runtime_new B client rank n) (init_error B)"
  unfolding runtime_new_def Let_def by (intro raises_intros raises_usage(3) failuresD) (rule usage_ok_or)

lemma raises_init_state:
  assumes "failures_are_failures B"
  shows "raises (init_state B) (init_error B)"
proof -
  have "raises (job_size B client) (init_error B)" for client
    unfolding job_size_def by (intro raises_intros) (auto simp: raises_def io_return_def split: option.splits)
  then show ?thesis
    unfolding init_state_def
    by (intro raises_intros raises_handshake assms; (simp split: option.split)?;
        intro conjI allI impI raises_intros raises_handshake assms; simp?)
qed

lemma raises_session:
  assumes "failures_are_failures B"
  shows "raises (init B c) (init_error B)" "raises (finalize B) (finalize_error B)"
proof -
  have install: "install B c st w = Some (Err e, st', w') \<Longrightarrow> init_error B e" for st w e st' w'
    by (auto simp: install_def split: if_splits option.splits outcome.splits
        dest: raisesD [OF raises_runtime_new [OF assms]])
  show "raises (init B c) (init_error B)"
    by (auto simp: raises_def init_def with_lock_def split: if_splits option.splits outcome.splits
        dest: install raisesD [OF raises_init_state [OF assms]])
  have "finalize_error B (pmix_error_raw B n)" if "pmix_disconnect (pmix B) cl w = (Inl n, w')" for cl w n w'
    using that failuresD(8) [OF assms, of cl] pmix_raw_layers(2) [OF assms]
    by (auto simp: never_fails_with_def)
  then show "raises (finalize B) (finalize_error B)"
    by (auto simp: raises_def finalize_def with_lock_def lock_error_def split: if_splits option.splits prod.splits sum.splits)
qed

end
