(* ===== verification/Lifecycle_Properties.thy ===== *)
theory Lifecycle_Properties
  imports Sample Error_Layers
begin

text \<open>
  The properties of the process-global state: its invariant in every reachable state, what each
  call does before initialisation, twice initialised, poisoned and finalised, what a successful
  handshake and initialisation establish, and the order of the destructors.
\<close>

section \<open>Lemmas\<close>

lemma api_steps_poisoned:
  "(api_step B c T A)\<^sup>*\<^sup>* s t \<Longrightarrow> sy_poisoned s \<Longrightarrow> sy_poisoned t \<and> sy_state t = sy_state s"
  by (induction rule: rtranclp_induct) (auto dest: api_step_poisoned)

lemma with_state_no_panic: "(\<And>st. no_panic (f st)) \<Longrightarrow> no_panic (with_state f)"
  unfolding no_panic_def
  by (intro allI impI, rule_tac s = s and f = f in with_state_cases)
    (auto simp: lock_error_def split: option.splits)

text \<open>What must be alive when a resource is destroyed, as the comments on \<open>ShmemState\<close> and
  \<open>PeerConnection\<close> say: endpoints, rkeys and the worker need the UCX worker and context, a
  registration its context and its memory, the parts of the UCC runtime each other and the
  callback state that UCC has a raw pointer to.\<close>

fun needs :: "resource \<Rightarrow> resource \<Rightarrow> bool" where
  "needs (R_Endpoint _) r = (case r of R_Worker _ \<Rightarrow> True | R_Context _ \<Rightarrow> True | _ \<Rightarrow> False)"
| "needs (R_Rkey _) r = (case r of R_Worker _ \<Rightarrow> True | R_Context _ \<Rightarrow> True | _ \<Rightarrow> False)"
| "needs (R_Worker _) r = (case r of R_Context _ \<Rightarrow> True | _ \<Rightarrow> False)"
| "needs (R_Memh _) r = (case r of R_Context _ \<Rightarrow> True | R_Region _ \<Rightarrow> True | _ \<Rightarrow> False)"
| "needs (R_Team _) r = (case r of R_Ucc_Context _ \<Rightarrow> True | R_Ucc_Lib _ \<Rightarrow> True | R_Oob \<Rightarrow> True | _ \<Rightarrow> False)"
| "needs (R_Ucc_Context _) r = (case r of R_Ucc_Lib _ \<Rightarrow> True | _ \<Rightarrow> False)"
| "needs _ r = False"

text \<open>What a state owns.\<close>

definition owned :: "shmem_state \<Rightarrow> resource set" where
  "owned st = (\<Union>c \<in> set (btree_values (st_peers st)). {R_Endpoint (pc_endpoint c), R_Rkey (pc_rkey c)}) \<union>
     {R_Memh (sh_memh (st_heap st)), R_Region (sh_local_base (st_heap st)), R_Worker (tr_worker (st_transport st)),
      R_Context (tr_context (st_transport st)), R_Client (st_client st)} \<union>
     (case st_collectives st of None \<Rightarrow> {}
      | Some rt \<Rightarrow> {R_Team (rt_team rt), R_Ucc_Context (rt_context rt), R_Ucc_Lib (rt_lib rt), R_Oob})"

lemma drop_peers_cases:
  "r \<in> set (drop_peers m) \<Longrightarrow> (\<exists>h. r = R_Endpoint h) \<or> (\<exists>h. r = R_Rkey h)"
  by (auto simp: drop_peers_def drop_peer_def)

lemma sorted_wrt_unrelated: "(\<And>x y. x \<in> set xs \<Longrightarrow> y \<in> set xs \<Longrightarrow> P x y) \<Longrightarrow> sorted_wrt P xs"
  by (induction xs) auto

text \<open>A call that the poisoned lock refuses, and one that may refuse its own arguments before.\<close>

definition locked_out :: "('x sys, error, 'a) io \<Rightarrow> 'x sys \<Rightarrow> bool" where
  "locked_out c s \<longleftrightarrow> c s = Some (Err (Internal ''lifecycle state lock poisoned''), s)"

definition turned_away :: "('x sys, error, 'a) io \<Rightarrow> 'x sys \<Rightarrow> bool" where
  "turned_away c s \<longleftrightarrow> (\<exists>r w. c s = Some (r, s\<lparr>sy_world := w\<rparr>) \<and> w_ext w = w_ext (sy_world s) \<and>
     (r = Err (Internal ''lifecycle state lock poisoned'') \<or> (\<exists>m. r = Err (Usage m)) \<or> r = Panic))"

lemma with_lock_locked_out: "sy_poisoned s \<Longrightarrow> locked_out (with_lock f) s"
  by (simp add: locked_out_def with_lock_def)

lemma with_state_locked_out: "sy_poisoned s \<Longrightarrow> locked_out (with_state f) s"
  by (simp add: with_state_def with_lock_locked_out)

lemma locked_out_turned_away: "locked_out c s \<Longrightarrow> turned_away c s"
  unfolding locked_out_def turned_away_def by (cases s) auto

lemma turned_away_usage: "turned_away (io_err (Usage m)) s"
  unfolding turned_away_def by (cases s) (auto simp: io_err_def)

text \<open>Encoding a slice only creates a buffer of the process.\<close>

lemma encode_slice_outcomes:
  obtains (encoded) b w where "encode_slice T d n s = Some (Ok b, s\<lparr>sy_world := w\<rparr>)" and "w_ext w = w_ext (sy_world s)"
  | (overflow) m where "encode_slice T d n s = Some (Err (Usage m), s)"
  | (capacity) "encode_slice T d n s = Some (Panic, s)"
proof -
  let ?e = "encode T (slice_values T d n (sy_world s))"
  have s: "s\<lparr>sy_world := sy_world s\<rparr> = s" by simp
  show ?thesis
  proof (cases ?e)
    case (Ok bs)
    then have "encode_slice T d n s = Some (Ok (fst (buf_new bs (sy_world s))), s\<lparr>sy_world := snd (buf_new bs (sy_world s))\<rparr>)"
      by (simp add: encode_slice_def outside_lock_def io_bind_def io_lift_def io_step_def split: prod.split)
    then show ?thesis by (rule encoded) (simp add: buf_new_def)
  next
    case (Err x)
    then obtain m where "x = Usage m" using encode_usage unfolding usage_error_def by blast
    with Err s show ?thesis
      by (intro overflow [of m]) (simp add: encode_slice_def outside_lock_def io_bind_def io_lift_def)
  next
    case Panic
    with s show ?thesis
      by (intro capacity) (simp add: encode_slice_def outside_lock_def io_bind_def io_lift_def)
  qed
qed

lemma encode_then_turned_away:
  assumes "sy_poisoned s" and "\<And>buf t. sy_poisoned t \<Longrightarrow> locked_out (f buf) t"
  shows "turned_away (io_bind (encode_slice T d n) f) s"
proof (cases rule: encode_slice_outcomes [of T d n s, case_names encoded overflow capacity])
  case (encoded b w)
  with assms(1) assms(2) [of "s\<lparr>sy_world := w\<rparr>" b] show ?thesis
    by (auto simp: turned_away_def locked_out_def io_bind_def)
next
  case (overflow m)
  then show ?thesis unfolding turned_away_def
    by (intro exI [of _ "Err (Usage m)"] exI [of _ "sy_world s"]) (simp add: io_bind_def)
next
  case capacity
  then show ?thesis unfolding turned_away_def
    by (intro exI [of _ Panic] exI [of _ "sy_world s"]) (simp add: io_bind_def)
qed

lemma bind_locked_out: "locked_out m s \<Longrightarrow> locked_out (io_bind m f) s"
  by (simp add: locked_out_def io_bind_def)

lemma seq_locked_out: "locked_out m s \<Longrightarrow> locked_out (io_seq m n) s"
  unfolding io_seq_def by (rule bind_locked_out)

lemma sample_reachable:
  obtains t st where
    "reachable sample_bindings True (pod_u32 Little) (atomic_u32 sample_bindings Little) t"
    and "ready t st" and "init sample_bindings True sample_start = Some (Ok (), t)"
proof -
  obtain st t where i: "init sample_bindings True sample_start = Some (Ok (), t)" "ready t st"
    by (rule sample_init)
  have "reachable sample_bindings True (pod_u32 Little) (atomic_u32 sample_bindings Little) t"
    by (rule reachable.step [OF reachable.start [of _ _ _ _ sample_world0]])
      (rule api_step.intros(1) [OF i(1) [unfolded sample_start_def]])
  with i that show ?thesis by blast
qed

section \<open>Properties\<close>

text \<open>C5: In every state a process can reach, by any sequence of calls and whatever the rest of
  the world does, an installed state is well formed: the symmetric heap satisfies its allocator
  invariant, the job is not empty, and the two peer tables hold exactly one entry per rank, with
  equal non-null bases and rkeys of at least four bytes.\<close>

theorem reachable_states_are_well_formed:
  assumes "alloc_contract B" and "reachable B c T A s" and "sy_state s = Some st"
  shows "heap_inv (st_heap st) \<and> st_size st \<noteq> 0 \<and>
    tables_agree (st_peers st) (st_peer_rkeys st) {pe. pe < ucast (st_size st)}"
  using reachable_inv [OF assms(1,2)] assms(3) by (simp add: sys_inv_def state_inv_def)

theorem reachable_states_are_well_formed_witness:
  "\<exists>t st. init sample_bindings True sample_start = Some (Ok (), t) \<and> sy_state t = Some st \<and>
     heap_inv (st_heap st) \<and> tables_agree (st_peers st) (st_peer_rkeys st) {pe. pe < ucast (st_size st)}"
proof -
  obtain t st where "reachable sample_bindings True (pod_u32 Little) (atomic_u32 sample_bindings Little) t"
    and "init sample_bindings True sample_start = Some (Ok (), t)" and st: "sy_state t = Some st"
    by (rule sample_reachable) (simp add: ready_def)
  with reachable_states_are_well_formed [OF sample_alloc this(1) st] show ?thesis by blast
qed

text \<open>C21: Allocation and deallocation through the process-global state always return, never panic,
  never poison the lock and touch nothing but the heap, in every reachable state.\<close>

theorem allocation_calls_are_safe:
  assumes "alloc_contract B" and "reachable B c T A s"
  shows "(\<exists>r t. symheap_malloc sz s = Some (r, t) \<and> r \<noteq> Panic \<and>
      sy_poisoned t = sy_poisoned s \<and> sy_world t = sy_world s) \<and>
    (\<exists>r t. symheap_free p s = Some (r, t) \<and> r \<noteq> Panic \<and>
      sy_poisoned t = sy_poisoned s \<and> sy_world t = sy_world s)"
proof -
  note inv = reachable_inv [OF assms]
  have "\<exists>r t. with_state_mut f s = Some (r, t)" for f :: "shmem_state \<Rightarrow> 'e result \<times> shmem_state"
    by (rule with_state_mut_cases [of s f]) auto
  then obtain r t where m: "symheap_malloc sz s = Some (r, t)"
    unfolding symheap_malloc_def by blast
  obtain r' t' where f: "symheap_free p s = Some (r', t')"
    unfolding symheap_free_def
    by (rule with_state_mut_cases [of s "\<lambda>s. case heap_free (st_heap s) p of (r, h) \<Rightarrow> (r, s\<lparr>st_heap := h\<rparr>)"]) auto
  from symheap_malloc_step [OF inv m] symheap_free_step [OF inv f] m f show ?thesis by blast
qed

theorem allocation_calls_are_safe_witness:
  "\<exists>t r u. init sample_bindings True sample_start = Some (Ok (), t) \<and>
     symheap_malloc 10 t = Some (r, u) \<and> r \<noteq> Panic"
proof -
  obtain t st where r: "reachable sample_bindings True (pod_u32 Little) (atomic_u32 sample_bindings Little) t"
    and "init sample_bindings True sample_start = Some (Ok (), t)"
    by (rule sample_reachable)
  with allocation_calls_are_safe [OF sample_alloc r, of 10 "SymPtr 0"] show ?thesis by blast
qed

text \<open>C35: A poisoned lock is permanent: after any sequence of calls the lock is still poisoned and
  the state is the one the panic left. Every call that takes the lock first answers with the lock
  error and changes nothing at all; the typed transfers and the collectives, which look at their
  arguments before, answer with the lock error, refuse these arguments, or panic on a slice that is
  too large to encode, and reach no binding.
  (The operations of a request that was posted before the panic do not take the lock.)\<close>

theorem poisoning_is_permanent:
  assumes "(api_step B c T A)\<^sup>*\<^sup>* s t" and "sy_poisoned s" and "pod_codec T"
  shows "sy_poisoned t \<and> sy_state t = sy_state s \<and>
    locked_out (init B c) t \<and> locked_out (finalize B) t \<and> locked_out my_pe t \<and> locked_out n_pes t \<and>
    locked_out (symheap_malloc sz) t \<and> locked_out (symheap_free p) t \<and> locked_out symheap_heap_base t \<and>
    locked_out (putmem B pe bs off) t \<and> locked_out (getmem B pe off len) t \<and>
    turned_away (put_typed B T pe xs off) t \<and> turned_away (get_typed B T pe off len) t \<and>
    locked_out (fence B) t \<and> locked_out (quiet B) t \<and> locked_out (quiet_all B) t \<and> locked_out (quiet_pe B pe) t \<and>
    locked_out (atomic_op B A m pe off v) t \<and> locked_out (atomic_cswap B A pe off v v') t \<and>
    locked_out (atomic_fetch B A f pe off v) t \<and> locked_out (atomic_fcswap B A pe off v v') t \<and>
    locked_out (barrier B) t \<and> locked_out (barrier_nb B) t \<and>
    turned_away (broadcast B T root d n) t \<and> turned_away (broadcast_nb B T root d n) t \<and>
    turned_away (collect B T xs) t \<and> turned_away (collect_nb B T xs) t \<and>
    turned_away (reduce B T rop d n) t \<and> turned_away (reduce_nb B T rop d n) t"
proof -
  have t: "sy_poisoned t" "sy_state t = sy_state s" using api_steps_poisoned [OF assms(1,2)] by simp_all
  note out = with_lock_locked_out [OF t(1)] with_state_locked_out [OF t(1)]
  have put: "turned_away (put_typed B T pe xs off) t"
  proof (cases "pod_as_bytes T xs")
    case (Ok bs)
    then have "put_typed B T pe xs off t = putmem B pe bs off t" by (simp add: put_typed_def)
    then show ?thesis
      using locked_out_turned_away [OF out(2)] by (simp add: turned_away_def putmem_def)
  next
    case (Err e)
    then obtain m where "e = Usage m"
      using pod_codec.size_is_size_of [OF assms(3)] by (auto simp: pod_as_bytes_def outcome_bind_eq_Err)
    with Err show ?thesis unfolding turned_away_def
      by (intro exI [of _ "Err e"] exI [of _ "sy_world t"]) (simp add: put_typed_def io_err_def io_bind_def io_lift_def)
  next
    case Panic
    then show ?thesis unfolding turned_away_def
      by (intro exI [of _ Panic] exI [of _ "sy_world t"]) (simp add: put_typed_def io_bind_def io_lift_def)
  qed
  have get: "turned_away (get_typed B T pe off len) t"
  proof (cases "checked_mul len (pod_size T)")
    case None
    then have "get_typed B T pe off len = io_err (Usage ''typed RMA length overflow'')"
      by (simp add: get_typed_def io_bind_def io_lift_def io_err_def fun_eq_iff del: checked_mul_eq_None)
    then show ?thesis by (simp add: turned_away_usage)
  next
    case (Some n)
    then have "get_typed B T pe off len = io_bind (getmem B pe off n) (\<lambda>bs.
        io_lift (collect_results (map (pod_decode T) (chunks_exact (unat (pod_size T)) bs))))"
      by (simp add: get_typed_def io_bind_def io_lift_def fun_eq_iff del: checked_mul_eq_Some)
    then show ?thesis
      using out(2) by (auto simp: getmem_def intro!: locked_out_turned_away bind_locked_out)
  qed
  have colls: "turned_away (broadcast B T root d n) t" "turned_away (broadcast_nb B T root d n) t"
    "turned_away (collect B T xs) t" "turned_away (collect_nb B T xs) t"
    "turned_away (reduce B T rop d n) t" "turned_away (reduce_nb B T rop d n) t"
    unfolding broadcast_def broadcast_nb_def collect_def collect_nb_def reduce_def reduce_nb_def with_runtime_def
    by (auto intro!: turned_away_usage encode_then_turned_away t(1) seq_locked_out with_state_locked_out
        locked_out_turned_away [OF out(2)])
  show ?thesis
    unfolding init_def finalize_def my_pe_def n_pes_def symheap_malloc_def symheap_free_def symheap_heap_base_def
      with_state_mut_def putmem_def getmem_def fence_def quiet_all_def quiet_def quiet_pe_def atomic_op_def
      atomic_cswap_def atomic_fetch_def atomic_fcswap_def barrier_def barrier_nb_def with_runtime_def
    by (intro conjI t out put get colls)
qed

theorem poisoning_is_permanent_witness:
  "locked_out (init sample_bindings True) (sample_start\<lparr>sy_poisoned := True\<rparr>) \<and>
   turned_away (collect sample_bindings (pod_u32 Little) []) (sample_start\<lparr>sy_poisoned := True\<rparr>)"
  using poisoning_is_permanent [of sample_bindings True "pod_u32 Little"
      "atomic_u32 sample_bindings Little" "sample_start\<lparr>sy_poisoned := True\<rparr>"
      "sample_start\<lparr>sy_poisoned := True\<rparr>", OF _ _ u32.pod_codec_axioms] by simp

text \<open>Before initialisation every call is refused with \<open>NotInitialized\<close> and has no effect at
  all, on the process or on the bindings; finalisation succeeds and does nothing.\<close>

lemma calls_before_init_are_refused:
  assumes "\<not> sy_poisoned s" and "sy_state s = None"
  shows "my_pe s = Some (Err NotInitialized, s) \<and> n_pes s = Some (Err NotInitialized, s) \<and>
    symheap_malloc sz s = Some (Err NotInitialized, s) \<and>
    symheap_free p s = Some (Err NotInitialized, s) \<and>
    symheap_heap_base s = Some (Err NotInitialized, s) \<and>
    putmem B pe bs off s = Some (Err NotInitialized, s) \<and>
    getmem B pe off len s = Some (Err NotInitialized, s) \<and>
    fence B s = Some (Err NotInitialized, s) \<and> quiet B s = Some (Err NotInitialized, s) \<and>
    quiet_pe B pe s = Some (Err NotInitialized, s) \<and>
    atomic_op B A m pe off v s = Some (Err NotInitialized, s) \<and>
    atomic_cswap B A pe off v v' s = Some (Err NotInitialized, s) \<and>
    atomic_fetch B A f pe off v s = Some (Err NotInitialized, s) \<and>
    atomic_fcswap B A pe off v v' s = Some (Err NotInitialized, s) \<and>
    barrier B s = Some (Err NotInitialized, s) \<and> barrier_nb B s = Some (Err NotInitialized, s) \<and>
    finalize B s = Some (Ok (), s)"
proof -
  have s: "\<lparr>sy_poisoned = False, sy_state = None, sy_world = sy_world s\<rparr> = s"
    using assms by (cases s) simp
  show ?thesis
    using assms
    by (simp add: s symheap_heap_base_def putmem_def getmem_def fence_def quiet_def quiet_pe_def
        atomic_op_def atomic_cswap_def atomic_fetch_def atomic_fcswap_def barrier_def barrier_nb_def
        with_runtime_def with_state_empty my_pe_def n_pes_def symheap_malloc_def symheap_free_def
        with_state_mut_def with_lock_def finalize_def)
qed

lemma calls_before_init_are_refused_witness:
  "putmem sample_bindings 1 [1, 2] 8 sample_start = Some (Err NotInitialized, sample_start)"
  using calls_before_init_are_refused [of sample_start 0 "SymPtr 0" sample_bindings 1 "[1, 2]" 8 0
      "atomic_u32 sample_bindings Little" "av_add (atomic_u32 sample_bindings Little)" 0 0
      "av_fadd (atomic_u32 sample_bindings Little)"]
  by (simp add: sample_start_def)

text \<open>A second initialisation is refused without any effect.\<close>

lemma second_init_is_refused:
  assumes "\<not> sy_poisoned s" and "sy_state s \<noteq> None"
  shows "init B c s = Some (Err AlreadyInitialized, s)"
  using assms by (cases s) (auto simp: init_def with_lock_def)

lemma second_init_is_refused_witness:
  "init sample_bindings True sample_sys = Some (Err AlreadyInitialized, sample_sys)"
  by (rule second_init_is_refused) (simp_all add: sample_sys_def)

text \<open>C19: What initialisation leaves behind: on success a well-formed state, with a collectives
  runtime exactly when the feature is on; on an error no state and a usable lock, so that the
  process can try again. No other outcome is possible except a panic.\<close>

theorem init_outcomes:
  assumes "alloc_contract B" and "\<not> sy_poisoned s" and "sy_state s = None"
    and "init B c s = Some (r, t)"
  shows "case r of
      Ok _ \<Rightarrow> \<exists>st. sy_state t = Some st \<and> \<not> sy_poisoned t \<and> heap_inv (st_heap st) \<and>
        tables_agree (st_peers st) (st_peer_rkeys st) {pe. pe < ucast (st_size st)} \<and>
        (st_collectives st \<noteq> None \<longleftrightarrow> c)
    | Err e \<Rightarrow> sy_state t = None \<and> \<not> sy_poisoned t
    | Panic \<Rightarrow> sy_state t = None \<and> sy_poisoned t"
  using assms(4)
proof (cases rule: init_cases)
  case (success st w st')
  have "state_inv st'" by (rule init_success_inv [OF assms(1) success(4,6)])
  moreover have "st_collectives st = None"
    using yieldsD [OF init_state_yields [OF assms(1)] success(4)] by simp
  with success(6) have "st_collectives st' \<noteq> None \<longleftrightarrow> c"
    by (cases rule: install_cases) auto
  ultimately show ?thesis using success(3,5) by (simp add: ready_def state_inv_def)
qed (use assms(2,3) in \<open>simp_all add: ready_def\<close>)

theorem init_outcomes_witness:
  "\<exists>t st. init sample_bindings True sample_start = Some (Ok (), t) \<and> sy_state t = Some st \<and>
     heap_inv (st_heap st) \<and> st_collectives st \<noteq> None"
proof -
  obtain st t where i: "init sample_bindings True sample_start = Some (Ok (), t)"
    by (rule sample_init)
  have "\<not> sy_poisoned sample_start" "sy_state sample_start = None" by (simp_all add: sample_start_def)
  from init_outcomes [OF sample_alloc this i] i show ?thesis by auto
qed

text \<open>C20: Finalisation always ends the session: whatever the disconnection returns, the state is
  gone, the lock is usable, everything the process held is released after the disconnection, and
  a second finalisation is a no-op.\<close>

theorem finalize_ends_the_session:
  assumes "\<not> sy_poisoned s" and "sy_state s = Some st"
  shows "\<exists>r t. finalize B s = Some (r, t) \<and> r \<noteq> Panic \<and> sy_state t = None \<and> \<not> sy_poisoned t \<and>
    sy_world t = release_all B (drop_state st)
      (snd (pmix_disconnect (pmix B) (st_client st) (sy_world s))) \<and>
    finalize B t = Some (Ok (), t)"
proof -
  obtain r t where f: "finalize B s = Some (r, t)"
    by (rule that [of "fst (the (finalize B s))" "snd (the (finalize B s))"])
      (use assms in \<open>simp add: finalize_def with_lock_def split: prod.split sum.split\<close>)
  from f show ?thesis
  proof (cases rule: finalize_cases)
    case (finished st')
    then have "st' = st" using assms by (simp add: ready_def)
    moreover have "finalize B t = Some (Ok (), t)"
      using finished(2,3) by (cases t) (simp add: finalize_def with_lock_def)
    ultimately show ?thesis using f finished by blast
  qed (use assms in \<open>simp_all add: ready_def\<close>)
qed

theorem finalize_ends_the_session_witness:
  "\<exists>r t. finalize sample_bindings sample_sys = Some (r, t) \<and> sy_state t = None \<and>
     finalize sample_bindings t = Some (Ok (), t)"
  using finalize_ends_the_session [of sample_sys sample_state sample_bindings]
  by (auto simp: sample_sys_def)

text \<open>C22: Destruction order: the destructors of a state release exactly what it owns, nothing is
  released before something that needs it (endpoints and rkeys before worker and context, the
  registration before the context and the memory it covers, the team before its context, library
  and callback state), and every peer's endpoint is closed right before its rkey is destroyed, the
  order of the fields of \<open>PeerConnection\<close>.\<close>

theorem drop_order_respects_ownership:
  "set (drop_state st) = owned st \<and> sorted_wrt (\<lambda>earlier later. \<not> needs later earlier) (drop_state st) \<and>
   (\<forall>c \<in> set (btree_values (st_peers st)). \<exists>before after.
      drop_state st = before @ [R_Endpoint (pc_endpoint c), R_Rkey (pc_rkey c)] @ after)"
proof (intro conjI ballI)
  note drops = drop_state_def drop_heap_def drop_transport_def drop_runtime_def
  show "set (drop_state st) = owned st"
    by (auto simp: drops owned_def drop_peers_def drop_peer_def split: option.splits)
  have "sorted_wrt (\<lambda>earlier later. \<not> needs later earlier) (drop_peers (st_peers st))"
    by (rule sorted_wrt_unrelated) (auto dest!: drop_peers_cases)
  then show "sorted_wrt (\<lambda>earlier later. \<not> needs later earlier) (drop_state st)"
    by (auto simp: drops sorted_wrt_append dest!: drop_peers_cases split: option.splits)
  fix c assume "c \<in> set (btree_values (st_peers st))"
  then obtain xs ys where "btree_values (st_peers st) = xs @ c # ys" by (auto dest: split_list)
  then have "drop_state st = concat (map drop_peer xs) @ [R_Endpoint (pc_endpoint c), R_Rkey (pc_rkey c)] @
      concat (map drop_peer ys) @ drop (length (drop_peers (st_peers st))) (drop_state st)"
    by (simp add: drop_state_def drop_peers_def drop_peer_def)
  then show "\<exists>before after. drop_state st = before @ [R_Endpoint (pc_endpoint c), R_Rkey (pc_rkey c)] @ after"
    by blast
qed

theorem drop_order_respects_ownership_witness:
  "\<exists>before after. drop_state sample_state = before @ [R_Endpoint 22, R_Rkey 23] @ after"
proof -
  have "sample_peer 22 \<in> set (btree_values (st_peers sample_state))" by (simp add: sample_state_def btree_values_def)
  with drop_order_respects_ownership [of sample_state] show ?thesis by (force simp: sample_peer_def)
qed

text \<open>C17: Whom the handshake connects: with a store that returns what the peers published, exactly
  the ranks below the job size have a connection, with the heap base that rank published, when the
  size fits into 32 bits. A larger size is truncated to 32 bits: the connected ranks are those below
  the remainder, and some rank of the job is left without a connection although the handshake
  succeeded.\<close>

theorem handshake_connects_every_rank:
  assumes "base_published B client base" and "handshake B client t h sz w = Some (Ok b, w')"
  shows "((\<exists>c. btree_get (bs_peers b) pe = Some c \<and> pc_heap_base c = base pe) \<longleftrightarrow> unat pe < unat sz mod 2 ^ 32) \<and>
    (unat sz < 2 ^ 32 \<longrightarrow>
       ((\<exists>c. btree_get (bs_peers b) pe = Some c \<and> pc_heap_base c = base pe) \<longleftrightarrow> unat pe < unat sz)) \<and>
    (2 ^ 32 \<le> unat sz \<longrightarrow> (\<exists>q. unat q < unat sz \<and> btree_get (bs_peers b) q = None))"
proof -
  have agree: "btree_get (bs_peers b) q \<noteq> None \<longleftrightarrow> q < ucast sz" for q
    using tables_agree_get(1) [OF handshake_agree(1) [OF assms(2)], of q] by simp
  have word: "q < ucast sz \<longleftrightarrow> unat q < unat sz mod 2 ^ 32" for q :: u32
    by (simp add: word_less_nat_alt unsigned_ucast_eq take_bit_eq_mod)
  have connected: "(\<exists>c. btree_get (bs_peers b) pe = Some c \<and> pc_heap_base c = base pe) \<longleftrightarrow> unat pe < unat sz mod 2 ^ 32"
    using agree [of pe] handshake_published [OF assms] unfolding word by auto
  have "\<exists>q. unat q < unat sz \<and> btree_get (bs_peers b) q = None" if "2 ^ 32 \<le> unat sz"
  proof (intro exI conjI)
    show "btree_get (bs_peers b) (- 1) = None"
      using agree [of "- 1"] by auto
    have "unat (- 1 :: u32) < 2 ^ 32" using unsigned_less [of "- 1 :: u32", where ?'a = nat] by simp
    with that show "unat (- 1 :: u32) < unat sz" by linarith
  qed
  with connected show ?thesis by simp
qed

theorem handshake_connects_every_rank_witness:
  "\<exists>b w1 c. handshake sample_bindings 10 (st_transport sample_state) (sample_heap 4096) 2 sample_world0 =
      Some (Ok b, w1) \<and> btree_get (bs_peers b) 1 = Some c \<and> pc_heap_base c = 4096"
proof -
  obtain b w1 where h: "handshake sample_bindings 10 (st_transport sample_state) (sample_heap 4096) 2
      sample_world0 = Some (Ok b, w1)"
  proof (rule sample_handshake)
    show "tr_packed_address (st_transport sample_state) = [1, 2, 3]" by (simp add: sample_state_def)
    show "sh_packed_rkey (sample_heap 4096) = [1, 2, 3, 4]" by (simp add: sample_heap_def)
  qed
  from handshake_connects_every_rank [OF sample_published h, of 1] h show ?thesis by auto
qed

text \<open>Except for oversized buffers no call of the API can panic, whatever the state, the
  arguments and the bindings.\<close>

lemma calls_never_panic:
  "no_panic (putmem B pe bs off) \<and> no_panic (fence B) \<and> no_panic (quiet B) \<and>
   no_panic (quiet_pe B pe) \<and> no_panic (atomic_op B A m pe off v) \<and>
   no_panic (atomic_cswap B A pe off v v') \<and> no_panic (atomic_fetch B A f pe off v) \<and>
   no_panic (atomic_fcswap B A pe off v v') \<and> no_panic (barrier B) \<and> no_panic (barrier_nb B) \<and>
   no_panic (finalize B)"
proof (intro conjI)
  show "no_panic (finalize B)"
    by (auto simp: no_panic_def elim!: finalize_cases simp: lock_error_def)
qed (auto simp: putmem_def fence_def quiet_def quiet_pe_def atomic_op_def atomic_cswap_def
      atomic_fetch_def atomic_fcswap_def barrier_def barrier_nb_def with_runtime_def
      transport_fence_def coll_start_def coll_wait_def coll_wait_body_def with_worker_def map_ucc_def
    intro!: with_state_no_panic no_panic_intros split: prod.splits sum.splits if_splits)

end
