(* ===== verification/Rma_Properties.thy ===== *)
theory Rma_Properties
  imports Sample
begin

text \<open>
  The properties of remote memory access: the address check, the round trip of typed data, the
  completion calls, the waiting loops and the scalars.
\<close>

section \<open>Lemmas\<close>

lemma with_state_error:
  assumes "ready s st" and "f st = io_err e"
  shows "with_state f s = Some (Err e, s)"
  using assms by (cases s) (simp add: ready_def with_state_run io_err_def)

lemma sample_codec: "pod_codec (pod_u32 Little)"
  by (rule u32.pod_codec_axioms)

lemma sample_transport_state: "tr_worker (st_transport sample_state) = 11"
  by (simp add: sample_state_def)

lemma poll_answer_final: "poll_answer body n s \<noteq> Ok None \<longleftrightarrow> poll_result (poll_answer body n s) \<noteq> None"
  by (cases "poll_answer body n s" rule: poll_result.cases) simp_all

lemma poll_loop_returns_iff:
  "poll_loop body s \<noteq> None \<longleftrightarrow> (\<exists>n. poll_answer body n s \<noteq> Ok None)"
proof
  assume "poll_loop body s \<noteq> None"
  then show "\<exists>n. poll_answer body n s \<noteq> Ok None"
    using poll_loop_diverges [of body s] by (rule contrapos_np) simp
next
  let ?P = "\<lambda>n. poll_answer body n s \<noteq> Ok None"
  assume "\<exists>n. ?P n"
  then have "?P (LEAST n. ?P n)" by (rule LeastI_ex)
  then have "poll_result (poll_answer body (LEAST n. ?P n) s) \<noteq> None"
    by (rule iffD1 [OF poll_answer_final])
  then obtain r where "poll_result (poll_answer body (LEAST n. ?P n) s) = Some r"
    unfolding not_None_eq by blast
  moreover have "\<forall>i < (LEAST n. ?P n). poll_answer body i s = Ok None"
    by (intro allI impI) (drule not_less_Least, simp)
  ultimately have "poll_loop body s = Some (r, poll_state body (Suc (LEAST n. ?P n)) s)"
    by (intro poll_loop_finishes)
  then show "poll_loop body s \<noteq> None" by simp
qed

section \<open>Properties\<close>

text \<open>C29: The address check accepts exactly the requests whose PE fits in 32 bits and is in the job,
  whose address does not overflow and whose offset plus length does not overflow; the address it
  returns is the peer's heap base plus the offset; and it never panics.\<close>

theorem address_check_is_exact:
  "(peer_and_address s pe off len = Ok (peer, address) \<longleftrightarrow>
      unat pe < 2 ^ 32 \<and> btree_get (st_peers s) (ucast pe) = Some peer \<and>
      unat address = unat (pc_heap_base peer) + unat off \<and> unat off + unat len < 2 ^ 64) \<and>
   peer_and_address s pe off len \<noteq> Panic"
  by (simp add: peer_and_address_eq_Ok)

text \<open>What passes the check is not bounded by the peer's heap: for a peer in the job, any offset
  and length below the end of the address space are accepted, however small the heap.\<close>

lemma address_check_ignores_the_heap_size:
  assumes "btree_get (st_peers s) pe = Some peer"
    and "unat (pc_heap_base peer) + unat off < 2 ^ 64" and "unat off + unat len < 2 ^ 64"
  shows "peer_and_address s (ucast pe) off len = Ok (peer, pc_heap_base peer + off)"
proof -
  have "unat pe < 2 ^ 32" using unsigned_less [of pe, where ?'a = nat] by simp
  moreover from this have "unat (ucast pe :: usize) = unat pe"
    by (simp add: unsigned_ucast_eq take_bit_nat_eq_self)
  moreover have "ucast (ucast pe :: usize) = pe"
    by (rule bit_word_eqI) (auto simp: bit_simps)
  ultimately show ?thesis
    using assms by (simp add: peer_and_address_eq_Ok unat_word_ariths)
qed

lemma address_check_ignores_the_heap_size_witness:
  "peer_and_address sample_state 1 0x1000000000 64 = Ok (sample_peer 22, 0x1000010000)"
  using address_check_ignores_the_heap_size [OF sample_table, of "0x1000000000" 64]
  by (simp add: sample_peer_def)

text \<open>A request the check refuses has no effect: put, get and the atomics return its error and
  leave the process and the bindings as they were.\<close>

lemma refused_requests_have_no_effect:
  assumes "\<not> sy_poisoned s" and "sy_state s = Some st"
  shows "(peer_and_address st pe off (of_nat (length bs)) = Err e \<longrightarrow>
      putmem B pe bs off s = Some (Err e, s)) \<and>
    (peer_and_address st pe off len = Err e \<longrightarrow> getmem B pe off len s = Some (Err e, s)) \<and>
    (peer_and_address st pe off (av_size A) = Err e \<longrightarrow>
      atomic_op B A m pe off v s = Some (Err e, s) \<and> atomic_fetch B A f pe off v s = Some (Err e, s) \<and>
      atomic_cswap B A pe off v v' s = Some (Err e, s) \<and>
      atomic_fcswap B A pe off v v' s = Some (Err e, s))"
proof -
  have "ready s st" using assms by (simp add: ready_def)
  note refuse = with_state_error [OF this]
  show ?thesis
    by (auto simp: putmem_def getmem_def atomic_op_def atomic_fetch_def atomic_cswap_def
        atomic_fcswap_def intro!: refuse)
qed

lemma refused_requests_have_no_effect_witness:
  "putmem sample_bindings 5 [1] 0 sample_sys = Some (Err (Usage ''PE number is not in the job''), sample_sys)"
proof -
  have "peer_and_address sample_state 5 0 (of_nat (length [1 :: u8])) =
      Err (Usage ''PE number is not in the job'')"
    by (simp add: peer_and_address_def u32_try_from_def sample_state_def btree_get_def)
  then show ?thesis
    by (rule refused_requests_have_no_effect [THEN conjunct1, THEN mp, rotated -1])
      (simp_all add: sample_sys_def)
qed

text \<open>C6: Typed data survives the round trip: under the documented memory contract of UCX (a flush
  makes a put visible, a get returns what is visible, every request settles), put, then quiet,
  then get from the same PE and offset all return, and the values read are the values written, for
  every scalar type and every slice that fits.\<close>

theorem put_quiet_get_roundtrip:
  assumes "pod_codec T" and "\<not> sy_poisoned s" and "sy_state s = Some st"
    and "ucx_memory B (tr_worker (st_transport st)) issued visible"
    and "unat pe < 2 ^ 32" and "btree_get (st_peers st) (ucast pe) = Some peer"
    and "unat (pod_size T) * length xs \<le> isize_max"
    and "unat (pc_heap_base peer) + unat off + unat (pod_size T) * length xs < 2 ^ 64"
  shows "\<exists>s1 s2 s3. put_typed B T pe xs off s = Some (Ok (), s1) \<and> quiet B s1 = Some (Ok (), s2) \<and>
    get_typed B T pe off (of_nat (length xs)) s2 = Some (Ok xs, s3)"
  using assms by (intro put_quiet_get) (simp_all add: ready_def)

theorem put_quiet_get_roundtrip_witness:
  "\<exists>s1 s2 s3. put_typed sample_bindings (pod_u32 Little) 1 [10, 0xdeadbeef] 16 sample_sys = Some (Ok (), s1) \<and>
    quiet sample_bindings s1 = Some (Ok (), s2) \<and>
    get_typed sample_bindings (pod_u32 Little) 1 16 2 s2 = Some (Ok [10, 0xdeadbeef], s3)"
  using put_quiet_get_roundtrip [OF sample_codec, of sample_sys sample_state sample_bindings
      se_issued se_visible 1 "sample_peer 22" "[10, 0xdeadbeef]" 16]
  by (simp add: sample_sys_def sample_memory sample_table sample_peer_def pod_u32_def pod_impl_def isize_max_def)

text \<open>C31: \<open>quiet\<close> is the sequence of \<open>quiet_pe\<close> over all ranks of the job in ascending order,
  stopping at the first failure, under one lock instead of many: same outcome, same final state.\<close>

theorem quiet_is_quiet_pe_for_every_rank:
  assumes "\<not> sy_poisoned s" and "sy_state s = Some st" and "btree_wf (st_peers st)"
  shows "quiet B s = run_all (map (\<lambda>(k, p). quiet_pe B (ucast k)) (st_peers st)) s \<and>
    sorted_wrt (<) (map fst (st_peers st))"
  using assms quiet_each [of s st B] btree.entries_ascending [OF assms(3)] by (simp add: ready_def)

theorem quiet_is_quiet_pe_for_every_rank_witness:
  "quiet sample_bindings sample_sys =
     run_all [quiet_pe sample_bindings 0, quiet_pe sample_bindings 1] sample_sys"
  using quiet_is_quiet_pe_for_every_rank [of sample_sys sample_state sample_bindings]
  by (simp add: sample_sys_def sample_state_def btree_wf_def)

text \<open>The binding's wait, called again and again: its answer and the world in round \<open>n\<close>.\<close>

definition wait_world :: "'x bindings \<Rightarrow> ucx_transport \<Rightarrow> handle \<Rightarrow> nat \<Rightarrow> 'x world \<Rightarrow> 'x world" where
  "wait_world B t r n w = ((\<lambda>w. snd (worker_wait_request (ucx B) (tr_worker t) r w)) ^^ n) w"

definition wait_answer :: "'x bindings \<Rightarrow> ucx_transport \<Rightarrow> handle \<Rightarrow> nat \<Rightarrow> 'x world \<Rightarrow> ucx_status + bool" where
  "wait_answer B t r n w = fst (worker_wait_request (ucx B) (tr_worker t) r (wait_world B t r n w))"

lemma wait_rounds:
  "poll_state (wait_request_body B t r) n w = wait_world B t r n w"
  "poll_answer (wait_request_body B t r) n w = (case wait_answer B t r n w of
     Inl s \<Rightarrow> Err (ucx_error B s) | Inr finished \<Rightarrow> Ok (if finished then Some () else None))"
proof -
  have "snd (wait_request_body B t r v) = snd (worker_wait_request (ucx B) (tr_worker t) r v)" for v
    by (simp add: wait_request_body_def split: prod.split sum.split bool.split)
  then show state: "poll_state (wait_request_body B t r) n w = wait_world B t r n w"
    by (simp add: poll_state_def wait_world_def)
  show "poll_answer (wait_request_body B t r) n w = (case wait_answer B t r n w of
      Inl s \<Rightarrow> Err (ucx_error B s) | Inr finished \<Rightarrow> Ok (if finished then Some () else None))"
    unfolding poll_answer_def state wait_answer_def
    by (auto simp: wait_request_body_def split: prod.split sum.split bool.split)
qed

text \<open>C36: What waiting for a request comes to, in terms of the bounded wait of the binding, which
  answers false when its budget is used up: if some round answers true and all earlier ones false,
  \<open>wait_request\<close> returns success in the world after that round; if some round fails and all earlier
  ones answer false, it returns that failure; and if every round answers false it never returns.
  There is no fourth case.\<close>

theorem wait_request_returns_iff_a_round_ends:
  "((\<forall>i < n. wait_answer B t r i w = Inr False) \<and> wait_answer B t r n w = Inr True \<longrightarrow>
      wait_request B t r w = Some (Ok (), wait_world B t r (Suc n) w)) \<and>
   ((\<forall>i < n. wait_answer B t r i w = Inr False) \<and> wait_answer B t r n w = Inl x \<longrightarrow>
      wait_request B t r w = Some (Err (ucx_error B x), wait_world B t r (Suc n) w)) \<and>
   ((\<forall>i. wait_answer B t r i w = Inr False) \<longleftrightarrow> wait_request B t r w = None)"
proof (intro conjI impI)
  note rounds = wait_rounds [of B t r, symmetric]
  assume a: "(\<forall>i < n. wait_answer B t r i w = Inr False) \<and> wait_answer B t r n w = Inr True"
  show "wait_request B t r w = Some (Ok (), wait_world B t r (Suc n) w)"
    unfolding wait_request_def rounds(1)
    by (rule poll_loop_finishes) (use a in \<open>auto simp: wait_rounds(2)\<close>)
next
  note rounds = wait_rounds [of B t r, symmetric]
  assume a: "(\<forall>i < n. wait_answer B t r i w = Inr False) \<and> wait_answer B t r n w = Inl x"
  show "wait_request B t r w = Some (Err (ucx_error B x), wait_world B t r (Suc n) w)"
    unfolding wait_request_def rounds(1)
    by (rule poll_loop_finishes) (use a in \<open>auto simp: wait_rounds(2)\<close>)
next
  have "wait_answer B t r i w = Inr False \<longleftrightarrow> poll_answer (wait_request_body B t r) i w = Ok None" for i
    unfolding wait_rounds(2) by (auto split: sum.split)
  then show "(\<forall>i. wait_answer B t r i w = Inr False) \<longleftrightarrow> wait_request B t r w = None"
    unfolding wait_request_def using poll_loop_returns_iff [of "wait_request_body B t r" w] by metis
qed

text \<open>The third wait of the sample succeeds.\<close>

theorem wait_request_returns_iff_a_round_ends_witness:
  "wait_request sample_bindings (st_transport sample_state) 1 (sample_world0\<lparr>w_ext := sample_ext0\<lparr>se_wait := 2\<rparr>\<rparr>) =
     Some (Ok (), sample_world0)"
proof -
  let ?w = "sample_world0\<lparr>w_ext := sample_ext0\<lparr>se_wait := 2\<rparr>\<rparr>" and ?t = "st_transport sample_state"
  have worlds: "wait_world sample_bindings ?t 1 n ?w = sample_world0\<lparr>w_ext := sample_ext0\<lparr>se_wait := 2 - n\<rparr>\<rparr>" for n
    by (induction n) (simp_all add: wait_world_def s_wait_def on_ext_def)
  have "wait_answer sample_bindings ?t 1 n ?w = Inr (2 \<le> n)" for n
    unfolding wait_answer_def worlds by (simp add: s_wait_def on_ext_def)
  then have "wait_request sample_bindings ?t 1 ?w = Some (Ok (), wait_world sample_bindings ?t 1 (Suc 2) ?w)"
    using wait_request_returns_iff_a_round_ends [of 2 sample_bindings ?t 1 ?w] by simp
  moreover have "sample_ext0\<lparr>se_wait := 0\<rparr> = sample_ext0" by (simp add: sample_ext0_def)
  ultimately show ?thesis unfolding worlds by (simp add: sample_world0_def)
qed

text \<open>Empty transfers stay local: no call of the network, the same checks.\<close>

lemma empty_transfers_are_local:
  assumes "\<not> sy_poisoned s" and "sy_state s = Some st" and "peer_and_address st pe off 0 = Ok pa"
  shows "putmem B pe [] off s = Some (Ok (), s) \<and>
    (\<exists>w. getmem B pe off 0 s = Some (Ok [], s\<lparr>sy_world := w\<rparr>) \<and> w_ext w = w_ext (sy_world s))"
proof
  have r: "ready s st" using assms by (simp add: ready_def)
  obtain p a where pa: "pa = (p, a)" by (cases pa)
  have "putmem B pe [] off s = Some (Ok (), s\<lparr>sy_world := sy_world s\<rparr>)"
    unfolding putmem_def using assms(3) pa
    by (intro with_state_readyD [OF r]) (simp_all add: io_return_def)
  then show "putmem B pe [] off s = Some (Ok (), s)" by simp
  let ?w = "snd (buf_new [] (sy_world s))"
  have "getmem B pe off 0 s = Some (Ok [], s\<lparr>sy_world := ?w\<rparr>)"
    unfolding getmem_def using assms(3) pa
    by (intro with_state_readyD [OF r])
      (simp_all add: io_bind_def io_return_def vec_zeroed_u8_def buf_new_def io_step_def buf_get_def)
  then show "\<exists>w. getmem B pe off 0 s = Some (Ok [], s\<lparr>sy_world := w\<rparr>) \<and> w_ext w = w_ext (sy_world s)"
    by (intro exI [of _ ?w]) (simp add: buf_new_def)
qed

lemma empty_transfers_are_local_witness:
  "putmem sample_bindings 1 [] 16 sample_sys = Some (Ok (), sample_sys)"
  using empty_transfers_are_local [of sample_sys sample_state 1 16 "(sample_peer 22, 65552)" sample_bindings]
  by (simp add: sample_sys_def peer_and_address_eq_Ok sample_table sample_peer_def)

text \<open>C38: A get longer than the largest Rust allocation passes every check of the crate and then
  panics under the lifecycle lock, which poisons it.\<close>

theorem oversized_get_poisons_the_process:
  assumes "\<not> sy_poisoned s" and "sy_state s = Some st"
    and "peer_and_address st pe off len = Ok pa" and "isize_max < unat len"
  shows "getmem B pe off len s = Some (Panic, s\<lparr>sy_poisoned := True\<rparr>)"
proof -
  obtain p a where "pa = (p, a)" by (cases pa)
  with assms show ?thesis
    by (cases s) (simp add: getmem_def with_state_run io_bind_def vec_zeroed_u8_def io_return_def)
qed

theorem oversized_get_poisons_the_process_witness:
  "getmem sample_bindings 1 0 0x8000000000000000 sample_sys =
     Some (Panic, sample_sys\<lparr>sy_poisoned := True\<rparr>)"
  using oversized_get_poisons_the_process [of sample_sys sample_state 1 0 "0x8000000000000000"
      "(sample_peer 22, 65536)" sample_bindings]
  by (simp add: sample_sys_def peer_and_address_eq_Ok sample_table sample_peer_def isize_max_def)

text \<open>C34: The zero-copy view that \<open>put\<close> sends is the encoding that the collectives send, and
  decoding it element by element gives the values back, for every scalar and every slice.\<close>

theorem zero_copy_view_is_the_encoding:
  assumes "pod_codec T" and "unat (pod_size T) * length xs \<le> isize_max"
  shows "pod_as_bytes T xs = encode T xs \<and>
    outcome_bind (encode T xs) (\<lambda>bs.
      collect_results (map (pod_decode T) (chunks_exact (unat (pod_size T)) bs))) = Ok xs"
  by (simp add: pod_codec.pod_as_bytes_Ok [OF assms] encode_Ok [OF assms]
      pod_codec.decode_chunks_slice [OF assms(1)])

theorem zero_copy_view_is_the_encoding_witness:
  "pod_as_bytes (pod_u32 Little) [1, 2] = encode (pod_u32 Little) [1, 2]"
  using zero_copy_view_is_the_encoding [OF sample_codec, of "[1, 2]"]
  by (simp add: pod_u32_def pod_impl_def isize_max_def)

end
