(* ===== verification/Coll_Properties.thy ===== *)
theory Coll_Properties
  imports Sample
begin

text \<open>
  The properties of the collectives: a blocking call is its non-blocking form followed by
  \<open>wait\<close> (and \<open>result\<close>), and \<open>collect\<close> gathers in rank order. Requests and the out-of-band
  allgather have theories of their own.
\<close>

section \<open>Blocking and non-blocking forms\<close>

lemma io_bind_if: "io_bind (if c then m else n) f = (if c then io_bind m f else io_bind n f)"
  by simp

lemma nb_then_wait_bind:
  "nb_then_wait B (io_bind m f) = io_bind m (\<lambda>a. nb_then_wait B (f a))"
  unfolding nb_then_wait_def by (rule io_bind_assoc)

lemma broadcast_split:
  "n \<noteq> 0 \<Longrightarrow> broadcast B T root d n = io_bind (encode_slice T d n) (\<lambda>buf. io_seq
     (with_runtime (\<lambda>rt. io_bind (io_bind (team_size B rt) (\<lambda>sz.
        if sz \<le> root then io_err (Usage ''broadcast root is outside the UCC team'')
        else coll_start B rt (broadcast_args T buf n root))) (coll_wait B (rt_context rt))))
     (decode_slice T buf d n))"
  "n \<noteq> 0 \<Longrightarrow> broadcast_nb B T root d n = io_bind (encode_slice T d n) (\<lambda>buf.
     with_runtime (\<lambda>rt. io_bind (io_bind (team_size B rt) (\<lambda>sz.
        if sz \<le> root then io_err (Usage ''broadcast root is outside the UCC team'')
        else coll_start B rt (broadcast_args T buf n root))) (\<lambda>coll.
      io_return (request_new (rt_context rt) coll [buf] (Some (typed_destination T d n)) None))))"
  by (simp_all add: broadcast_def broadcast_nb_def io_bind_assoc io_bind_if cong: if_cong)

lemma broadcast_forms:
  assumes "ucc_codes B" and "coll_drop_local B"
  shows "broadcast B T root d n s = Some (Ok (), t) \<longleftrightarrow>
    (\<exists>q. nb_then_wait B (broadcast_nb B T root d n) s = Some (Ok q, t))"
proof (cases "n = 0")
  case True
  then show ?thesis by (simp add: broadcast_def broadcast_nb_def nb_then_wait_def io_err_not_Ok)
next
  case False
  show ?thesis
    unfolding broadcast_split [OF False] nb_then_wait_bind io_bind_eq_Ok
      blocking_in_place [OF assms] by blast
qed

lemma reduce_forms:
  assumes "ucc_codes B" and "coll_drop_local B" and n: "n \<noteq> 0"
  shows "reduce B T rop d n s = Some (Ok (), t) \<longleftrightarrow>
    (\<exists>q. nb_then_wait B (reduce_nb B T rop d n) s = Some (Ok q, t))"
proof (cases "pod_reduction_supported T rop")
  case False
  then show ?thesis by (simp add: reduce_def reduce_nb_def nb_then_wait_def io_err_not_Ok)
next
  case True
  with n show ?thesis
    by (simp add: reduce_def reduce_nb_def nb_then_wait_bind)
      (unfold io_bind_eq_Ok blocking_in_place [OF assms(1,2)], blast)
qed

text \<open>A request without a destination has nothing to copy back.\<close>

lemma request_copy_back_none:
  "cr_destination q = None \<Longrightarrow> request_copy_back q w = (Ok True, w)"
  by (simp add: request_copy_back_def)

lemma wait_without_destination:
  assumes "ucc_codes B"
  shows "request_wait B (request_new ctx coll bufs None ri, w) = Some (Ok (), (q', t)) \<longleftrightarrow>
    q' = request_new ctx coll bufs None ri\<lparr>cr_op := None\<rparr> \<and>
    (\<exists>w2. coll_completes B ctx coll w w2 \<and> t = release B (R_Coll coll) w2)"
proof -
  let ?q = "request_new ctx coll bufs None ri"
  have op: "cr_op ?q = Some coll" and ctx: "cr_context ?q = ctx"
    by (simp_all add: request_new_def)
  have copy: "request_copy_back (?q\<lparr>cr_op := None\<rparr>) w2 = (Ok True, w3) \<longleftrightarrow> w3 = w2" for w2 w3
    by (auto simp: request_copy_back_def request_new_def)
  show ?thesis unfolding request_wait_iff [OF assms op] ctx copy by blast
qed

text \<open>An operation posted under the lock, waited for there or outside it.\<close>

lemma blocking_without_destination:
  assumes "ucc_codes B"
  shows "with_runtime (\<lambda>rt. io_bind (start rt) (\<lambda>p. io_seq (coll_wait B (rt_context rt) (snd p)) (fin p))) s =
      Some (Ok y, t) \<longleftrightarrow>
    (\<exists>st rt p w1 w2 w3. ready s st \<and> st_collectives st = Some rt \<and>
       start rt (sy_world s) = Some (Ok p, w1) \<and> coll_completes B (rt_context rt) (snd p) w1 w2 \<and>
       fin p (release B (R_Coll (snd p)) w2) = Some (Ok y, w3) \<and> t = s\<lparr>sy_world := w3\<rparr>)"
  unfolding with_runtime_Ok io_bind_eq_Ok io_seq_eq_Ok coll_wait_iff [OF assms] by blast

lemma nonblocking_without_destination:
  assumes "ucc_codes B"
  shows "nb_then_wait B (with_runtime (\<lambda>rt. io_bind (start rt)
       (\<lambda>p. io_return (request_new (rt_context rt) (snd p) (bufs p) None ri)))) s = Some (Ok q, t) \<longleftrightarrow>
    (\<exists>st rt p w1 w2. ready s st \<and> st_collectives st = Some rt \<and>
       start rt (sy_world s) = Some (Ok p, w1) \<and> coll_completes B (rt_context rt) (snd p) w1 w2 \<and>
       q = request_new (rt_context rt) (snd p) (bufs p) None ri\<lparr>cr_op := None\<rparr> \<and>
       t = s\<lparr>sy_world := release B (R_Coll (snd p)) w2\<rparr>)"
    (is "?L \<longleftrightarrow> ?R")
proof
  assume ?L
  then obtain st rt p w1 w where "ready s st" "st_collectives st = Some rt" "start rt (sy_world s) = Some (Ok p, w1)"
    and "request_wait B (request_new (rt_context rt) (snd p) (bufs p) None ri, w1) = Some (Ok (), (q, w))"
    and "t = s\<lparr>sy_world := w\<rparr>"
    unfolding nb_then_wait_Ok with_runtime_Ok io_bind_eq_Ok io_return_eq_Ok
    by (auto simp: sy_world_twice)
  then show ?R unfolding wait_without_destination [OF assms] by blast
next
  assume ?R
  then obtain st rt p w1 w where 1: "ready s st" "st_collectives st = Some rt" "start rt (sy_world s) = Some (Ok p, w1)"
    and 2: "request_wait B (request_new (rt_context rt) (snd p) (bufs p) None ri, w1) = Some (Ok (), (q, w))"
    and 3: "t = s\<lparr>sy_world := w\<rparr>"
    unfolding wait_without_destination [OF assms] by blast
  have "with_runtime (\<lambda>rt. io_bind (start rt)
       (\<lambda>p. io_return (request_new (rt_context rt) (snd p) (bufs p) None ri))) s =
     Some (Ok (request_new (rt_context rt) (snd p) (bufs p) None ri), s\<lparr>sy_world := w1\<rparr>)"
    unfolding with_runtime_Ok io_bind_eq_Ok io_return_eq_Ok using 1 by blast
  moreover from 2 have "request_wait B (request_new (rt_context rt) (snd p) (bufs p) None ri,
      sy_world (s\<lparr>sy_world := w1\<rparr>)) = Some (Ok (), (q, w))" by simp
  moreover from 3 have "t = s\<lparr>sy_world := w1\<rparr>\<lparr>sy_world := w\<rparr>" by (simp add: sy_world_twice)
  ultimately show ?L unfolding nb_then_wait_Ok by blast
qed

section \<open>Gathering\<close>

lemma io_seq_unit: "io_seq m (io_return ()) = m"
  by (simp add: io_seq_def)

lemma chunks_exact_prefix:
  "0 < k \<Longrightarrow> length ys = k * n \<Longrightarrow> chunks_exact k (ys @ zs) = chunks_exact k ys @ chunks_exact k zs"
proof (induction n arbitrary: ys)
  case 0
  then show ?case by simp
next
  case (Suc n)
  then have "take k ys @ drop k ys @ zs = ys @ zs" "length (take k ys) = k" "length (drop k ys) = k * n"
    by simp_all
  with Suc.IH [OF \<open>0 < k\<close> this(3)] Suc.prems show ?case
    by (metis append_Cons append_take_drop_id chunks_exact_append)
qed

lemma chunks_exact_nested:
  assumes "0 < k" and "0 < m"
  shows "length xs = k * m * r \<Longrightarrow>
    concat (map (chunks_exact k) (chunks_exact (k * m) xs)) = chunks_exact k xs"
proof (induction r arbitrary: xs)
  case 0
  with assms show ?case by simp
next
  case (Suc r)
  let ?a = "take (k * m) xs" and ?b = "drop (k * m) xs"
  have len: "length ?a = k * m" "length ?b = k * m * r" and xs: "xs = ?a @ ?b" using Suc.prems by simp_all
  have "chunks_exact (k * m) xs = ?a # chunks_exact (k * m) ?b"
    using chunks_exact_append [of "k * m" ?a ?b] len(1) assms by simp
  moreover have "chunks_exact k xs = chunks_exact k ?a @ chunks_exact k ?b"
    using chunks_exact_prefix [OF assms(1) len(1), of ?b] by simp
  ultimately show ?case using Suc.IH [OF len(2)] by simp
qed

lemma collect_results_append:
  "collect_results (rs @ qs) =
     outcome_bind (collect_results rs) (\<lambda>x. outcome_bind (collect_results qs) (\<lambda>y. Ok (x @ y)))"
proof (induction rs)
  case Nil
  show ?case by (cases "collect_results qs") simp_all
next
  case (Cons r rs)
  then show ?case
    by (cases r; cases "collect_results rs"; cases "collect_results qs") simp_all
qed

lemma collect_results_concat:
  "outcome_bind (collect_results (map collect_results rss)) (\<lambda>ps. Ok (concat ps)) = collect_results (concat rss)"
proof (induction rss)
  case Nil
  show ?case by simp
next
  case (Cons rs rss)
  show ?case
    unfolding concat.simps collect_results_append Cons.IH [symmetric]
    by (cases "collect_results rs"; cases "collect_results (map collect_results rss)") simp_all
qed

text \<open>Decoding per contribution or all at once is the same on a full receive buffer.\<close>

lemma collect_decode_flat:
  assumes "0 < unat (pod_size T)" and "0 < m" and "length bs = unat (pod_size T) * m * r"
  shows "collect_decode T (unat (pod_size T) * m) bs =
    collect_results (map (pod_decode T) (chunks_exact (unat (pod_size T)) bs))"
proof -
  let ?k = "unat (pod_size T)"
  note k = assms(1)
  have "collect_decode T (?k * m) bs = outcome_bind (collect_results (map collect_results
      (map (\<lambda>chunk. map (pod_decode T) (chunks_exact ?k chunk)) (chunks_exact (?k * m) bs))))
      (\<lambda>ps. Ok (concat ps))"
    by (simp add: collect_decode_def comp_def)
  also have "\<dots> = collect_results (concat (map (map (pod_decode T)) (map (chunks_exact ?k) (chunks_exact (?k * m) bs))))"
    unfolding collect_results_concat by (simp add: comp_def)
  also have "\<dots> = collect_results (map (pod_decode T) (concat (map (chunks_exact ?k) (chunks_exact (?k * m) bs))))"
    unfolding map_concat ..
  also have "\<dots> = collect_results (map (pod_decode T) (chunks_exact ?k bs))"
    unfolding chunks_exact_nested [OF k assms(2,3)] ..
  finally show ?thesis .
qed

text \<open>\<open>collect\<close> and \<open>collect_nb\<close> up to the posted operation: the length of the contribution, its
  buffer, the receive buffer and the operation.\<close>

definition collect_start ::
  "'x bindings \<Rightarrow> 'a pod \<Rightarrow> 'a list \<Rightarrow> runtime \<Rightarrow> ('x world, error, (nat \<times> nat \<times> nat) \<times> handle) io"
where
  "collect_start B T values rt =
     io_bind (io_lift (encode T values)) (\<lambda>bs.
     io_bind (io_step (buf_new bs)) (\<lambda>send.
     io_bind (team_size B rt) (\<lambda>ranks.
     io_bind (receive_buffer bs ranks) (\<lambda>recv.
     io_bind (coll_start B rt (collect_args T send recv (of_nat (length values)))) (\<lambda>coll.
     io_return ((length bs, send, recv), coll))))))"

lemma collect_split:
  assumes "values \<noteq> []"
  shows "collect B T values = with_runtime (\<lambda>rt. io_bind (collect_start B T values rt) (\<lambda>p.
      io_seq (coll_wait B (rt_context rt) (snd p))
        (io_bind (io_step (buf_get (snd (snd (fst p))))) (\<lambda>received.
         io_lift (collect_decode T (fst (fst p)) received)))))"
    and "collect_nb B T values = with_runtime (\<lambda>rt. io_bind (collect_start B T values rt) (\<lambda>p.
      io_return (request_new (rt_context rt) (snd p) [fst (snd (fst p)), snd (snd (fst p))] None (Some 1))))"
  using assms by (simp_all add: collect_def collect_nb_def collect_start_def io_bind_assoc)

lemma collect_start_lengths:
  assumes "ucc_keeps_lengths B" and "pod_codec T" and "unat (pod_size T) * length values \<le> isize_max"
    and "collect_start B T values rt w = Some (Ok p, w')"
  shows "fst (fst p) = unat (pod_size T) * length values \<and>
    (\<exists>r. length (w_bufs w' (snd (snd (fst p)))) = unat (pod_size T) * length values * r)"
proof -
  let ?n = "length (slice_bytes T values)"
  have n: "?n = unat (pod_size T) * length values"
    by (simp add: pod_codec.length_slice_bytes [OF assms(2)])
  obtain send ranks recv w1 w2 coll where recv: "receive_buffer (slice_bytes T values) ranks w1 = Some (Ok recv, w2)"
    and start: "coll_start B rt (collect_args T send recv (of_nat (length values))) w2 = Some (Ok coll, w')"
    and p: "p = ((?n, send, recv), coll)"
    using assms(4) unfolding collect_start_def encode_Ok [OF assms(2,3)]
    by (auto simp: io_bind_eq_Ok io_return_eq_Ok)
  have "?n < 2 ^ 64" using assms(3) n by (simp add: isize_max_def)
  with recv have "length (w_bufs w2 recv) = ?n * unat ranks"
    by (auto simp: receive_buffer_def io_bind_eq_Ok io_lift_eq_Ok vec_zeroed_u8_def buf_new_def
        unat_of_nat_len split: if_splits)
  then show ?thesis using coll_start_length [OF assms(1) start, of recv] p n by auto
qed

text \<open>What \<open>collect\<close> decodes at the end is what the result of the request is.\<close>

lemma collect_start_decode:
  assumes "coll_drop_local B" and keeps: "ucc_keeps_lengths B"
    and T: "pod_codec T" "unat (pod_size T) * length xs \<le> isize_max" and "xs \<noteq> []"
    and start: "collect_start B T xs rt w = Some (Ok p, w1)" and ends: "coll_completes B ctx (snd p) w1 w2"
  shows "collect_decode T (fst (fst p)) (w_bufs w2 (snd (snd (fst p)))) =
    request_result T (request_new ctx (snd p) [fst (snd (fst p)), snd (snd (fst p))] None (Some 1)\<lparr>cr_op := None\<rparr>)
      (release B (R_Coll (snd p)) w2)"
proof -
  obtain r where "fst (fst p) = unat (pod_size T) * length xs"
    and "length (w_bufs w2 (snd (snd (fst p)))) = unat (pod_size T) * length xs * r"
    using collect_start_lengths [OF keeps T start] coll_completes_length [OF keeps ends] by auto
  then show ?thesis
    using \<open>xs \<noteq> []\<close> pod_codec.size_pos [OF T(1)]
    by (simp add: collect_decode_flat request_result_def request_new_def coll_drop_bufs [OF assms(1)])
qed

lemma barrier_forms:
  assumes "ucc_codes B"
  shows "barrier B s = Some (Ok (), t) \<longleftrightarrow> (\<exists>q. nb_then_wait B (barrier_nb B) s = Some (Ok q, t))"
proof -
  let ?stub = "\<lambda>rt. io_bind (io_step (buf_new [0])) (\<lambda>stub. io_bind (coll_start B rt (barrier_args stub)) (\<lambda>coll.
      io_return (stub, coll)))"
  have "barrier B = with_runtime (\<lambda>rt. io_bind (?stub rt) (\<lambda>p. io_seq (coll_wait B (rt_context rt) (snd p)) (io_return ())))"
    by (simp add: barrier_def io_bind_assoc io_seq_unit)
  moreover have "barrier_nb B = with_runtime (\<lambda>rt. io_bind (?stub rt)
      (\<lambda>p. io_return (request_new (rt_context rt) (snd p) [fst p] None None)))"
    by (simp add: barrier_nb_def io_bind_assoc)
  ultimately show ?thesis
    by (simp only: blocking_without_destination [OF assms] nonblocking_without_destination [OF assms]
        io_return_eq_Ok simp_thms) blast
qed

lemma collect_forms:
  assumes "ucc_codes B" and "coll_drop_local B" and "ucc_keeps_lengths B"
    and "pod_codec T" and "unat (pod_size T) * length xs \<le> isize_max"
  shows "collect B T xs s = Some (Ok ys, t) \<longleftrightarrow>
    (\<exists>q. nb_then_wait B (collect_nb B T xs) s = Some (Ok q, t) \<and> request_result T q (sy_world t) = Ok ys)"
proof (cases "xs = []")
  case True
  then show ?thesis by (simp add: collect_def collect_nb_def nb_then_wait_def io_err_not_Ok)
next
  case False
  let ?recv = "\<lambda>p :: (nat \<times> nat \<times> nat) \<times> handle. snd (snd (fst p))"
  let ?ends = "\<lambda>st rt p w1 w2. ready s st \<and> st_collectives st = Some rt \<and>
    collect_start B T xs rt (sy_world s) = Some (Ok p, w1) \<and> coll_completes B (rt_context rt) (snd p) w1 w2 \<and>
    t = s\<lparr>sy_world := release B (R_Coll (snd p)) w2\<rparr>"
  let ?q = "\<lambda>rt p :: (nat \<times> nat \<times> nat) \<times> handle.
    request_new (rt_context rt) (snd p) [fst (snd (fst p)), ?recv p] None (Some 1)\<lparr>cr_op := None\<rparr>"
  have fin: "io_bind (io_step (buf_get (?recv p))) (\<lambda>received. io_lift (collect_decode T (fst (fst p)) received))
      (release B (R_Coll (snd p)) w2) = Some (Ok ys, w3) \<longleftrightarrow>
    collect_decode T (fst (fst p)) (w_bufs w2 (?recv p)) = Ok ys \<and> w3 = release B (R_Coll (snd p)) w2" for p w2 w3
    by (auto simp: io_bind_eq_Ok io_step_eq_Ok io_lift_eq_Ok buf_get_def coll_drop_bufs [OF assms(2)])
  have "collect B T xs s = Some (Ok ys, t) \<longleftrightarrow> (\<exists>st rt p w1 w2. ?ends st rt p w1 w2 \<and>
      collect_decode T (fst (fst p)) (w_bufs w2 (?recv p)) = Ok ys)"
    unfolding collect_split [OF False] blocking_without_destination [OF assms(1)] fin by blast
  also have "\<dots> \<longleftrightarrow> (\<exists>st rt p w1 w2. ?ends st rt p w1 w2 \<and>
      request_result T (?q rt p) (release B (R_Coll (snd p)) w2) = Ok ys)"
    using collect_start_decode [OF assms(2-5) False] by metis
  also have "\<dots> \<longleftrightarrow> (\<exists>st rt p w1 w2. ?ends st rt p w1 w2 \<and> request_result T (?q rt p) (sy_world t) = Ok ys)"
    by (rule ex_cong1)+ auto
  also have "\<dots> \<longleftrightarrow> (\<exists>q. nb_then_wait B (collect_nb B T xs) s = Some (Ok q, t) \<and>
      request_result T q (sy_world t) = Ok ys)"
    unfolding collect_split [OF False] nonblocking_without_destination [OF assms(1)] by blast
  finally show ?thesis .
qed

section \<open>Rank order\<close>

text \<open>The builder of an operation announced a datatype and a count that together are \<open>len\<close> bytes.\<close>

definition announces :: "coll_args \<Rightarrow> nat \<Rightarrow> bool" where
  "announces args len \<longleftrightarrow> (\<exists>dt. ca_dtype args = Some dt \<and> unat (ca_count args) * dtype_width dt = len)"

text \<open>UCC's allgather over a team to which rank \<open>i\<close> contributes \<open>parts ! i\<close>: on every rank an
  operation that announces the rank's own contribution ends with the contributions one after the
  other in the destination.\<close>

definition ucc_allgathers :: "'x bindings \<Rightarrow> runtime \<Rightarrow> nat \<Rightarrow> bytes list \<Rightarrow> bool" where
  "ucc_allgathers B rt me parts \<longleftrightarrow>
     (\<forall>w. \<exists>w'. ucc_team_size (ucc B) (rt_team rt) w = (Inr (of_nat (length parts)), w') \<and>
        w_bufs w' = w_bufs w \<and> w_next w' = w_next w) \<and>
     (\<forall>args send recv w. ca_type args = Coll_Allgather \<longrightarrow> ca_inplace args = None \<longrightarrow>
        ca_src args = Some send \<longrightarrow> ca_dst args = Some recv \<longrightarrow> send \<noteq> recv \<longrightarrow>
        announces args (length (parts ! me)) \<longrightarrow> w_bufs w send = parts ! me \<longrightarrow>
        length (w_bufs w recv) = length (concat parts) \<longrightarrow>
        (\<exists>coll w1 u w2 w3. coll_init (ucc B) args (rt_team rt) w = (Inr coll, w1) \<and>
           coll_post (ucc B) coll w1 = (Inr u, w2) \<and> coll_completes B (rt_context rt) coll w2 w3 \<and>
           w_bufs w3 recv = concat parts))"

text \<open>What the size of the team and of the receive buffer are under the contract.\<close>

lemma team_size_gathers:
  assumes "ucc_allgathers B rt me parts" and "length parts < 2 ^ 32"
  obtains n v where "team_size B rt w = Some (Ok n, v)" and "unat n = length parts"
    and "w_bufs v = w_bufs w" and "w_next v = w_next w"
proof -
  obtain v where "ucc_team_size (ucc B) (rt_team rt) w = (Inr (of_nat (length parts)), v)"
    and v: "w_bufs v = w_bufs w" "w_next v = w_next w"
    using assms(1) unfolding ucc_allgathers_def by blast
  then have "team_size B rt w = Some (Ok (ucast (of_nat (length parts) :: u32)), v)"
    by (simp add: team_size_def io_bind_eq_Ok ucc_call_def io_call_eq_Ok io_return_eq_Ok)
  moreover have "unat (ucast (of_nat (length parts) :: u32) :: usize) = length parts"
    using assms(2) by (simp add: unsigned_ucast_eq unat_of_nat_len take_bit_nat_eq_self)
  ultimately show ?thesis using v that by blast
qed

lemma receive_buffer_Ok:
  assumes "length bs * unat n \<le> isize_max" and "0 < unat n"
  shows "receive_buffer bs n w = Some (Ok (w_next w), snd (buf_new (replicate (length bs * unat n) 0) w))"
proof -
  have "length bs \<le> length bs * unat n" using assms(2) by simp
  from order_trans [OF this assms(1)] have len: "unat (of_nat (length bs) :: usize) = length bs"
    by (intro unat_of_nat_len) (simp add: isize_max_def)
  have "checked_mul (of_nat (length bs)) n = Some (of_nat (length bs) * n)"
    using assms(1) len by (simp add: checked_mul_def isize_max_def)
  moreover from this have "unat (of_nat (length bs) * n) = length bs * unat n" by (simp add: len)
  ultimately show ?thesis
    using assms(1) by (simp add: receive_buffer_def vec_zeroed_u8_def buf_new_def del: checked_mul_eq_Some)
qed

text \<open>Under the contract \<open>collect\<close> posts its allgather and the receive buffer ends as all parts.\<close>

lemma collect_start_gathers:
  assumes gathers: "ucc_allgathers B rt me parts" and "me < length parts" "parts ! me = bs"
    and "encode T xs = Ok bs" and count: "length xs * dtype_width (pod_ucc_datatype T) = length bs"
    and even: "\<forall>c \<in> set parts. length c = length bs"
    and size: "length bs * length parts \<le> isize_max" "length parts < 2 ^ 32"
  obtains send recv coll w1 w2 where
    "collect_start B T xs rt w = Some (Ok ((length bs, send, recv), coll), w1)"
    and "coll_completes B (rt_context rt) coll w1 w2" and "w_bufs w2 recv = concat parts"
proof -
  let ?send = "w_next w" and ?w0 = "snd (buf_new bs w)"
  obtain n v where n: "team_size B rt ?w0 = Some (Ok n, v)" "unat n = length parts"
    and v: "w_bufs v = (w_bufs w)(?send := bs)" "w_next v = Suc ?send"
    by (rule team_size_gathers [OF gathers size(2), of ?w0]) (simp add: buf_new_def)
  let ?recv = "w_next v" and ?w1 = "snd (buf_new (replicate (length bs * unat n) 0) v)"
  let ?args = "collect_args T ?send ?recv (of_nat (length xs))"
  have recv: "receive_buffer bs n v = Some (Ok ?recv, ?w1)"
    using size(1) n(2) assms(2) by (intro receive_buffer_Ok) auto
  have "length (concat parts) = length bs * length parts"
    using even by (induction parts) auto
  then have "w_bufs ?w1 ?send = parts ! me" "length (w_bufs ?w1 ?recv) = length (concat parts)" "?send \<noteq> ?recv"
    using v n(2) assms(3) by (simp_all add: buf_new_def)
  moreover have "announces ?args (length (parts ! me))"
  proof -
    have "0 < dtype_width (pod_ucc_datatype T)" by (cases "pod_ucc_datatype T") simp_all
    then have "length xs \<le> length bs" using count by (metis mult.right_neutral mult_le_mono2 Suc_leI One_nat_def)
    moreover have "length bs \<le> length bs * length parts" using assms(2) by simp
    ultimately have "length xs \<le> isize_max" using size(1) by linarith
    then have "unat (of_nat (length xs) :: u64) = length xs"
      by (intro unat_of_nat_len) (simp add: isize_max_def)
    then show ?thesis using count assms(3) by (simp add: announces_def collect_args_def)
  qed
  ultimately obtain coll w2 u w3 w4 where "coll_init (ucc B) ?args (rt_team rt) ?w1 = (Inr coll, w2)"
    and "coll_post (ucc B) coll w2 = (Inr u, w3)" and ends: "coll_completes B (rt_context rt) coll w3 w4"
      "w_bufs w4 ?recv = concat parts"
    using gathers [unfolded ucc_allgathers_def, THEN conjunct2, rule_format, of ?args ?send ?recv ?w1]
    by (auto simp: collect_args_def)
  then have "coll_start B rt ?args ?w1 = Some (Ok coll, w3)"
    by (auto simp: coll_start_def io_bind_eq_Ok io_seq_eq_Ok io_on_fail_eq_Ok ucc_call_def
        io_call_eq_Ok io_return_eq_Ok)
  with n recv have "collect_start B T xs rt w = Some (Ok ((length bs, ?send, ?recv), coll), w3)"
    unfolding collect_start_def assms(4)
    by (auto simp: io_bind_eq_Ok io_step_eq_Ok io_lift_eq_Ok io_return_eq_Ok buf_new_def)
  with ends show ?thesis using that by blast
qed

lemma length_concat_even: "\<forall>ys \<in> set yss. length ys = n \<Longrightarrow> length (concat yss) = n * length yss"
  by (induction yss) auto

lemma collect_gathers:
  assumes "ucc_codes B" and "coll_drop_local B" and T: "pod_wire T"
    and "ready s st" and "st_collectives st = Some rt"
    and "ucc_allgathers B rt me (map (slice_bytes T) xss)" and me: "me < length xss" "xss ! me \<noteq> []"
    and even: "\<forall>xs \<in> set xss. length xs = length (xss ! me)"
    and size: "unat (pod_size T) * length (xss ! me) * length xss \<le> isize_max" "length xss < 2 ^ 32"
  shows "\<exists>w. collect B T (xss ! me) s = Some (Ok (concat xss), s\<lparr>sy_world := w\<rparr>)"
proof -
  let ?xs = "xss ! me" and ?k = "unat (pod_size T)"
  note wire = pod_wire.wire_length [OF T]
  note T = pod_wire.axioms(1) [OF T]
  note len = pod_codec.length_slice_bytes [OF T]
  have "?k * length ?xs \<le> ?k * length ?xs * length xss" using me(1) by simp
  from order_trans [OF this size(1)] have encode: "encode T ?xs = Ok (slice_bytes T ?xs)"
    by (rule encode_Ok [OF T])
  have parts: "me < length (map (slice_bytes T) xss)" "map (slice_bytes T) xss ! me = slice_bytes T ?xs"
    "\<forall>c \<in> set (map (slice_bytes T) xss). length c = length (slice_bytes T ?xs)"
    "length (slice_bytes T ?xs) * length (map (slice_bytes T) xss) \<le> isize_max"
    "length (map (slice_bytes T) xss) < 2 ^ 32"
    subgoal using me(1) by simp
    subgoal using me(1) by (rule nth_map)
    subgoal unfolding set_map using even by (simp add: len)
    subgoal using size(1) by (simp only: len length_map)
    subgoal using size(2) by (simp only: length_map)
    done
  obtain send recv coll w1 w2 where start: "collect_start B T ?xs rt (sy_world s) =
      Some (Ok ((length (slice_bytes T ?xs), send, recv), coll), w1)"
    and ends: "coll_completes B (rt_context rt) coll w1 w2"
    and recv: "w_bufs w2 recv = concat (map (slice_bytes T) xss)"
    by (rule collect_start_gathers [OF assms(6) parts(1,2) encode wire parts(3-5), of "sy_world s"])
  let ?w = "release B (R_Coll coll) w2"
  have "concat (map (slice_bytes T) yss) = slice_bytes T (concat yss)" for yss
    by (induction yss) (simp_all add: slice_bytes_def)
  moreover note length_concat_even [OF even]
  ultimately have "collect_decode T (length (slice_bytes T ?xs)) (w_bufs w2 recv) = Ok (concat xss)"
    using me(2) pod_codec.size_pos [OF T] pod_codec.decode_chunks_slice [OF T]
    by (simp add: recv len collect_decode_flat [where r = "length xss"])
  then have "io_bind (io_step (buf_get recv)) (\<lambda>received. io_lift (collect_decode T (length (slice_bytes T ?xs)) received)) ?w =
      Some (Ok (concat xss), ?w)"
    by (simp add: io_bind_eq_Ok io_step_eq_Ok io_lift_eq_Ok buf_get_def coll_drop_bufs [OF assms(2)])
  with start ends assms(4,5) have "collect B T ?xs s = Some (Ok (concat xss), s\<lparr>sy_world := ?w\<rparr>)"
    unfolding collect_split(1) [OF me(2)] blocking_without_destination [OF assms(1)]
    by (metis fst_conv snd_conv)
  then show ?thesis ..
qed

section \<open>The sample\<close>

lemma sample_drop_local: "coll_drop_local sample_bindings"
  by (simp add: coll_drop_local_def)

lemma length_overwrite: "length (overwrite old new) = length old"
  by (simp add: overwrite_def)

lemma sample_keeps_lengths: "ucc_keeps_lengths sample_bindings"
  by (simp add: ucc_keeps_lengths_def on_ext_def s_ok_def s_coll_post_def s_progress_def Let_def
      length_overwrite s_reduced_def split: option.split)

lemma sample_completes:
  "coll_completes sample_bindings ctx coll w (w\<lparr>w_ext := (w_ext w)\<lparr>se_wait := 0\<rparr>\<rparr>)"
proof (induction "se_wait (w_ext w)" arbitrary: w)
  case 0
  then have "w\<lparr>w_ext := (w_ext w)\<lparr>se_wait := 0\<rparr>\<rparr> = w" by simp
  moreover from 0 have "coll_completes sample_bindings ctx coll w w"
    by (intro coll_completes.ended) (auto simp: s_ok_def)
  ultimately show ?case by simp
next
  case (Suc n)
  let ?w = "w\<lparr>w_ext := (w_ext w)\<lparr>se_wait := n\<rparr>\<rparr>"
  have "ucc_progress (ucc sample_bindings) ctx w = ?w"
    using Suc(2) by (simp add: s_progress_def on_ext_def)
  moreover have "coll_completes sample_bindings ctx coll ?w (?w\<lparr>w_ext := (w_ext ?w)\<lparr>se_wait := 0\<rparr>\<rparr>)"
    by (rule Suc(1)) simp
  moreover have "?w\<lparr>w_ext := (w_ext ?w)\<lparr>se_wait := 0\<rparr>\<rparr> = w\<lparr>w_ext := (w_ext w)\<lparr>se_wait := 0\<rparr>\<rparr>" by simp
  ultimately have "coll_completes sample_bindings ctx coll (ucc_progress (ucc sample_bindings) ctx w)
      (w\<lparr>w_ext := (w_ext w)\<lparr>se_wait := 0\<rparr>\<rparr>)" by metis
  moreover have "coll_status (ucc sample_bindings) coll w = (ucc_no_message (ucc sample_bindings), w)"
    using Suc(2) [symmetric] by simp
  ultimately show ?case by (rule coll_completes.running [rotated])
qed

lemma sample_gathers_any:
  assumes "length bs \<le> 4"
  shows "ucc_allgathers sample_bindings rt 0 [bs, take (length bs) (s_other bs)]"
  unfolding ucc_allgathers_def
proof (intro conjI allI impI)
  let ?parts = "[bs, take (length bs) (s_other bs)]"
  fix w :: sample_world
  show "\<exists>w'. ucc_team_size (ucc sample_bindings) (rt_team rt) w =
      (Inr (of_nat (length ?parts)), w') \<and> w_bufs w' = w_bufs w \<and> w_next w' = w_next w"
    by (simp add: s_ok_def)
  fix args :: coll_args and send recv
  assume args: "ca_src args = Some send" "ca_dst args = Some recv"
    and bufs: "w_bufs w send = ?parts ! 0" "length (w_bufs w recv) = length (concat ?parts)"
  let ?w1 = "w\<lparr>w_ext := (w_ext w)\<lparr>se_coll := Some args\<rparr>\<rparr>"
  let ?w2 = "snd (coll_post (ucc sample_bindings) 5 ?w1)"
  have "coll_init (ucc sample_bindings) args (rt_team rt) w = (Inr 5, ?w1)" by (simp add: on_ext_def)
  moreover have post: "coll_post (ucc sample_bindings) 5 ?w1 = (Inr (), ?w2)"
    and "w_bufs ?w2 recv = concat ?parts"
    using args bufs assms by (simp_all add: s_coll_post_def Let_def overwrite_def s_other_def)
  moreover note sample_completes [of "rt_context rt" 5 ?w2]
  ultimately show "\<exists>coll w1 u w2 w3. coll_init (ucc sample_bindings) args (rt_team rt) w = (Inr coll, w1) \<and>
      coll_post (ucc sample_bindings) coll w1 = (Inr u, w2) \<and>
      coll_completes sample_bindings (rt_context rt) coll w2 w3 \<and> w_bufs w3 recv = concat ?parts"
    by (intro exI conjI) (assumption, assumption, assumption, simp)
qed

lemma sample_gathers: "ucc_allgathers sample_bindings rt 0 [[5, 0, 0, 0], [7, 0, 0, 0]]"
  using sample_gathers_any [of "[5, 0, 0, 0]" rt] by (simp add: s_other_def)

lemma sample_bytes:
  "to_ne_bytes Little (5 :: u32) = [5, 0, 0, 0]" "to_ne_bytes Little (7 :: u32) = [7, 0, 0, 0]"
  by code_simp+

lemma sample_parts: "map (slice_bytes (pod_u32 Little)) [[5], [7]] = [[5, 0, 0, 0], [7, 0, 0, 0]]"
  by (simp add: slice_bytes_def pod_u32_def pod_impl_def sample_bytes)

lemma sample_collect:
  "\<exists>w. collect sample_bindings (pod_u32 Little) [5] sample_sys = Some (Ok [5, 7], sample_sys\<lparr>sy_world := w\<rparr>)"
proof -
  obtain rt where rt: "st_collectives sample_state = Some rt" by (simp add: sample_state_def)
  from sample_parts collect_gathers [OF sample_codes sample_drop_local u32.pod_wire_axioms [of Little] sample_ready rt,
      of 0 "[[5], [7]]"] sample_gathers [of rt]
  show ?thesis by (simp add: pod_u32_def pod_impl_def isize_max_def)
qed

text \<open>A process whose first buffer holds one value to broadcast.\<close>

definition sample_caller :: "sample_ext sys" where
  "sample_caller = sample_sys\<lparr>sy_world := sample_world0\<lparr>w_bufs := (w_bufs sample_world0)(0 := [5, 0, 0, 0]), w_next := 1\<rparr>\<rparr>"

lemma sample_broadcast: "\<exists>t. broadcast sample_bindings (pod_u32 Little) 0 0 1 sample_caller = Some (Ok (), t)"
proof -
  let ?T = "pod_u32 Little" and ?w = "sy_world sample_caller"
  obtain rt where rt: "st_collectives sample_state = Some rt" by (simp add: sample_state_def)
  let ?vs = "slice_values ?T 0 1 ?w"
  let ?bs = "slice_bytes ?T ?vs"
  let ?w1 = "snd (buf_new ?bs ?w)"
  let ?w2 = "?w1\<lparr>w_ext := (w_ext ?w1)\<lparr>se_coll := Some (broadcast_args ?T 1 1 0), se_wait := 0\<rparr>\<rparr>"
  have "length ?vs = 1" by (simp add: slice_values_def)
  then have fits: "unat (pod_size ?T) * length ?vs \<le> isize_max" by (simp add: isize_max_def pod_u32_def pod_impl_def)
  have enc: "encode_slice ?T 0 1 sample_caller = Some (Ok 1, sample_caller\<lparr>sy_world := ?w1\<rparr>)"
    by (simp add: encode_slice_def outside_lock_Ok io_ok_simps encode_Ok [OF u32.pod_codec_axioms fits])
      (simp add: buf_new_def sample_caller_def sample_world0_def)
  have ready: "ready sample_caller sample_state"
    by (simp add: ready_def sample_caller_def sample_sys_def)
  have team: "team_size sample_bindings rt ?w1 = Some (Ok 2, ?w1)"
    by (simp add: team_size_def io_ok_simps eval_calls)
  let ?w0 = "?w1\<lparr>w_ext := (w_ext ?w1)\<lparr>se_coll := Some (broadcast_args ?T 1 1 0), se_wait := 2\<rparr>\<rparr>"
  have start: "coll_start sample_bindings rt (broadcast_args ?T 1 1 0) ?w1 = Some (Ok 5, ?w0)"
    by (simp add: coll_start_def io_ok_simps eval_calls s_coll_post_def s_reduced_def broadcast_args_def)
  have wait: "coll_wait sample_bindings (rt_context rt) 5 ?w0 = Some (Ok (), release sample_bindings (R_Coll 5) ?w2)"
    unfolding coll_wait_iff [OF sample_codes] using sample_completes [of "rt_context rt" 5 ?w0] by force
  note enc
  moreover have "with_runtime (\<lambda>rt. io_bind (team_size sample_bindings rt) (\<lambda>sz.
      if sz \<le> 0 then io_err (Usage ''broadcast root is outside the UCC team'')
      else io_bind (coll_start sample_bindings rt (broadcast_args ?T 1 1 0))
        (coll_wait sample_bindings (rt_context rt)))) (sample_caller\<lparr>sy_world := ?w1\<rparr>) =
      Some (Ok (), sample_caller\<lparr>sy_world := release sample_bindings (R_Coll 5) ?w2\<rparr>)"
    unfolding with_runtime_Ok
    by (rule exI [of _ sample_state], rule exI [of _ rt], rule exI [of _ "release sample_bindings (R_Coll 5) ?w2"])
      (simp add: ready rt io_bind_def team start wait del: sample_sel One_nat_def)
  moreover have "\<exists>t. decode_slice ?T 1 0 1 (sample_caller\<lparr>sy_world := release sample_bindings (R_Coll 5) ?w2\<rparr>) = Some (Ok (), t)"
  proof -
    let ?r = "release sample_bindings (R_Coll 5) ?w2"
    have "w_bufs ?r 1 = ?bs" by (simp add: buf_new_def sample_caller_def sample_world0_def)
    moreover have "length (slice_values ?T 0 1 ?r) = length ?vs" by (simp add: slice_values_def)
    ultimately have "decode ?T (w_bufs ?r 1) (slice_values ?T 0 1 ?r) = (Ok (), ?vs)"
      by (simp only: decode_slice_bytes [OF u32.pod_codec_axioms fits])
    then show ?thesis by (simp add: decode_slice_def outside_lock_Ok decode_to_def del: sample_sel)
  qed
  ultimately show ?thesis
    unfolding broadcast_def io_bind_eq_Ok io_seq_eq_Ok if_not_P [OF one_neq_zero] by blast
qed

section \<open>Properties\<close>

text \<open>C13: A blocking broadcast or reduction is its non-blocking form followed by \<open>wait\<close>: it
  succeeds with a final state exactly when posting the operation, polling the request to its end
  outside the lock and copying back does.\<close>

theorem blocking_is_nonblocking_then_wait:
  assumes "ucc_codes B" and "coll_drop_local B"
  shows "(broadcast B T root d n s = Some (Ok (), t) \<longleftrightarrow>
      (\<exists>q. nb_then_wait B (broadcast_nb B T root d n) s = Some (Ok q, t))) \<and>
    (n \<noteq> 0 \<longrightarrow> (reduce B T rop d n s = Some (Ok (), t) \<longleftrightarrow>
      (\<exists>q. nb_then_wait B (reduce_nb B T rop d n) s = Some (Ok q, t))))"
  using broadcast_forms [OF assms] reduce_forms [OF assms] by blast

theorem blocking_is_nonblocking_then_wait_witness:
  "\<exists>t q. broadcast sample_bindings (pod_u32 Little) 0 0 1 sample_caller = Some (Ok (), t) \<and>
     nb_then_wait sample_bindings (broadcast_nb sample_bindings (pod_u32 Little) 0 0 1) sample_caller = Some (Ok q, t)"
  using sample_broadcast blocking_is_nonblocking_then_wait [OF sample_codes sample_drop_local] by blast

text \<open>C23: Likewise \<open>barrier\<close> is \<open>barrier_nb\<close> and \<open>wait\<close>, and \<open>collect\<close> is \<open>collect_nb\<close>, \<open>wait\<close> and
  \<open>result\<close>: they gather the same values, although one decodes contribution by contribution and
  the other the whole receive buffer.\<close>

theorem gathering_is_nonblocking_then_wait:
  assumes "ucc_codes B" and "coll_drop_local B" and "ucc_keeps_lengths B"
    and "pod_codec T" and "unat (pod_size T) * length xs \<le> isize_max"
  shows "(barrier B s = Some (Ok (), t) \<longleftrightarrow> (\<exists>q. nb_then_wait B (barrier_nb B) s = Some (Ok q, t))) \<and>
    (collect B T xs s = Some (Ok ys, t) \<longleftrightarrow>
      (\<exists>q. nb_then_wait B (collect_nb B T xs) s = Some (Ok q, t) \<and> request_result T q (sy_world t) = Ok ys))"
  using barrier_forms [OF assms(1)] collect_forms [OF assms] by simp

theorem gathering_is_nonblocking_then_wait_witness:
  "\<exists>t q. collect sample_bindings (pod_u32 Little) [5] sample_sys = Some (Ok [5, 7], t) \<and>
     nb_then_wait sample_bindings (collect_nb sample_bindings (pod_u32 Little) [5]) sample_sys = Some (Ok q, t) \<and>
     request_result (pod_u32 Little) q (sy_world t) = Ok [5, 7]"
proof -
  have "unat (pod_size (pod_u32 Little)) * length [5 :: u32] \<le> isize_max"
    by (simp add: pod_u32_def pod_impl_def isize_max_def)
  from gathering_is_nonblocking_then_wait [OF sample_codes sample_drop_local sample_keeps_lengths
      u32.pod_codec_axioms this] sample_collect show ?thesis by blast
qed

text \<open>C11: \<open>collect\<close> gathers in rank order: when UCC's allgather, for an operation that announces the
  datatype and the count of the rank's own contribution, delivers the contributions of all ranks,
  each of the same number of values, the call returns on every rank with the values of all ranks,
  one rank after the other, and leaves the process initialised.\<close>

theorem collect_gathers_in_rank_order:
  assumes "ucc_codes B" and "coll_drop_local B" and T: "pod_wire T"
    and "ready s st" and "st_collectives st = Some rt"
    and "ucc_allgathers B rt me (map (slice_bytes T) xss)" and me: "me < length xss" "xss ! me \<noteq> []"
    and even: "\<forall>xs \<in> set xss. length xs = length (xss ! me)"
    and size: "unat (pod_size T) * length (xss ! me) * length xss \<le> isize_max" "length xss < 2 ^ 32"
  shows "\<exists>w. collect B T (xss ! me) s = Some (Ok (concat xss), s\<lparr>sy_world := w\<rparr>)"
  using assms by (rule collect_gathers)

theorem collect_gathers_in_rank_order_witness:
  "\<exists>w. collect sample_bindings (pod_u32 Little) [5] sample_sys = Some (Ok [5, 7], sample_sys\<lparr>sy_world := w\<rparr>)"
proof -
  obtain rt where rt: "st_collectives sample_state = Some rt" by (simp add: sample_state_def)
  from sample_parts collect_gathers_in_rank_order [OF sample_codes sample_drop_local u32.pod_wire_axioms [of Little] sample_ready rt,
      of 0 "[[5], [7]]"] sample_gathers [of rt]
  show ?thesis by (simp add: pod_u32_def pod_impl_def isize_max_def)
qed

end
