(* ===== verification/Oob_Properties.thy ===== *)
theory Oob_Properties
  imports Sample
begin

text \<open>
  The out-of-band allgather that UCC calls to build its team: what it assembles over a key-value
  store that delivers, what it reports otherwise, and the life of its boxed requests.
\<close>

section \<open>A store that delivers\<close>

text \<open>PMIx for one exchange: rank \<open>i\<close> of the job publishes \<open>parts ! i\<close>. After the own contribution
  was put, committed and the fence passed (\<open>delivered\<close>), reading the key of any rank returns its
  contribution; the calls do not touch the buffers and requests of the process.\<close>

definition same_memory :: "'x world \<Rightarrow> 'x world \<Rightarrow> bool" where
  "same_memory w w' \<longleftrightarrow> w_bufs w' = w_bufs w \<and> w_next w' = w_next w \<and> w_reqs w' = w_reqs w"

definition store_publishes ::
  "'x bindings \<Rightarrow> handle \<Rightarrow> bytes \<Rightarrow> ('x world \<Rightarrow> bool) \<Rightarrow> bool"
where
  "store_publishes B client own delivered \<longleftrightarrow> (\<forall>w. \<exists>b w1 v w2 u1 w3 u2 w4 p w5 u3 w6.
     pmix_byte_object (pmix B) own w = (Inr b, w1) \<and> pmix_build (pmix B) b w1 = (Inr v, w2) \<and>
     pmix_put_value (pmix B) (scope_global (pmix B)) (butlast OOB_KEY) v w2 = (Inr u1, w3) \<and>
     pmix_commit (pmix B) w3 = (Inr u2, w4) \<and>
     pmix_proc (pmix B) client (rank_wildcard (pmix B)) w4 = (Inr p, w5) \<and>
     pmix_fence (pmix B) p w5 = (Inr u3, w6) \<and> delivered w6 \<and> same_memory w w6)"

definition store_delivers ::
  "'x bindings \<Rightarrow> handle \<Rightarrow> bytes list \<Rightarrow> ('x world \<Rightarrow> bool) \<Rightarrow> bool"
where
  "store_delivers B client parts delivered \<longleftrightarrow>
     (\<forall>w i. delivered w \<longrightarrow> i < length parts \<longrightarrow> (\<exists>p w1 v w2 w3.
        pmix_proc (pmix B) client (of_nat i) w = (Inr p, w1) \<and>
        pmix_get_value (pmix B) p OOB_KEY w1 = (Inr v, w2) \<and>
        value_bytes_copy (pmix B) v w2 = (parts ! i, w3) \<and> delivered w3 \<and> same_memory w w3)) \<and>
     (\<forall>w f. delivered w \<longrightarrow> delivered (w\<lparr>w_bufs := f\<rparr>))"

section \<open>Assembling\<close>

lemma oob_collect_step:
  assumes store: "store_delivers B client parts delivered" "delivered w" "i < length parts"
    and "oob_client st = client" "length (parts ! i) = unat len" "length parts < 2 ^ 32"
    and "i * unat len < 2 ^ 64" "i * unat len + unat len \<le> length (w_bufs w d)"
  obtains w' where "oob_collect B st d len (of_nat i # peers) w = oob_collect B st d len peers w'"
    and "delivered w'" and "w_next w' = w_next w" and "w_reqs w' = w_reqs w"
    and "w_bufs w' = (w_bufs w)(d := take (i * unat len) (w_bufs w d) @ parts ! i @
      drop (i * unat len + unat len) (w_bufs w d))"
proof -
  obtain p w1 v w2 w3 where calls: "pmix_proc (pmix B) client (of_nat i) w = (Inr p, w1)"
    "pmix_get_value (pmix B) p OOB_KEY w1 = (Inr v, w2)" "value_bytes_copy (pmix B) v w2 = (parts ! i, w3)"
    and w3: "delivered w3" "same_memory w w3"
    using store unfolding store_delivers_def by blast
  let ?new = "take (i * unat len) (w_bufs w d) @ parts ! i @ drop (i * unat len + unat len) (w_bufs w d)"
  let ?w = "w3\<lparr>w_bufs := (w_bufs w)(d := ?new)\<rparr>"
  have "unat (ucast (of_nat i :: u32) :: usize) = i"
    using assms(3,6) by (simp add: unsigned_ucast_eq unat_of_nat_len take_bit_nat_eq_self)
  then have "(mul_op (ucast (of_nat i :: u32)) len :: (unit, usize) outcome) = Ok (of_nat (i * unat len))"
    using assms(7) by (simp add: unat_of_nat_len del: of_nat_mult)
  moreover have "unat (of_nat (i * unat len) :: usize) = i * unat len"
    using assms(7) by (simp add: unat_of_nat_len del: of_nat_mult)
  ultimately have "oob_collect B st d len (of_nat i # peers) w = oob_collect B st d len peers ?w"
    using calls w3(2) assms(4,5,8)
    by (simp add: io_bind_def io_call_def io_step_def io_lift_def io_seq_def raw_write_def same_memory_def
        del: of_nat_mult mul_op_eq_Ok)
  moreover have "delivered ?w" using store(1) w3(1) unfolding store_delivers_def by blast
  ultimately show ?thesis using that w3(2) by (simp add: same_memory_def)
qed

lemma oob_collect_all:
  assumes store: "store_delivers B client parts delivered"
    and "oob_client st = client" "\<forall>c \<in> set parts. length c = unat len" "length parts < 2 ^ 32"
    and size: "length parts * unat len < 2 ^ 64"
  shows "i \<le> length parts \<Longrightarrow> delivered w \<Longrightarrow> length parts * unat len \<le> length (w_bufs w d) \<Longrightarrow>
    \<exists>w'. oob_collect B st d len (map of_nat [i..<length parts]) w = Some (Ok (), w') \<and>
      w_next w' = w_next w \<and> w_reqs w' = w_reqs w \<and>
      w_bufs w' = (w_bufs w)(d := take (i * unat len) (w_bufs w d) @ concat (drop i parts) @
        drop (length parts * unat len) (w_bufs w d))"
proof (induction arbitrary: w rule: inc_induct)
  case base
  then show ?case by (auto simp: io_return_def)
next
  case (step i)
  let ?n = "unat len" and ?b = "w_bufs w d" and ?N = "length parts * unat len"
  have part: "length (parts ! i) = ?n" using assms(3) step.hyps by auto
  have "Suc i * ?n \<le> ?N" using step.hyps by (intro mult_right_mono) auto
  then have bounds: "i * ?n + ?n \<le> ?N" by simp
  obtain w1 where w1: "oob_collect B st d len (of_nat i # map of_nat [Suc i..<length parts]) w =
      oob_collect B st d len (map of_nat [Suc i..<length parts]) w1" "delivered w1"
    "w_next w1 = w_next w" "w_reqs w1 = w_reqs w"
    "w_bufs w1 = (w_bufs w)(d := take (i * ?n) ?b @ parts ! i @ drop (i * ?n + ?n) ?b)"
    by (rule oob_collect_step [OF store step.prems(1) step.hyps(2) assms(2) part assms(4)])
      (use bounds size step.prems in auto)
  have len1: "length (take (i * ?n) ?b @ parts ! i) = Suc i * ?n"
    using bounds step.prems part by simp
  have "?N \<le> length (w_bufs w1 d)" using bounds step.prems part by (simp add: w1(5))
  from step.IH [OF w1(2) this] obtain w2 where w2: "oob_collect B st d len (map of_nat [Suc i..<length parts]) w1 = Some (Ok (), w2)"
    "w_next w2 = w_next w1" "w_reqs w2 = w_reqs w1"
    "w_bufs w2 = (w_bufs w1)(d := take (Suc i * ?n) (w_bufs w1 d) @ concat (drop (Suc i) parts) @ drop ?N (w_bufs w1 d))"
    by blast
  have "take (Suc i * ?n) (w_bufs w1 d) = take (i * ?n) ?b @ parts ! i"
    using len1 by (simp add: w1(5))
  moreover have "drop ?N (w_bufs w1 d) = drop ?N ?b"
    using bounds step.prems step.hyps part by (simp add: w1(5))
  moreover have "concat (drop i parts) = parts ! i @ concat (drop (Suc i) parts)"
    using step.hyps by (simp add: Cons_nth_drop_Suc [symmetric])
  ultimately have "w_bufs w2 = (w_bufs w)(d := take (i * ?n) ?b @ concat (drop i parts) @ drop ?N ?b)"
    by (simp add: w2(4) w1(5))
  with w1 w2 step.hyps show ?case by (auto simp: upt_conv_Cons)
qed

lemma cstr_oob_key: "cstr_from_bytes OOB_KEY = Some (butlast OOB_KEY)"
  by (simp add: cstr_from_bytes_def OOB_KEY_def cstr_def)

lemma oob_exchange_Ok:
  assumes "store_publishes B client (take (unat len) (w_bufs w s)) delivered"
    and store: "store_delivers B client parts delivered"
    and "oob_client st = client" "unat (oob_size st) = length parts" "\<forall>c \<in> set parts. length c = unat len"
    and "length parts * unat len < 2 ^ 64" "length parts * unat len \<le> length (w_bufs w d)" "unat len \<le> length (w_bufs w s)"
  shows "\<exists>w'. oob_exchange B st s d len w = Some (Ok (), w') \<and> w_next w' = w_next w \<and> w_reqs w' = w_reqs w \<and>
      w_bufs w' = (w_bufs w)(d := concat parts @ drop (length parts * unat len) (w_bufs w d))"
proof -
  obtain b w1 v w2 u1 w3 u2 w4 p w5 u3 w6 where
    calls: "pmix_byte_object (pmix B) (take (unat len) (w_bufs w s)) w = (Inr b, w1)" "pmix_build (pmix B) b w1 = (Inr v, w2)"
      "pmix_put_value (pmix B) (scope_global (pmix B)) (butlast OOB_KEY) v w2 = (Inr u1, w3)"
      "pmix_commit (pmix B) w3 = (Inr u2, w4)" "pmix_proc (pmix B) client (rank_wildcard (pmix B)) w4 = (Inr p, w5)"
      "pmix_fence (pmix B) p w5 = (Inr u3, w6)"
    and w6: "delivered w6" "same_memory w w6"
    using assms(1) [unfolded store_publishes_def, THEN spec, of w] by blast
  have "length parts < 2 ^ 32" unfolding assms(4) [symmetric] using unsigned_less [of "oob_size st"] by simp
  from oob_collect_all [OF store assms(3,5) this assms(6), of 0 w6 d] w6 assms(7)
  obtain w' where "oob_collect B st d len (map of_nat [0..<length parts]) w6 = Some (Ok (), w')"
    and "w_next w' = w_next w" "w_reqs w' = w_reqs w"
      "w_bufs w' = (w_bufs w)(d := concat parts @ drop (length parts * unat len) (w_bufs w d))"
    by (auto simp: same_memory_def)
  with calls assms(3,4,8) show ?thesis
    by (simp add: oob_exchange_def raw_read_def cstr_oob_key io_bind_def io_call_def io_seq_def)
qed

section \<open>The callbacks\<close>

text \<open>C15: The out-of-band allgather assembles the contributions of all ranks in rank order at the
  destination, leaves everything else in memory as it was and reports success; the request it
  hands out tests as complete until it is freed, and using it after that is undefined.\<close>

theorem oob_allgather_assembles_in_rank_order:
  assumes "store_publishes B (oob_client st) (take (unat len) (w_bufs w s)) delivered"
    and "store_delivers B (oob_client st) parts delivered"
    and "unat (oob_size st) = length parts" and "\<forall>c \<in> set parts. length c = unat len" and "len \<noteq> 0"
    and "length parts * unat len < 2 ^ 64" and "length parts * unat len \<le> length (w_bufs w d)"
    and "unat len \<le> length (w_bufs w s)"
  shows "\<exists>w' w''. allgather B (Some s) (Some d) len (Some st) True w = Some ((0, Some (w_next w)), w') \<and>
    w_bufs w' = (w_bufs w)(d := concat parts @ drop (length parts * unat len) (w_bufs w d)) \<and>
    req_test (Some (w_next w)) w' = Some (0, w') \<and>
    req_free (Some (w_next w)) w' = Some (0, w'') \<and>
    req_test (Some (w_next w)) w'' = None \<and> req_free (Some (w_next w)) w'' = None"
proof -
  obtain v where "oob_exchange B st s d len w = Some (Ok (), v)" "w_next v = w_next w" "w_reqs v = w_reqs w"
    "w_bufs v = (w_bufs w)(d := concat parts @ drop (length parts * unat len) (w_bufs w d))"
    using oob_exchange_Ok [OF assms(1,2) refl assms(3,4,6,7,8)] by blast
  with assms(5) show ?thesis by (simp add: allgather_def Let_def req_test_def req_free_def)
qed

text \<open>A store in which rank 1 published another value.\<close>

definition sample_job_bindings :: "sample_ext bindings" where
  "sample_job_bindings = sample_bindings\<lparr>pmix := sample_pmix\<lparr>pmix_get_value := (\<lambda>p key.
     if p = 1 \<and> key = OOB_KEY then s_value [7, 8] else s_get_value p key)\<rparr>\<rparr>"

definition sample_delivered :: "sample_world \<Rightarrow> bool" where
  "sample_delivered w \<longleftrightarrow> se_kvs (w_ext w) (butlast OOB_KEY) = Some [1, 2]"

lemma OOB_KEY_not_size: "OOB_KEY \<noteq> [9]"
  by (simp add: OOB_KEY_def cstr_def)

lemma sample_job_publishes: "store_publishes sample_job_bindings client [1, 2] sample_delivered"
  by (simp add: store_publishes_def sample_job_bindings_def s_value_def on_ext_def s_ok_def
      sample_delivered_def same_memory_def)

lemma sample_job_delivers: "store_delivers sample_job_bindings client [[1, 2], [7, 8]] sample_delivered"
  by (auto simp: store_delivers_def sample_job_bindings_def s_value_def on_ext_def s_ok_def less_Suc_eq
      sample_delivered_def same_memory_def s_get_value_def OOB_KEY_not_size)

theorem oob_allgather_assembles_in_rank_order_witness:
  "\<exists>w'. allgather sample_job_bindings (Some 0) (Some 1) 2 (Some \<lparr>oob_client = 9, oob_rank = 0, oob_size = 2\<rparr>)
      True (sample_world0\<lparr>w_bufs := (\<lambda>_. [])(0 := [1, 2], 1 := [0, 0, 0, 0]), w_next := 2\<rparr>) =
    Some ((0, Some 2), w') \<and> w_bufs w' 1 = [1, 2, 7, 8]"
  using oob_allgather_assembles_in_rank_order [of sample_job_bindings "\<lparr>oob_client = 9, oob_rank = 0, oob_size = 2\<rparr>"
      2 "sample_world0\<lparr>w_bufs := (\<lambda>_. [])(0 := [1, 2], 1 := [0, 0, 0, 0]), w_next := 2\<rparr>" 0
      sample_delivered "[[1, 2], [7, 8]]" 1]
    sample_job_publishes sample_job_delivers by auto

text \<open>Whatever the store does, the callback reports what happened: with a null argument, no
  place for the request or an empty contribution it refuses without any effect; otherwise it
  returns 0 or -1 and hands out a fresh request that carries exactly that status.\<close>

lemma oob_allgather_reports:
  assumes "allgather B src dst len info request w = Some ((status, r), w')"
  shows "if src = None \<or> dst = None \<or> info = None \<or> \<not> request \<or> len = 0
    then status = -27 \<and> r = None \<and> w' = w
    else (status = 0 \<or> status = -1) \<and> r \<noteq> None \<and> req_test r w' = Some (status, w') \<and>
      (status = 0 \<longleftrightarrow> (\<exists>v. oob_exchange B (the info) (the src) (the dst) len w = Some (Ok (), v)))"
  using assms
  by (auto simp: allgather_def req_test_def Let_def split: option.splits outcome.splits if_splits)

lemma oob_allgather_reports_witness:
  "\<exists>status n w'. allgather sample_bindings (Some 0) (Some 1) 2 (Some \<lparr>oob_client = 9, oob_rank = 0, oob_size = 1\<rparr>)
      True (sample_world0\<lparr>w_bufs := (\<lambda>_. [1, 2]), w_next := 2\<rparr>) = Some ((status, Some n), w') \<and>
    req_test (Some n) w' = Some (status, w')"
proof -
  let ?call = "allgather sample_bindings (Some 0) (Some 1) 2 (Some \<lparr>oob_client = 9, oob_rank = 0, oob_size = 1\<rparr>)
      True (sample_world0\<lparr>w_bufs := (\<lambda>_. [1, 2]), w_next := 2\<rparr>)"
  have "?call \<noteq> None"
    by (simp add: allgather_def oob_exchange_def raw_read_def raw_write_def cstr_oob_key io_bind_def
        io_call_def io_seq_def io_step_def eval_calls s_get_value_def OOB_KEY_not_size mul_op_Ok)
  then obtain status r w' where call: "?call = Some ((status, r), w')" by auto
  from oob_allgather_reports [OF call] call show ?thesis by auto
qed

end
