(* ===== verification/Request_Properties.thy ===== *)
theory Request_Properties
  imports Sample
begin

text \<open>
  The life of a request of a non-blocking collective, and what the collectives do with an empty
  buffer.
\<close>

lemma completed_request:
  assumes "cr_op q = None"
  shows "request_test B (q, v) = (Ok True, (q, v))" and "request_wait B (q, v) = Some (Ok (), (q, v))"
proof -
  show test: "request_test B (q, v) = (Ok True, (q, v))" using assms by (simp add: request_test_def)
  then show "request_wait B (q, v) = Some (Ok (), (q, v))"
    unfolding request_wait_def by (subst poll_loop_step) (simp add: request_wait_body_def)
qed

text \<open>C33: The life of a request: a pending test leaves the request as it was and its result is not
  available; a test that succeeds completes it; a completed request stays completed, its tests and
  waits succeed at once and have no effect.\<close>

theorem request_life_cycle:
  assumes "request_test B (q, w) = (r, (q', w'))"
  shows "(r = Ok True \<longrightarrow> cr_op q' = None) \<and>
    (r = Ok False \<longrightarrow> q' = q \<and> cr_op q' \<noteq> None) \<and>
    (cr_op q' \<noteq> None \<longrightarrow> q' = q \<and>
       request_result T q' v = Err (Usage ''collective request is not complete'')) \<and>
    (cr_op q' = None \<longrightarrow> q' = q\<lparr>cr_op := None\<rparr> \<and> request_test B (q', v) = (Ok True, (q', v)) \<and>
       request_wait B (q', v) = Some (Ok (), (q', v)))"
proof (cases "cr_op q")
  case None
  then have "q\<lparr>cr_op := None\<rparr> = q" by (cases q) simp
  with None assms show ?thesis by (auto simp: request_test_def completed_request)
next
  case (Some coll)
  have "fst (request_copy_back q1 w2) \<noteq> Ok False" for q1 and w2 :: "'a world"
    by (auto simp: request_copy_back_def outcome_bind_eq_Ok split: option.splits prod.splits)
  then have "request_copy_back q1 w2 \<noteq> (Ok False, w3)" for q1 and w2 w3 :: "'a world"
    by (metis fst_conv)
  with Some assms show ?thesis
    by (auto simp: request_test_def request_result_def Let_def completed_request
        split: prod.splits sum.splits if_splits)
qed

theorem request_life_cycle_witness:
  "request_wait sample_bindings (\<lparr>cr_op = None, cr_context = 31, cr_buffers = [], cr_destination = None,
       cr_result_index = None\<rparr>, sample_world0) =
     Some (Ok (), (\<lparr>cr_op = None, cr_context = 31, cr_buffers = [], cr_destination = None,
       cr_result_index = None\<rparr>, sample_world0))"
proof -
  let ?q = "request_new 31 5 [] None None :: sample_ext collective_request"
  have "request_test sample_bindings (?q, sample_world0) =
      (Ok True, (?q\<lparr>cr_op := None\<rparr>, release sample_bindings (R_Coll 5) sample_world0))"
    by (simp add: request_test_def request_new_def request_copy_back_def s_ok_def Let_def
        sample_world0_def sample_ext0_def)
  from request_life_cycle [OF this, of "pod_u32 Little" sample_world0]
  show ?thesis by (simp add: request_new_def)
qed

text \<open>C37: An error at completion is reported once: when finalising the operation or copying the
  result back fails, the test returns that error, but the request is then complete, and every
  later test or wait reports success although the destination was not filled.\<close>

theorem failed_completion_is_reported_once:
  assumes "cr_op q = Some coll" and "coll_status (ucc B) coll w = (ucc_ok (ucc B), w1)"
    and "ucc_codes B"
    and "coll_finalize (ucc B) coll w1 = (Inl e, w2)"
  shows "request_test B (q, w) = (Err (Ucc e), (q\<lparr>cr_op := None\<rparr>, release B (R_Coll coll) w2)) \<and>
    request_wait B (q, w) = Some (Err (Ucc e), (q\<lparr>cr_op := None\<rparr>, release B (R_Coll coll) w2)) \<and>
    request_wait B (q\<lparr>cr_op := None\<rparr>, v) = Some (Ok (), (q\<lparr>cr_op := None\<rparr>, v))"
proof -
  have test: "request_test B (q, w) = (Err (Ucc e), (q\<lparr>cr_op := None\<rparr>, release B (R_Coll coll) w2))"
    using assms by (simp add: request_test_def ucc_codes_def map_ucc_def Let_def)
  then have "request_wait B (q, w) = Some (Err (Ucc e), (q\<lparr>cr_op := None\<rparr>, release B (R_Coll coll) w2))"
    unfolding request_wait_def by (subst poll_loop_step) (simp add: request_wait_body_def)
  with test show ?thesis by (simp add: completed_request)
qed

text \<open>A library that cannot initialise or finalise an operation.\<close>

definition sample_failing :: "sample_ext bindings" where
  "sample_failing = sample_bindings\<lparr>ucc := sample_ucc
     \<lparr>coll_init := (\<lambda>_ _ w. (Inl (-5), w)), coll_finalize := (\<lambda>_ w. (Inl (-3), w))\<rparr>\<rparr>"

theorem failed_completion_is_reported_once_witness:
  "\<exists>q t. request_wait sample_failing (request_new 31 5 [0] (Some (typed_destination (pod_u32 Little) 1 1)) None,
       sample_world0) = Some (Err (Ucc (-3)), (q, t)) \<and>
     request_wait sample_failing (q, t) = Some (Ok (), (q, t))"
proof -
  let ?q = "request_new 31 5 [0] (Some (typed_destination (pod_u32 Little) 1 1)) None :: sample_ext collective_request"
  have "cr_op ?q = Some 5" by (simp add: request_new_def)
  moreover have "coll_status (ucc sample_failing) 5 sample_world0 = (ucc_ok (ucc sample_failing), sample_world0)"
    and "ucc_codes sample_failing"
    and "coll_finalize (ucc sample_failing) 5 sample_world0 = (Inl (-3), sample_world0)"
    by (simp_all add: sample_failing_def sample_world0_def sample_ext0_def ucc_codes_def)
  ultimately show ?thesis using failed_completion_is_reported_once by blast
qed

lemma encode_Nil: "encode T [] = Ok []"
  by (simp add: encode_def checked_mul_def isize_max_def)

text \<open>C40: An empty slice: the non-blocking reduction refuses it without any effect, the blocking one
  hands it to UCC like any other and returns whatever UCC makes of it.\<close>

theorem blocking_reduce_posts_empty_slices:
  assumes "pod_reduction_supported T rop" and "ready s st" and "st_collectives st = Some rt"
    and "coll_init (ucc B) (reduce_args T (w_next (sy_world s)) 0 rop) (rt_team rt)
      (snd (buf_new [] (sy_world s))) = (Inl e, w1)"
  shows "reduce B T rop d 0 s = Some (Err (Ucc e), s\<lparr>sy_world := w1\<rparr>) \<and>
    reduce_nb B T rop d 0 s = Some (Err (Usage ''collective buffer must be non-empty''), s)"
proof -
  let ?w = "snd (buf_new [] (sy_world s))"
  have "encode_slice T d 0 s = Some (Ok (w_next (sy_world s)), s\<lparr>sy_world := ?w\<rparr>)"
    by (simp add: encode_slice_def outside_lock_Ok io_ok_simps slice_values_def encode_Nil buf_new_def)
  moreover have "with_runtime (\<lambda>rt. io_bind (coll_start B rt (reduce_args T (w_next (sy_world s)) 0 rop))
      (coll_wait B (rt_context rt))) (s\<lparr>sy_world := ?w\<rparr>) = Some (Err (Ucc e), s\<lparr>sy_world := w1\<rparr>)"
    using assms(2,3,4)
    by (cases s) (simp add: with_runtime_def with_state_def with_lock_def ready_def io_bind_def
        coll_start_def ucc_call_def io_call_def map_ucc_def)
  ultimately show ?thesis
    using assms(1) by (simp add: reduce_def reduce_nb_def io_bind_def io_seq_def io_err_def)
qed

theorem blocking_reduce_posts_empty_slices_witness:
  "\<exists>w. reduce sample_failing (pod_u32 Little) Op_Sum 0 0 sample_sys = Some (Err (Ucc (-5)), sample_sys\<lparr>sy_world := w\<rparr>) \<and>
     reduce_nb sample_failing (pod_u32 Little) Op_Sum 0 0 sample_sys =
       Some (Err (Usage ''collective buffer must be non-empty''), sample_sys)"
proof -
  obtain rt where rt: "st_collectives sample_state = Some rt" by (simp add: sample_state_def)
  have "pod_reduction_supported (pod_u32 Little) Op_Sum"
    by (simp add: pod_u32_def pod_impl_def integer_reduction_def)
  from blocking_reduce_posts_empty_slices [OF this sample_ready rt, where B = sample_failing and e = "-5" and d = 0]
  show ?thesis by (auto simp: sample_failing_def)
qed

end
