(* ===== verification/Ledger.thy ===== *)
theory Ledger
  imports Reach
begin

text \<open>
  Resource accounting. A ledger counts what the process obtained from the bindings and has not
  given back: every constructor of a binding adds one, every destructor and the disconnection of
  the PMIx client take one away. The lemmas follow initialisation step by step and compare, on
  success, what was added with what the destructors of the result will take away, and, on an
  error, with nothing. The client and the callback state are dropped by reference counting and
  \<open>Box\<close>; what counts for the client is its session, which only \<open>disconnect\<close> ends.
\<close>

type_synonym account = "resource \<Rightarrow> int"

fun tracked :: "resource \<Rightarrow> bool" where
  "tracked R_Oob = False"
| "tracked (R_Client _) = False"
| "tracked _ = True"

definition one :: "resource \<Rightarrow> account" where
  "one r x = (if x = r then 1 else 0)"

text \<open>What the destructors of a list of resources take away.\<close>

definition held :: "resource list \<Rightarrow> account" where
  "held rs x = (if tracked x then int (count_list rs x) else 0)"

lemma held_simps [simp]:
  "held [] x = 0"
  "held (r # rs) x = (if tracked r then one r x else 0) + held rs x"
  "held (rs @ qs) x = held rs x + held qs x"
  by (auto simp: held_def one_def count_list_append)

text \<open>What one call of a binding does to the account.\<close>

definition neutral :: "('x world \<Rightarrow> account) \<Rightarrow> ('x world \<Rightarrow> 'r \<times> 'x world) \<Rightarrow> bool" where
  "neutral bal f \<longleftrightarrow> (\<forall>w. bal (snd (f w)) = bal w)"

definition makes :: "('x world \<Rightarrow> account) \<Rightarrow> ('a \<Rightarrow> resource) \<Rightarrow> ('x, 'f, 'a) call \<Rightarrow> bool" where
  "makes bal R f \<longleftrightarrow> (\<forall>w x. bal (snd (f w)) x =
     bal w x + (case fst (f w) of Inl _ \<Rightarrow> 0 | Inr h \<Rightarrow> one (R h) x))"

definition destroys :: "('x world \<Rightarrow> account) \<Rightarrow> account \<Rightarrow> ('x world \<Rightarrow> 'x world) \<Rightarrow> bool" where
  "destroys bal C f \<longleftrightarrow> (\<forall>w x. bal (f w) x = bal w x - C x)"

text \<open>The bindings keep the ledger: constructors, destructors, and everything else. \<open>strict\<close>: every
  disconnection ends the session of the client, a failing one too.\<close>

definition ledger_contract :: "bool \<Rightarrow> 'x bindings \<Rightarrow> ('x world \<Rightarrow> account) \<Rightarrow> bool" where
  "ledger_contract strict B bal \<longleftrightarrow>
     (\<forall>r. destroys bal (\<lambda>x. if tracked r then one r x else 0) (release B r)) \<and>
     makes bal R_Client (pmix_connect_new (pmix B)) \<and>
     (strict \<longrightarrow> (\<forall>c. destroys bal (one (R_Client c)) (\<lambda>w. snd (pmix_disconnect (pmix B) c w)))) \<and>
     (\<forall>p q. makes bal R_Config (config_read (ucx B) p q)) \<and>
     (\<forall>c fs k n. makes bal R_Context (context_new (ucx B) c fs k n)) \<and>
     (\<forall>c m. makes bal R_Worker (worker_create (ucx B) c m)) \<and>
     (\<forall>raw w x. bal (snd (mt_worker_new (ucx B) raw w)) x = bal w x - one (R_Worker raw) x +
        (case fst (mt_worker_new (ucx B) raw w) of Inl _ \<Rightarrow> 0 | Inr h \<Rightarrow> one (R_Worker h) x)) \<and>
     (\<forall>n w a w'. alloc_words B n w = Some (a, w') \<longrightarrow> (\<forall>x. bal w' x = bal w x + one (R_Region a) x)) \<and>
     (\<forall>c a n. makes bal R_Memh (mem_map (ucx B) c a n)) \<and>
     (\<forall>wk a. makes bal R_Endpoint (worker_create_ep (ucx B) wk a)) \<and>
     (\<forall>ep bs. makes bal R_Rkey (rkey_unpack (ucx B) ep bs)) \<and>
     makes bal R_Ucc_Lib (ucc_lib_init (ucc B)) \<and>
     (\<forall>l. makes bal R_Ucc_Context (ucc_context_new (ucc B) l)) \<and>
     (\<forall>c n t. makes bal R_Team (ucc_team_with_params (ucc B) c n t)) \<and>
     (\<forall>wk. neutral bal (worker_pack_address (ucx B) wk)) \<and>
     (\<forall>c m. neutral bal (mem_pack_rkey (ucx B) c m)) \<and>
     (\<forall>c. neutral bal (pmix_require_rank (pmix B) c)) \<and>
     (\<forall>c pe. neutral bal (pmix_proc (pmix B) c pe)) \<and>
     (\<forall>p k. neutral bal (pmix_get_value (pmix B) p k)) \<and>
     (\<forall>bs. neutral bal (pmix_byte_object (pmix B) bs)) \<and>
     (\<forall>n. neutral bal (pmix_uint64_object (pmix B) n)) \<and>
     (\<forall>b. neutral bal (pmix_build (pmix B) b)) \<and>
     (\<forall>sc k v. neutral bal (pmix_put_value (pmix B) sc k v)) \<and>
     neutral bal (pmix_commit (pmix B)) \<and>
     (\<forall>p. neutral bal (pmix_fence (pmix B) p)) \<and>
     (\<forall>v. neutral bal (value_bytes_copy (pmix B) v)) \<and>
     (\<forall>v. neutral bal (value_uint64 (pmix B) v)) \<and>
     (\<forall>v. neutral bal (value_uint32 (pmix B) v))"

definition keeps_ledger :: "'x bindings \<Rightarrow> ('x world \<Rightarrow> account) \<Rightarrow> bool" where
  "keeps_ledger B bal \<longleftrightarrow> ledger_contract True B bal"

lemma ledgerD:
  assumes "ledger_contract strict B bal"
  shows "destroys bal (\<lambda>x. if tracked r then one r x else 0) (release B r)"
    and "makes bal R_Client (pmix_connect_new (pmix B))"
    and "strict \<Longrightarrow> destroys bal (one (R_Client c)) (\<lambda>w. snd (pmix_disconnect (pmix B) c w))"
    and "makes bal R_Config (config_read (ucx B) p q)"
    and "makes bal R_Context (context_new (ucx B) c fs k n)"
    and "makes bal R_Worker (worker_create (ucx B) c m)"
    and "bal (snd (mt_worker_new (ucx B) raw w)) x = bal w x - one (R_Worker raw) x +
        (case fst (mt_worker_new (ucx B) raw w) of Inl _ \<Rightarrow> 0 | Inr h \<Rightarrow> one (R_Worker h) x)"
    and "alloc_words B n' w = Some (a, w') \<Longrightarrow> bal w' x = bal w x + one (R_Region a) x"
    and "makes bal R_Memh (mem_map (ucx B) c a n)"
    and "makes bal R_Endpoint (worker_create_ep (ucx B) wk bs)"
    and "makes bal R_Rkey (rkey_unpack (ucx B) ep bs)"
    and "makes bal R_Ucc_Lib (ucc_lib_init (ucc B))"
    and "makes bal R_Ucc_Context (ucc_context_new (ucc B) l)"
    and "makes bal R_Team (ucc_team_with_params (ucc B) c nn t)"
  using assms by (simp_all add: ledger_contract_def)

lemma ledger_neutral:
  assumes "ledger_contract strict B bal"
  shows "neutral bal (worker_pack_address (ucx B) wk)" "neutral bal (mem_pack_rkey (ucx B) c mm)"
    "neutral bal (pmix_require_rank (pmix B) c)" "neutral bal (pmix_proc (pmix B) c pe)"
    "neutral bal (pmix_get_value (pmix B) p key)" "neutral bal (pmix_byte_object (pmix B) bs)"
    "neutral bal (pmix_uint64_object (pmix B) n)" "neutral bal (pmix_build (pmix B) b)"
    "neutral bal (pmix_put_value (pmix B) sc key v)" "neutral bal (pmix_commit (pmix B))"
    "neutral bal (pmix_fence (pmix B) p)" "neutral bal (value_bytes_copy (pmix B) v)"
    "neutral bal (value_uint64 (pmix B) v)" "neutral bal (value_uint32 (pmix B) v)"
  using assms by (simp_all add: ledger_contract_def)

section \<open>What a computation does to the account\<close>

text \<open>On success it adds \<open>F\<close> of the result, on an error \<open>D\<close> (under the strict contract); a panic is
  not followed.\<close>

definition accounts ::
  "bool \<Rightarrow> ('x world \<Rightarrow> account) \<Rightarrow> account \<Rightarrow> ('x world, 'e, 'a) io \<Rightarrow> ('a \<Rightarrow> account) \<Rightarrow> bool"
where
  "accounts strict bal D m F \<longleftrightarrow> (\<forall>w r w'. m w = Some (r, w') \<longrightarrow> (case r of
      Ok a \<Rightarrow> \<forall>x. bal w' x = bal w x + F a x
    | Err e \<Rightarrow> strict \<longrightarrow> (\<forall>x. bal w' x = bal w x + D x)
    | Panic \<Rightarrow> True))"

lemma accounts_Ok: "accounts strict bal D m F \<Longrightarrow> m w = Some (Ok a, w') \<Longrightarrow> bal w' x = bal w x + F a x"
  unfolding accounts_def by fastforce

lemma accounts_Err:
  "accounts strict bal D m F \<Longrightarrow> m w = Some (Err e, w') \<Longrightarrow> strict \<longrightarrow> (\<forall>x. bal w' x = bal w x + D x)"
  unfolding accounts_def by fastforce

lemma accounts_cong:
  assumes "accounts strict bal D m F" and "\<And>x. D x = D' x" and "\<And>a x. F a x = F' a x"
  shows "accounts strict bal D' m F'"
proof -
  have "D = D'" by (rule ext) (rule assms(2))
  moreover have "F = F'" by (intro ext) (rule assms(3))
  ultimately show ?thesis using assms(1) by simp
qed

lemma accounts_return: "(\<And>x. F a x = 0) \<Longrightarrow> accounts strict bal D (io_return a) F"
  by (simp add: accounts_def io_return_def)

lemma accounts_err: "(\<And>x. D x = 0) \<Longrightarrow> accounts strict bal D (io_err e) F"
  by (simp add: accounts_def io_err_def)

lemma accounts_bind:
  assumes m: "accounts strict bal D m F"
    and f: "\<And>a. accounts strict bal (\<lambda>x. D x - F a x) (f a) (\<lambda>b x. G b x - F a x)"
  shows "accounts strict bal D (io_bind m f) G"
  unfolding accounts_def
proof (intro allI impI)
  fix w r w'
  assume run: "io_bind m f w = Some (r, w')"
  show "case r of Ok a \<Rightarrow> \<forall>x. bal w' x = bal w x + G a x
      | Err e \<Rightarrow> strict \<longrightarrow> (\<forall>x. bal w' x = bal w x + D x) | Panic \<Rightarrow> True"
  proof (cases rule: io_result_cases [of m w, case_names never ok err panic])
    case (ok a v)
    with run have "f a v = Some (r, w')" by (simp add: io_bind_Ok)
    with f [of a] accounts_Ok [OF m ok] show ?thesis
      unfolding accounts_def by (cases r) fastforce+
  next
    case (err e v)
    with accounts_Err [OF m err] run show ?thesis by (auto simp: io_bind_Err)
  qed (use run in \<open>auto simp: io_bind_None io_bind_Panic\<close>)
qed

lemma accounts_seq:
  assumes "accounts strict bal D m (\<lambda>_ _. 0)" and "accounts strict bal D n G"
  shows "accounts strict bal D (io_seq m n) G"
  unfolding io_seq_def by (rule accounts_bind [OF assms(1)]) (simp add: assms(2))

lemma accounts_on_fail:
  assumes "destroys bal C c" and "accounts strict bal (\<lambda>x. D x + C x) m F"
  shows "accounts strict bal D (io_on_fail c m) F"
  using assms unfolding accounts_def destroys_def io_on_fail_def
  by (auto split: option.splits outcome.splits) force

lemma accounts_on_err:
  assumes "strict \<Longrightarrow> destroys bal C c" and "accounts strict bal (\<lambda>x. D x + C x) m F"
  shows "accounts strict bal D (io_on_err c m) F"
  using assms unfolding accounts_def destroys_def io_on_err_def
  by (auto split: option.splits outcome.splits) force

lemma accounts_makes:
  "makes bal R f \<Longrightarrow> (\<And>x. D x = 0) \<Longrightarrow> accounts strict bal D (io_call conv f) (\<lambda>h. one (R h))"
  by (auto simp: accounts_def makes_def io_call_def split: prod.splits sum.splits) (metis fst_conv snd_conv add_0_right old.sum.simps)+

lemma accounts_neutral:
  "neutral bal f \<Longrightarrow> (\<And>x. D x = 0) \<Longrightarrow> accounts strict bal D (io_call conv f) (\<lambda>_ _. 0)"
  "neutral bal g \<Longrightarrow> accounts strict bal D (io_step g) (\<lambda>_ _. 0)"
  by (auto simp: accounts_def neutral_def io_call_def io_step_def split: prod.splits sum.splits) (metis snd_conv)+

lemma accounts_effect: "destroys bal C c \<Longrightarrow> accounts strict bal D (io_effect c) (\<lambda>_ x. - C x)"
  by (simp add: accounts_def destroys_def io_effect_def)

lemma destroys_all:
  assumes "ledger_contract strict B bal"
  shows "destroys bal (held rs) (release_all B rs)"
proof -
  have "bal (fold (release B) rs w) x = bal w x - held rs x" for w x
  proof (induction rs arbitrary: w)
    case (Cons r rs)
    have "bal (release B r w) x = bal w x - (if tracked r then one r x else 0)"
      using ledgerD(1) [OF assms, of r] unfolding destroys_def by blast
    with Cons show ?case by simp
  qed simp
  then show ?thesis by (simp add: destroys_def release_all_def)
qed

section \<open>The steps of initialisation\<close>

lemma transport_new_accounts:
  assumes L: "ledger_contract strict B bal"
  shows "accounts strict bal (\<lambda>_. 0) (transport_new B n) (\<lambda>t. held (drop_transport t))"
proof -
  have mt: "accounts strict bal (\<lambda>x. - one (R_Worker raw) x) (io_call conv (mt_worker_new (ucx B) raw))
      (\<lambda>h x. one (R_Worker h) x - one (R_Worker raw) x)" for conv :: "ucx_status \<Rightarrow> error" and raw
  proof (unfold accounts_def, intro allI impI)
    fix w r w'
    assume "io_call conv (mt_worker_new (ucx B) raw) w = Some (r, w')"
    with ledgerD(7) [OF L, of raw w] show "case r of
        Ok h \<Rightarrow> \<forall>x. bal w' x = bal w x + (one (R_Worker h) x - one (R_Worker raw) x)
      | Err e \<Rightarrow> strict \<longrightarrow> (\<forall>x. bal w' x = bal w x + - one (R_Worker raw) x) | Panic \<Rightarrow> True"
      by (cases "mt_worker_new (ucx B) raw w"; cases "fst (mt_worker_new (ucx B) raw w)")
        (auto simp: io_call_def)
  qed
  show ?thesis
    unfolding transport_new_def ucx_call_def io_seq_def
    apply (rule accounts_bind [OF accounts_makes [OF ledgerD(4) [OF L]]], simp)
    apply (rule accounts_bind, rule accounts_on_fail [OF ledgerD(1) [OF L]],
        rule accounts_makes [OF ledgerD(5) [OF L]], simp)
    apply (rule accounts_bind, rule accounts_effect [OF ledgerD(1) [OF L]],
        rule accounts_on_fail [OF ledgerD(1) [OF L]])
    apply (rule accounts_bind [OF accounts_makes [OF ledgerD(6) [OF L]]], simp)
    apply (rule accounts_bind, rule accounts_on_fail [OF ledgerD(1) [OF L]],
        rule accounts_neutral(1) [OF ledger_neutral(1) [OF L]], simp)
    apply (rule accounts_bind, rule accounts_cong [OF mt], simp, rule refl)
    apply (rule accounts_return, simp add: drop_transport_def)
    done
qed

lemma accounts_ok:
  assumes "accounts True bal (\<lambda>_. 0) m (\<lambda>_ _. 0)"
  shows "accounts strict bal D (io_ok m) (\<lambda>_ _. 0)"
  using assms unfolding accounts_def io_ok_def
  by (auto split: option.splits outcome.splits) force+

lemma accounts_lift: "(\<And>x. D x = 0) \<Longrightarrow> accounts strict bal D (io_lift r) (\<lambda>_ _. 0)"
  by (auto simp: accounts_def io_lift_def split: outcome.splits)

lemma heap_new_accounts:
  assumes L: "ledger_contract strict B bal"
  shows "accounts strict bal (\<lambda>_. 0) (heap_new B ctx) (\<lambda>h. held (drop_heap h))"
proof -
  have region: "accounts strict bal (\<lambda>_. 0) (vec_zeroed_u64 B n) (\<lambda>p. one (R_Region (snd p)))" for n
    using ledgerD(8) [OF L] by (auto simp: accounts_def vec_zeroed_u64_def split: option.splits if_splits)
  have "accounts strict bal (\<lambda>_. 0) (heap_with_size B ctx sz) (\<lambda>h. held (drop_heap h))" for sz
    unfolding heap_with_size_def ucx_call_def Let_def
    apply (split if_split, intro conjI impI)
     apply (rule accounts_err, rule refl)
    apply (rule accounts_bind, rule accounts_lift, simp)+
    apply (rule accounts_bind, rule accounts_cong [OF region], simp, rule refl)
    apply (split prod.split, intro allI impI)
    apply (rule accounts_on_fail [OF ledgerD(1) [OF L]])
    apply (rule accounts_bind [OF accounts_makes [OF ledgerD(9) [OF L]]], simp)
    apply (rule accounts_on_fail [OF ledgerD(1) [OF L]])
    apply (rule accounts_bind, rule accounts_neutral(1) [OF ledger_neutral(2) [OF L]], simp)
    apply (rule accounts_return, simp add: drop_heap_def)
    done
  then show ?thesis by (simp add: accounts_def heap_new_def)
qed

lemma connect_peer_accounts:
  assumes L: "ledger_contract strict B bal"
  shows "accounts strict bal (\<lambda>_. 0) (connect_peer B client t pe) (\<lambda>p. held (drop_peer (snd p)))"
  unfolding connect_peer_def create_endpoint_def ucx_call_def pmix_call_def
  apply (rule accounts_bind [OF accounts_neutral(1) [OF ledger_neutral(4) [OF L]]], simp)
  apply ((rule accounts_bind [OF accounts_neutral(1) [OF ledger_neutral(5) [OF L]]], simp)
    | rule accounts_bind [OF accounts_neutral(2) [OF ledger_neutral(12) [OF L]]]
    | rule accounts_bind [OF accounts_neutral(2) [OF ledger_neutral(13) [OF L]]])+
  apply (split if_split, intro conjI impI)
   apply (rule accounts_err, simp)
  apply (rule accounts_bind [OF accounts_makes [OF ledgerD(10) [OF L]]], simp)
  apply (rule accounts_bind, rule accounts_on_fail [OF ledgerD(1) [OF L]],
      rule accounts_makes [OF ledgerD(11) [OF L]], simp)
  apply (rule accounts_return, simp add: drop_peer_def)
  done

text \<open>A connection that is inserted under a new rank adds its resources to the table's.\<close>

lemma held_concat: "held (concat rss) x = sum_list (map (\<lambda>rs. held rs x) rss)"
  by (induction rss) auto

lemma held_drop_peers_insert:
  "k \<notin> fst ` set m \<Longrightarrow> held (drop_peers (btree_insert k c m)) x = held (drop_peers m) x + held (drop_peer c) x"
  unfolding drop_peers_def btree_values_def
  by (induction k c m rule: btree_insert.induct) (auto simp: held_concat)

lemma connect_peers_accounts:
  assumes L: "ledger_contract strict B bal"
  shows "distinct pes \<Longrightarrow> set pes \<inter> fst ` set (bs_peers b) = {} \<Longrightarrow>
    accounts strict bal (\<lambda>x. - held (drop_peers (bs_peers b)) x) (connect_peers B client t pes b)
      (\<lambda>b' x. held (drop_peers (bs_peers b')) x - held (drop_peers (bs_peers b)) x)"
proof (induction pes arbitrary: b)
  case Nil
  show ?case by (auto intro: accounts_return)
next
  case (Cons pe pes)
  have fresh: "pe \<notin> fst ` set (bs_peers b)" using Cons.prems by auto
  have "accounts strict bal (\<lambda>x. - held (drop_peers (bs_peers b)) x - held (drop_peer c) x)
      (connect_peers B client t pes \<lparr>bs_peer_rkeys = rk, bs_peers = btree_insert pe c (bs_peers b)\<rparr>)
      (\<lambda>b' x. held (drop_peers (bs_peers b')) x - held (drop_peers (bs_peers b)) x - held (drop_peer c) x)" for rk c
    using Cons.prems
    by (intro accounts_cong [OF Cons.IH])
      (auto simp: btree_insert_keys held_drop_peers_insert [OF fresh])
  then show ?case
    unfolding connect_peers.simps
    by (intro accounts_bind [OF accounts_on_fail [OF destroys_all [OF L]]]
        accounts_cong [OF connect_peer_accounts [OF L]]) (auto split: prod.split)
qed

lemma accounts_put_bytes:
  assumes L: "ledger_contract strict B bal"
  shows "accounts strict bal (\<lambda>_. 0) (put_bytes B k bs) (\<lambda>_ _. 0)"
  unfolding put_bytes_def pmix_raw_call_def
  by (rule accounts_bind [OF accounts_neutral(1) [OF ledger_neutral(6) [OF L]]], simp,
      rule accounts_bind [OF accounts_neutral(1) [OF ledger_neutral(8) [OF L]]], simp,
      rule accounts_cong [OF accounts_neutral(1) [OF ledger_neutral(9) [OF L], of "\<lambda>_. 0"]], simp_all)

lemma accounts_publish:
  assumes L: "ledger_contract strict B bal"
  shows "accounts strict bal (\<lambda>_. 0) (publish B client t h) (\<lambda>_ _. 0)"
  unfolding publish_def pmix_raw_call_def pmix_call_def
  by (rule accounts_seq [OF accounts_put_bytes [OF L]], rule accounts_seq [OF accounts_put_bytes [OF L]],
      rule accounts_bind [OF accounts_neutral(2) [OF ledger_neutral(7) [OF L]]],
      rule accounts_bind [OF accounts_neutral(1) [OF ledger_neutral(8) [OF L]]], simp,
      rule accounts_seq [OF accounts_neutral(1) [OF ledger_neutral(9) [OF L]]], simp,
      rule accounts_seq [OF accounts_neutral(1) [OF ledger_neutral(10) [OF L]]], simp,
      rule accounts_bind [OF accounts_neutral(1) [OF ledger_neutral(4) [OF L]]], simp,
      rule accounts_cong [OF accounts_neutral(1) [OF ledger_neutral(11) [OF L], of "\<lambda>_. 0"]], simp_all)

lemma distinct_peer_range: "distinct (peer_range sz)"
proof -
  have "inj_on (of_nat :: nat \<Rightarrow> u32) {0..<unat (ucast sz :: u32)}"
  proof (rule inj_onI)
    fix i j assume "i \<in> {0..<unat (ucast sz :: u32)}" "j \<in> {0..<unat (ucast sz :: u32)}"
      and eq: "(of_nat i :: u32) = of_nat j"
    moreover have "unat (ucast sz :: u32) < 2 ^ LENGTH(32)" by (rule unsigned_less)
    ultimately have "i < 2 ^ 32" "j < 2 ^ 32" by simp_all
    then show "i = j" using arg_cong [OF eq, of unat] by (simp add: unat_of_nat_len)
  qed
  then show ?thesis by (simp add: peer_range_def distinct_map)
qed

lemma handshake_accounts:
  assumes L: "ledger_contract strict B bal"
  shows "accounts strict bal (\<lambda>_. 0) (handshake B client t h sz) (\<lambda>b. held (drop_peers (bs_peers b)))"
  unfolding handshake_def
  apply (split if_split, intro conjI impI)
   apply (rule accounts_err, rule refl)
  apply (rule accounts_seq [OF accounts_publish [OF L]])
  apply (rule accounts_cong [OF connect_peers_accounts [OF L distinct_peer_range]])
    apply (simp_all add: btree_empty_def drop_peers_def btree_values_def)
  done

lemma job_size_accounts:
  assumes L: "ledger_contract strict B bal"
  shows "accounts strict bal D (job_size B client) (\<lambda>_ _. 0)"
proof -
  have env: "accounts strict bal D' (\<lambda>w. io_return (Option.bind (w_env w ''PMIX_SIZE'') parse_usize) w) (\<lambda>_ _. 0)" for D'
    by (simp add: accounts_def io_return_def)
  show ?thesis
    unfolding job_size_def
    apply (rule accounts_bind, rule accounts_ok)
     apply (rule accounts_bind [OF accounts_neutral(1) [OF ledger_neutral(4) [OF L]]], simp)
     apply (rule accounts_bind [OF accounts_neutral(1) [OF ledger_neutral(5) [OF L]]], simp)
     apply (rule accounts_bind [OF accounts_neutral(2) [OF ledger_neutral(14) [OF L]]])
     apply (rule accounts_return, simp)
    apply (rule accounts_cong [where D = D and F = "\<lambda>_ _. 0"])
      apply (split option.split, intro conjI allI impI)
       apply (rule env)
      apply (rule accounts_return, simp_all)
    done
qed

text \<open>The state that \<open>init\<close> builds: the account grows by what its destructors give back and by the
  session of the client; an error leaves the account as it was.\<close>

lemma init_state_accounts:
  assumes L: "ledger_contract strict B bal"
  shows "accounts strict bal (\<lambda>_. 0) (init_state B) (\<lambda>st x. held (drop_state st) x + one (R_Client (st_client st)) x)"
proof -
  have client: "destroys bal (\<lambda>_. 0) (release B (R_Client c))" for c
    using ledgerD(1) [OF L, of "R_Client c"] by simp
  have disconnect: "strict \<Longrightarrow> destroys bal (one (R_Client c)) (disconnect_ignored B c)" for c
    using ledgerD(3) [OF L] by (simp add: disconnect_ignored_def [abs_def])
  show ?thesis
    unfolding init_state_def pmix_call_def
    apply (rule accounts_bind [OF accounts_makes [OF ledgerD(2) [OF L]]], simp)
    apply (rule accounts_on_fail [OF client])
    apply (rule accounts_bind [OF accounts_neutral(2) [OF ledger_neutral(3) [OF L]]])
    apply (rule accounts_bind, rule accounts_on_err, erule disconnect,
        rule accounts_cong [OF transport_new_accounts [OF L]], simp, rule refl)
    apply (rule accounts_on_fail [OF destroys_all [OF L]])
    apply (rule accounts_bind, rule accounts_on_err, erule disconnect,
        rule accounts_cong [OF heap_new_accounts [OF L]], simp, rule refl)
    apply (rule accounts_on_fail [OF destroys_all [OF L]])
    apply (rule accounts_bind [OF job_size_accounts [OF L]])
    apply (split option.split, intro conjI allI impI)
     apply (rule accounts_on_err, erule disconnect, rule accounts_err, simp)
    apply (rule accounts_bind, rule accounts_on_err, erule disconnect,
        rule accounts_cong [OF handshake_accounts [OF L]], simp, rule refl)
    apply (rule accounts_return, simp add: drop_state_def)
    done
qed

lemma runtime_new_accounts:
  assumes L: "ledger_contract strict B bal"
  shows "accounts strict bal (\<lambda>_. 0) (runtime_new B client rank n) (\<lambda>rt. held (drop_runtime rt))"
proof -
  have free: "destroys bal (\<lambda>_. 0) (release B (R_Client c))" "destroys bal (\<lambda>_. 0) (release B R_Oob)" for c
    using ledgerD(1) [OF L, of "R_Client c"] ledgerD(1) [OF L, of R_Oob] by simp_all
  show ?thesis
    unfolding runtime_new_def ucc_call_def Let_def
    apply (rule accounts_bind, rule accounts_on_fail [OF free(1)], rule accounts_lift, simp)
    apply (rule accounts_on_fail [OF free(2)])
    apply (rule accounts_bind [OF accounts_makes [OF ledgerD(12) [OF L]]], simp)
    apply (rule accounts_on_fail [OF ledgerD(1) [OF L]])
    apply (rule accounts_bind [OF accounts_makes [OF ledgerD(13) [OF L]]], simp)
    apply (rule accounts_on_fail [OF ledgerD(1) [OF L]])
    apply (rule accounts_bind [OF accounts_makes [OF ledgerD(14) [OF L]]], simp)
    apply (rule accounts_return, simp add: drop_runtime_def)
    done
qed

end
