(* ===== verification/Ledger_Properties.thy ===== *)
theory Ledger_Properties
  imports Ledger Sample
begin

text \<open>
  No leaks: what initialisation obtained is given back when it fails, is what the destructors of
  the state give back when it succeeds, and is all gone after finalisation.
\<close>

lemma init_account:
  assumes L: "ledger_contract strict B bal" and "\<not> sy_poisoned s" and "sy_state s = None"
    and run: "init B c s = Some (r, t)"
  shows "case r of
      Ok _ \<Rightarrow> \<exists>st. ready t st \<and> (\<forall>x. bal (sy_world t) x =
        bal (sy_world s) x + held (drop_state st) x + one (R_Client (st_client st)) x)
    | Err e \<Rightarrow> strict \<longrightarrow> (\<forall>x. bal (sy_world t) x = bal (sy_world s) x)
    | Panic \<Rightarrow> True"
proof (cases rule: io_result_cases [of "init_state B" "sy_world s", case_names never ok err panic])
  case (ok st w)
  have st: "bal w x = bal (sy_world s) x + held (drop_state st) x + one (R_Client (st_client st)) x" for x
    using accounts_Ok [OF init_state_accounts [OF L] ok, of x] by simp
  have none: "st_collectives st = None"
    using ok unfolding init_state_def by (auto simp: io_ok_simps split: option.splits)
  from ok run assms(2,3) have inst: "install B c st w = Some (r, sy_state t, sy_world t)" "\<not> sy_poisoned t \<or> r = Panic"
    by (auto simp: init_def with_lock_def split: option.splits)
  show ?thesis
  proof (cases c)
    case False
    with inst have "r = Ok ()" "sy_state t = Some st" "sy_world t = w" "\<not> sy_poisoned t"
      by (auto simp: install_def)
    with st show ?thesis by (auto simp: ready_def)
  next
    case True
    note m = runtime_new_accounts [OF L, of "st_client st" "st_rank st" "st_size st"]
    show ?thesis
    proof (cases rule: io_result_cases [of "runtime_new B (st_client st) (st_rank st) (st_size st)" w,
        case_names never ok err panic])
      case (ok rt v)
      with True inst have "r = Ok ()" "sy_state t = Some (st\<lparr>st_collectives := Some rt\<rparr>)" "sy_world t = v"
        "\<not> sy_poisoned t" by (auto simp: install_def)
      with st none accounts_Ok [OF m ok] show ?thesis by (auto simp: ready_def drop_state_def)
    next
      case (err e v)
      with True inst(1) have r: "r = Err e" and t: "sy_world t = release_all B (drop_state st)
          (snd (pmix_disconnect (pmix B) (st_client st) v))"
        by (auto simp: install_def disconnect_ignored_def)
      have "strict \<longrightarrow> bal (sy_world t) x =
          bal v x - one (R_Client (st_client st)) x - held (drop_state st) x" for x
        unfolding t using destroys_all [OF L, of "drop_state st"] ledgerD(3) [OF L, where c = "st_client st"]
        by (simp add: destroys_def)
      with r st accounts_Err [OF m err] show ?thesis by simp
    qed (use True inst in \<open>auto simp: install_def\<close>)
  qed
next
  case (err e w)
  with run assms(2,3) accounts_Err [OF init_state_accounts [OF L] err] show ?thesis
    by (auto simp: init_def with_lock_def)
qed (use run assms(2,3) in \<open>auto simp: init_def with_lock_def\<close>)

text \<open>A disconnection that succeeds ends the session of the client; what a failing one does to that
  session is left open, but it touches no other resource.\<close>

definition disconnect_ends :: "'x bindings \<Rightarrow> ('x world \<Rightarrow> account) \<Rightarrow> bool" where
  "disconnect_ends B bal \<longleftrightarrow> (\<forall>c w x. (case pmix_disconnect (pmix B) c w of
      (Inr _, w') \<Rightarrow> bal w' x = bal w x - one (R_Client c) x
    | (Inl _, w') \<Rightarrow> x \<noteq> R_Client c \<longrightarrow> bal w' x = bal w x))"

lemma disconnect_endsD:
  "disconnect_ends B bal \<Longrightarrow> case pmix_disconnect (pmix B) c w of
      (Inr _, w') \<Rightarrow> bal w' x = bal w x - one (R_Client c) x
    | (Inl _, w') \<Rightarrow> x \<noteq> R_Client c \<longrightarrow> bal w' x = bal w x"
  unfolding disconnect_ends_def by (elim allE)

lemma finalize_account:
  assumes L: "ledger_contract False B bal" and ends: "disconnect_ends B bal" and "ready s st"
    and run: "finalize B s = Some (r, t)" and x: "r = Ok () \<or> x \<noteq> R_Client (st_client st)"
  shows "bal (sy_world t) x = bal (sy_world s) x - one (R_Client (st_client st)) x - held (drop_state st) x"
  using run
proof (cases rule: finalize_cases)
  case (finished st')
  with assms(3) have st': "st' = st" by (simp add: ready_def)
  obtain d w where d: "pmix_disconnect (pmix B) (st_client st) (sy_world s) = (d, w)" by (cases "pmix_disconnect (pmix B) (st_client st) (sy_world s)")
  have "bal w x = bal (sy_world s) x - one (R_Client (st_client st)) x"
  proof (cases d)
    case (Inl e)
    with x finished(6) st' d have "x \<noteq> R_Client (st_client st)" by auto
    moreover have "x \<noteq> R_Client (st_client st) \<longrightarrow> bal w x = bal (sy_world s) x"
      using disconnect_endsD [OF ends, where c = "st_client st" and w = "sy_world s" and x = x] d Inl by simp
    ultimately show ?thesis by (simp add: one_def)
  next
    case (Inr u)
    then show ?thesis
      using disconnect_endsD [OF ends, where c = "st_client st" and w = "sy_world s" and x = x] d by simp
  qed
  with finished(5) st' d show ?thesis
    using destroys_all [OF L, of "drop_state st"] by (simp add: destroys_def)
qed (use assms(3) in \<open>simp_all add: ready_def\<close>)

text \<open>C9: A failed initialisation leaks nothing and frees nothing twice: on an error at any step every
  resource obtained from the bindings was given back exactly once, the session of the client
  included (\<open>keeps_ledger\<close> counts it as over once \<open>disconnect\<close> was called); on success the account grew exactly by what the destructors of the state and the
  disconnection will give back.\<close>

theorem init_balances_its_resources:
  assumes "keeps_ledger B bal" and "\<not> sy_poisoned s" and "sy_state s = None"
    and "init B c s = Some (r, t)"
  shows "case r of
      Ok _ \<Rightarrow> \<exists>st. ready t st \<and> (\<forall>x. bal (sy_world t) x =
        bal (sy_world s) x + held (drop_state st) x + one (R_Client (st_client st)) x)
    | Err e \<Rightarrow> bal (sy_world t) = bal (sy_world s)
    | Panic \<Rightarrow> sy_poisoned t"
proof (cases r)
  case Panic
  from assms(4) show ?thesis by (cases rule: init_cases) (simp_all add: Panic)
qed (use init_account [OF assms(1) [unfolded keeps_ledger_def] assms(2-4)] in auto)

text \<open>C16: A session returns everything: after initialisation and finalisation the state is gone and
  the account of every resource is where it was before, except that the session of the client is
  over only when its disconnection succeeded, which the result of \<open>finalize\<close> says: what a failed
  disconnection leaves of that session is up to PMIx.\<close>

theorem session_returns_everything:
  assumes "ledger_contract False B bal" and "disconnect_ends B bal" and "\<not> sy_poisoned s" and "sy_state s = None"
    and "init B c s = Some (Ok (), t)" and "finalize B t = Some (r, u)"
  shows "sy_state u = None \<and> (\<exists>st. sy_state t = Some st \<and>
    (\<forall>x. r = Ok () \<or> x \<noteq> R_Client (st_client st) \<longrightarrow> bal (sy_world u) x = bal (sy_world s) x))"
proof -
  obtain st where st: "ready t st" and "\<forall>x. bal (sy_world t) x =
      bal (sy_world s) x + held (drop_state st) x + one (R_Client (st_client st)) x"
    using init_account [OF assms(1,3-5)] by auto
  with finalize_account [OF assms(1,2) st assms(6)]
  have "\<forall>x. r = Ok () \<or> x \<noteq> R_Client (st_client st) \<longrightarrow> bal (sy_world u) x = bal (sy_world s) x" by auto
  moreover from assms(6) st have "sy_state u = None"
    by (cases rule: finalize_cases) (simp_all add: ready_def)
  ultimately show ?thesis using st by (auto simp: ready_def)
qed

section \<open>Bindings that count\<close>

text \<open>A job of one process whose bindings only keep the account.\<close>

definition on_account :: "(account \<Rightarrow> account) \<Rightarrow> account world \<Rightarrow> account world" where
  "on_account f w = w\<lparr>w_ext := f (w_ext w)\<rparr>"

definition add_one :: "resource \<Rightarrow> account \<Rightarrow> account" where
  "add_one r acc x = acc x + one r x"

definition sub_one :: "resource \<Rightarrow> account \<Rightarrow> account" where
  "sub_one r acc x = acc x - one r x"

definition c_make :: "(handle \<Rightarrow> resource) \<Rightarrow> handle \<Rightarrow> (account, 'f, handle) call" where
  "c_make R h w = (Inr h, on_account (add_one (R h)) w)"

definition c_ok :: "'a \<Rightarrow> (account, 'f, 'a) call" where
  "c_ok a w = (Inr a, w)"

definition counting_amo :: "(account, 'b) amo" where
  "counting_amo =
     \<lparr>amo_add = (\<lambda>_ _ _ _ _. c_ok None), amo_xor = (\<lambda>_ _ _ _ _. c_ok None),
      amo_swap = (\<lambda>_ _ _ _ _. c_ok None), amo_and = (\<lambda>_ _ _ _ _. c_ok None),
      amo_or = (\<lambda>_ _ _ _ _. c_ok None), amo_cswap = (\<lambda>_ _ _ _ _ _. c_ok None),
      amo_fadd = (\<lambda>_ _ _ _ _ _. c_ok 0), amo_fxor = (\<lambda>_ _ _ _ _ _. c_ok 0),
      amo_fswap = (\<lambda>_ _ _ _ _ _. c_ok 0), amo_fcswap = (\<lambda>_ _ _ _ _ _ _. c_ok 0)\<rparr>"

definition counting_ucx :: "account ucx" where
  "counting_ucx =
     \<lparr>ucx_is_err = (\<lambda>s. s < 0), config_read = (\<lambda>_ _. c_make R_Config 1),
      context_new = (\<lambda>_ _ _ _. c_make R_Context 2), worker_create = (\<lambda>_ _. c_make R_Worker 3),
      worker_pack_address = (\<lambda>_. c_ok [1, 2, 3]),
      mt_worker_new = (\<lambda>raw w. (Inr 4, on_account (sub_one (R_Worker raw) \<circ> add_one (R_Worker 4)) w)),
      worker_create_ep = (\<lambda>_ _. c_make R_Endpoint 5), worker_wait_request = (\<lambda>_ _. c_ok True),
      worker_fence = (\<lambda>_. c_ok ()), worker_progress = (\<lambda>_ w. w), request_free = (\<lambda>_ w. w),
      mem_map = (\<lambda>_ _ _. c_make R_Memh 6), mem_pack_rkey = (\<lambda>_ _. c_ok [1, 2, 3, 4]),
      rkey_unpack = (\<lambda>_ _. c_make R_Rkey 7), rma_put = (\<lambda>_ _ _ _. c_ok None),
      rma_get = (\<lambda>_ _ _ _. c_ok None), ep_flush = (\<lambda>_. c_ok None),
      fetch_check_finished = (\<lambda>_. c_ok True), fetch_free = (\<lambda>_ w. w),
      amo32 = counting_amo, amo64 = counting_amo\<rparr>"

definition counting_pmix :: "account pmix" where
  "counting_pmix =
     \<lparr>pmix_success = 0, pmix_generic = -1, pmix_from_raw = (\<lambda>_. None), rank_wildcard = -2,
      job_size_key = [9], scope_global = 3, pmix_connect_new = c_make R_Client 8,
      pmix_require_rank = (\<lambda>_ w. (0, w)),
      pmix_disconnect = (\<lambda>c w. (Inr (), on_account (sub_one (R_Client c)) w)),
      pmix_proc = (\<lambda>_ pe. c_ok (unat pe)), pmix_get_value = (\<lambda>_ _. c_ok 0),
      pmix_byte_object = (\<lambda>_. c_ok 0), pmix_uint64_object = (\<lambda>_ w. (0, w)), pmix_build = c_ok,
      pmix_put_value = (\<lambda>_ _ _. c_ok ()), pmix_commit = c_ok (), pmix_fence = (\<lambda>_. c_ok ()),
      value_bytes_copy = (\<lambda>_ w. ([1, 2, 3, 4], w)), value_uint64 = (\<lambda>_ w. (4096, w)),
      value_uint32 = (\<lambda>_ w. (1, w))\<rparr>"

definition counting_ucc :: "bool \<Rightarrow> account ucc" where
  "counting_ucc works =
     \<lparr>ucc_ok = 0, ucc_no_message = 1, ucc_from_raw = (\<lambda>n. n),
      ucc_lib_init = c_make R_Ucc_Lib 9, ucc_context_new = (\<lambda>_. c_make R_Ucc_Context 10),
      ucc_team_with_params = (\<lambda>_ _ _. if works then c_make R_Team 11 else (\<lambda>w. (Inl (-6), w))),
      ucc_team_size = (\<lambda>_. c_ok 1), coll_init = (\<lambda>_ _. c_ok 0), coll_post = (\<lambda>_. c_ok ()),
      coll_status = (\<lambda>_ w. (0, w)), coll_finalize = (\<lambda>_. c_ok ()), ucc_progress = (\<lambda>_ w. w)\<rparr>"

definition counting_bindings :: "bool \<Rightarrow> account bindings" where
  "counting_bindings works =
     \<lparr>ucx = counting_ucx, pmix = counting_pmix, ucc = counting_ucc works,
      alloc_words = (\<lambda>n w. Some (4096, on_account (add_one (R_Region 4096)) w)),
      release = (\<lambda>r w. if tracked r then on_account (sub_one r) w else w)\<rparr>"

lemmas counting_defs =
  counting_bindings_def counting_ucx_def counting_pmix_def counting_ucc_def c_make_def c_ok_def

lemma counting_ledger: "ledger_contract strict (counting_bindings works) w_ext"
  by (simp add: ledger_contract_def counting_defs makes_def destroys_def neutral_def on_account_def
      add_one_def sub_one_def)

lemma counting_keeps_ledger: "keeps_ledger (counting_bindings works) w_ext"
  unfolding keeps_ledger_def by (rule counting_ledger)

definition counting_start :: "account sys" where
  "counting_start = \<lparr>sy_poisoned = False, sy_state = None, sy_world =
     \<lparr>w_env = [''SHMEM_SYMMETRIC_SIZE'' \<mapsto> ''128''], w_bufs = (\<lambda>_. []), w_next = 0,
      w_reqs = Map.empty, w_ext = (\<lambda>_. 0)\<rparr>\<rparr>"

lemma counting_sel:
  "ucx (counting_bindings works) = counting_ucx" "pmix (counting_bindings works) = counting_pmix"
  "ucc (counting_bindings works) = counting_ucc works"
  "alloc_words (counting_bindings works) n w = Some (4096, on_account (add_one (R_Region 4096)) w)"
  "release (counting_bindings works) r w = (if tracked r then on_account (sub_one r) w else w)"
  by (simp_all add: counting_bindings_def)

lemma counting_calls:
  "config_read counting_ucx p q = c_make R_Config 1" "context_new counting_ucx c fs k n = c_make R_Context 2"
  "worker_create counting_ucx c m = c_make R_Worker 3" "worker_pack_address counting_ucx wk = c_ok [1, 2, 3]"
  "mt_worker_new counting_ucx raw w = (Inr 4, on_account (sub_one (R_Worker raw) \<circ> add_one (R_Worker 4)) w)"
  "worker_create_ep counting_ucx wk a = c_make R_Endpoint 5" "mem_map counting_ucx c ad sz = c_make R_Memh 6"
  "mem_pack_rkey counting_ucx c mh = c_ok [1, 2, 3, 4]" "rkey_unpack counting_ucx ep bs = c_make R_Rkey 7"
  "job_size_key counting_pmix = [9]" "pmix_connect_new counting_pmix = c_make R_Client 8"
  "pmix_require_rank counting_pmix cl w = (0, w)"
  "pmix_disconnect counting_pmix cl w = (Inr (), on_account (sub_one (R_Client cl)) w)"
  "pmix_proc counting_pmix cl pe = c_ok (unat pe)" "pmix_get_value counting_pmix pr key = c_ok 0"
  "pmix_byte_object counting_pmix bs = c_ok 0" "pmix_uint64_object counting_pmix u w = (0, w)"
  "pmix_build counting_pmix b = c_ok b" "pmix_put_value counting_pmix sc key v = c_ok ()"
  "pmix_commit counting_pmix = c_ok ()" "pmix_fence counting_pmix pr = c_ok ()"
  "value_bytes_copy counting_pmix v w = ([1, 2, 3, 4], w)" "value_uint64 counting_pmix v w = (4096, w)"
  "value_uint32 counting_pmix v w = (1, w)" "ucc_lib_init (counting_ucc works) = c_make R_Ucc_Lib 9"
  "ucc_context_new (counting_ucc works) l = c_make R_Ucc_Context 10"
  "ucc_team_with_params (counting_ucc works) cx u tb = (if works then c_make R_Team 11 else (\<lambda>w. (Inl (-6), w)))"
  by (simp_all add: counting_ucx_def counting_pmix_def counting_ucc_def)

lemmas eval_io =
  io_bind_def io_call_def io_step_def io_on_fail_def io_on_err_def io_seq_def io_effect_def io_return_def
  io_lift_def io_ok_def pmix_call_def ucx_call_def ucc_call_def pmix_raw_call_def

lemma counting_transport:
  "\<exists>t w'. transport_new (counting_bindings works) 1 w = Some (Ok t, w') \<and> w_env w' = w_env w"
  by (simp add: transport_new_def eval_io counting_sel counting_calls c_make_def c_ok_def on_account_def)

lemma counting_heap:
  assumes "w_env w ''SHMEM_SYMMETRIC_SIZE'' = Some ''128''"
  shows "\<exists>h w'. heap_new (counting_bindings works) c w = Some (Ok h, w')"
proof -
  have "heap_size_setting w = 128"
    using assms by (simp add: heap_size_setting_def parse_128 del: parse_usize.simps)
  then show ?thesis
    by (simp add: heap_new_def heap_with_size_steps vec_zeroed_u64_def isize_max_def eval_io
        counting_sel counting_calls c_make_def c_ok_def)
qed

lemma counting_handshake: "\<exists>b w'. handshake (counting_bindings works) c t h 1 w = Some (Ok b, w')"
  by (simp add: handshake_def publish_def put_bytes_def connect_peer_def create_endpoint_def peer_range_def
      eval_io counting_sel counting_calls c_make_def c_ok_def)

lemma counting_init:
  "\<exists>t. init (counting_bindings works) True counting_start =
     Some (if works then Ok () else Err (Ucc (-6)), t)"
proof -
  let ?B = "counting_bindings works" and ?w = "on_account (add_one (R_Client 8)) (sy_world counting_start)"
  obtain t w1 where t: "transport_new ?B 1 ?w = Some (Ok t, w1)" and "w_env w1 = w_env ?w"
    using counting_transport by blast
  then have "w_env w1 ''SHMEM_SYMMETRIC_SIZE'' = Some ''128''" by (simp add: counting_start_def on_account_def)
  then obtain h w2 where h: "heap_new ?B (tr_context t) w1 = Some (Ok h, w2)" using counting_heap by blast
  have size: "job_size ?B 8 w2 = Some (Ok (Some 1), w2)"
    by (simp add: job_size_def eval_io counting_sel counting_calls c_ok_def)
  obtain b w3 where b: "handshake ?B 8 t h 1 w2 = Some (Ok b, w3)" using counting_handshake by blast
  have client: "pmix_call ?B (pmix_connect_new (pmix ?B)) (sy_world counting_start) = Some (Ok 8, ?w)"
    by (simp add: pmix_call_def io_call_def counting_sel counting_calls c_make_def)
  have rank: "io_step (pmix_require_rank (pmix ?B) 8) ?w = Some (Ok 0, ?w)"
    by (simp add: io_step_def counting_sel counting_calls)
  have "\<exists>st. init_state ?B (sy_world counting_start) = Some (Ok st, w3) \<and> st_size st = 1"
    unfolding init_state_def
    by (simp add: io_bind_def io_on_fail_def io_on_err_def client rank t h size b io_return_def)
  then show ?thesis
    by (auto simp: init_def with_lock_def counting_start_def install_def runtime_new_def u32_try_from_def
        eval_io counting_sel counting_calls c_make_def map_ucc_def)
qed

theorem init_balances_its_resources_witness:
  "\<exists>t. init (counting_bindings False) True counting_start = Some (Err (Ucc (-6)), t) \<and>
     w_ext (sy_world t) = (\<lambda>_. 0)"
proof -
  obtain t where t: "init (counting_bindings False) True counting_start = Some (Err (Ucc (-6)), t)"
    using counting_init [of False] by auto
  have "\<not> sy_poisoned counting_start" "sy_state counting_start = None" by (simp_all add: counting_start_def)
  from init_balances_its_resources [OF counting_keeps_ledger this t] t show ?thesis
    by (simp add: counting_start_def)
qed

theorem session_returns_everything_witness:
  "\<exists>t u. init (counting_bindings True) True counting_start = Some (Ok (), t) \<and>
     finalize (counting_bindings True) t = Some (Ok (), u) \<and> w_ext (sy_world u) = (\<lambda>_. 0)"
proof -
  obtain t where t: "init (counting_bindings True) True counting_start = Some (Ok (), t)"
    using counting_init [of True] by auto
  have start: "\<not> sy_poisoned counting_start" "sy_state counting_start = None"
    by (simp_all add: counting_start_def)
  have ends: "disconnect_ends (counting_bindings True) w_ext"
    by (simp add: disconnect_ends_def counting_defs on_account_def sub_one_def)
  obtain st where "ready t st" using init_account [OF counting_ledger start t] by auto
  then obtain u where u: "finalize (counting_bindings True) t = Some (Ok (), u)"
    by (auto simp: finalize_def with_lock_def ready_def counting_sel counting_calls)
  from session_returns_everything [OF counting_ledger ends start t u] t u show ?thesis
    by (auto simp: counting_start_def)
qed

end
