(* ===== verification/Startup_Properties.thy ===== *)
theory Startup_Properties
  imports Sample
begin

text \<open>
  The construction of the symmetric heap at start-up: what each setting of its size leads to, and
  what a setting that is too large for an allocation does to the process.
\<close>

lemma heap_with_size_small: "unat sz < 8 \<Longrightarrow>
    heap_with_size B ctx sz = io_err (Usage ''symmetric heap is too small'')"
  by (simp add: heap_with_size_def ALIGNMENT_def word_less_nat_alt)

lemma heap_with_size_overflow:
  assumes "2 ^ 64 \<le> unat sz + 7"
  shows "heap_with_size B ctx sz = io_err (Usage ''symmetric heap size overflow'')"
proof -
  have "\<not> sz < ALIGNMENT" using assms by (simp add: ALIGNMENT_def word_less_nat_alt)
  moreover have "checked_add sz (SIZEOF_U64 - 1) = None" using assms by (simp add: SIZEOF_U64_def)
  ultimately show ?thesis by (simp add: heap_with_size_def del: checked_add_eq_None)
qed

lemma heap_with_size_capacity_panic:
  assumes "8 \<le> unat sz" and "unat sz + 7 < 2 ^ 64" and "isize_max < round_up8 (unat sz)"
  shows "heap_with_size B ctx sz w = Some (Panic, w)"
proof -
  have "isize_max < unat ((sz + 7) div 8) * 8"
    using assms(3) by (simp add: unat_pad_words [OF assms(2)] round_up8_def mult.commute)
  then show ?thesis
    by (simp add: heap_with_size_steps [OF assms(1,2)] io_bind_def vec_zeroed_u64_def)
qed

text \<open>C30: What every heap size leads to: below one word and at the end of the address space an
  error without any effect, above the largest Rust allocation a panic, and a heap that is built has
  exactly the size rounded up to whole words, all of it free in one block, in a region the
  allocator could provide.\<close>

theorem heap_size_setting_outcomes:
  assumes "alloc_contract B" and "n = unat (heap_size_setting w)"
  shows "(n < 8 \<longrightarrow> heap_new B ctx w = Some (Err (Usage ''symmetric heap is too small''), w)) \<and>
    (2 ^ 64 \<le> n + 7 \<longrightarrow> heap_new B ctx w = Some (Err (Usage ''symmetric heap size overflow''), w)) \<and>
    (8 \<le> n \<and> n + 7 < 2 ^ 64 \<and> isize_max < round_up8 n \<longrightarrow> heap_new B ctx w = Some (Panic, w)) \<and>
    (\<forall>h w'. heap_new B ctx w = Some (Ok h, w') \<longrightarrow> 8 \<le> n \<and> round_up8 n \<le> isize_max \<and>
       heap_capacity h = Ok (of_nat (round_up8 n)) \<and> heap_live h = Map.empty \<and>
       sh_free h = [\<lparr>blk_start = 0, blk_len = of_nat (round_up8 n)\<rparr>])"
proof (intro conjI allI impI)
  show "heap_new B ctx w = Some (Err (Usage ''symmetric heap is too small''), w)" if "n < 8"
    using that assms(2) by (simp add: heap_new_def heap_with_size_small io_err_def)
  show "heap_new B ctx w = Some (Err (Usage ''symmetric heap size overflow''), w)" if "2 ^ 64 \<le> n + 7"
    using that assms(2) by (simp add: heap_new_def heap_with_size_overflow io_err_def)
  show "heap_new B ctx w = Some (Panic, w)" if "8 \<le> n \<and> n + 7 < 2 ^ 64 \<and> isize_max < round_up8 n"
    using that assms(2) by (simp add: heap_new_def heap_with_size_capacity_panic)
next
  fix h w' assume "heap_new B ctx w = Some (Ok h, w')"
  then have built: "heap_with_size B ctx (heap_size_setting w) w = Some (Ok h, w')" by (simp add: heap_new_def)
  note fresh = heap_with_size_fresh [OF assms(1) built] and guards = heap_with_size_guards [OF built]
  have cap: "heap_cap h = round_up8 n" "sh_allocations h = Map.empty"
    "sh_free h = [\<lparr>blk_start = 0, blk_len = of_nat (round_up8 n)\<rparr>]"
    using fresh(1) assms(2) by (simp_all add: fresh_heap_def)
  show "8 \<le> n" using guards(1) assms(2) by simp
  show small: "round_up8 n \<le> isize_max"
  proof (rule ccontr)
    assume "\<not> ?thesis"
    with heap_with_size_capacity_panic [OF guards, of B ctx w] built assms(2) show False by simp
  qed
  show "heap_live h = Map.empty" by (rule ext) (metis cap(2) heap_live.elims option.map_disc_iff)
  have "unat (of_nat (length (sh_region h)) :: usize) = length (sh_region h)"
    and "unat (of_nat (round_up8 n) :: usize) = round_up8 n"
    using cap(1) small by (simp_all add: heap_cap_def isize_max_def unat_of_nat_len)
  then show "heap_capacity h = Ok (of_nat (round_up8 n))"
    using cap(1) by (simp add: heap_capacity_def heap_cap_def SIZEOF_U64_def)
  show "sh_free h = [\<lparr>blk_start = 0, blk_len = of_nat (round_up8 n)\<rparr>]" by (rule cap(3))
qed


lemma sample_oversized: "parse_usize ''9223372036854775808'' = Some 0x8000000000000000"
  by (simp add: digit_of_def checked_add_def checked_mul_def)

text \<open>A process whose environment asks for more than the largest allocation.\<close>

definition sample_greedy :: "sample_ext sys" where
  "sample_greedy = sample_start\<lparr>sy_world := sample_world0\<lparr>w_env := (w_env sample_world0)
     (''SHMEM_SYMMETRIC_SIZE'' \<mapsto> ''9223372036854775808'')\<rparr>\<rparr>"

lemma sample_greedy_setting:
  assumes "w_env w = w_env (sy_world sample_greedy)"
  shows "heap_size_setting w = 0x8000000000000000"
  using assms by (simp add: heap_size_setting_def sample_greedy_def sample_oversized del: parse_usize.simps)

theorem heap_size_setting_outcomes_witness:
  "heap_new sample_bindings 1 (sy_world sample_greedy) = Some (Panic, sy_world sample_greedy)"
  using heap_size_setting_outcomes [OF sample_alloc refl, of "sy_world sample_greedy" 1]
  by (simp add: sample_greedy_setting isize_max_def round_up8_def)

text \<open>C39: A heap size above the largest allocation panics in the middle of initialisation: the
  lifecycle lock is poisoned for good, and the PMIx client that was connected is dropped without
  the disconnection that every error of that step performs.\<close>

theorem oversized_heap_setting_poisons_init:
  assumes "\<not> sy_poisoned s" and "sy_state s = None"
    and "pmix_connect_new (pmix B) (sy_world s) = (Inr client, w1)"
    and "pmix_require_rank (pmix B) client w1 = (rank, w2)"
    and "transport_new B 1 w2 = Some (Ok tr, w3)"
    and "isize_max < unat (heap_size_setting w3)" and "unat (heap_size_setting w3) + 7 < 2 ^ 64"
  shows "init B c s = Some (Panic, \<lparr>sy_poisoned = True, sy_state = None,
    sy_world = release B (R_Client client) (release_all B (drop_transport tr) w3)\<rparr>)"
proof -
  have "isize_max < round_up8 (unat (heap_size_setting w3))"
    using assms(6) round_up8_bounds(2) [of "unat (heap_size_setting w3)"] by linarith
  then have heap: "heap_new B (tr_context tr) w3 = Some (Panic, w3)"
    using assms(6,7) unfolding heap_new_def by (intro heap_with_size_capacity_panic) (simp_all add: isize_max_def)
  have "init_state B (sy_world s) =
      Some (Panic, release B (R_Client client) (release_all B (drop_transport tr) w3))"
    unfolding init_state_def
    by (simp add: pmix_call_def io_bind_def io_call_def io_on_fail_def io_step_def io_on_err_def assms(3-5) heap)
  with assms(1,2) show ?thesis by (simp add: init_def with_lock_def)
qed

theorem oversized_heap_setting_poisons_init_witness:
  "\<exists>t. init sample_bindings True sample_greedy = Some (Panic, t) \<and> sy_poisoned t"
proof -
  have s: "\<not> sy_poisoned sample_greedy" "sy_state sample_greedy = None"
    by (simp_all add: sample_greedy_def sample_start_def)
  obtain client w1 where client: "pmix_connect_new (pmix sample_bindings) (sy_world sample_greedy) = (Inr client, w1)"
    and w1: "w_env w1 = w_env (sy_world sample_greedy)" by (simp add: eval_calls)
  have rank: "pmix_require_rank (pmix sample_bindings) client w1 = (0, w1)" by simp
  obtain tr w3 where tr: "transport_new sample_bindings 1 w1 = Some (Ok tr, w3)"
    and "w_env w3 = w_env w1" by (simp add: sample_transport)
  with w1 have "heap_size_setting w3 = 0x8000000000000000" by (intro sample_greedy_setting) simp
  then have "isize_max < unat (heap_size_setting w3)" "unat (heap_size_setting w3) + 7 < 2 ^ 64"
    by (simp_all add: isize_max_def)
  from oversized_heap_setting_poisons_init [OF s client rank tr this] show ?thesis by auto
qed

end
