(* ===== verification/Program_Properties.thy ===== *)
theory Program_Properties
  imports Example_Properties
begin

text \<open>
  The two programs of \<open>examples/\<close> as a whole: when the receiver of \<open>ping_put_get\<close> returns, and in
  which state the programs leave the process.
\<close>

section \<open>The receiving loop\<close>

text \<open>The process after the read of a round, and at the start of the \<open>k\<close>-th round, when no earlier
  round ended the loop.\<close>

definition after_read :: "'x bindings \<Rightarrow> endian \<Rightarrow> usize \<Rightarrow> usize \<Rightarrow> 'x sys \<Rightarrow> 'x sys" where
  "after_read B e rank off s = snd (the (get_typed B (pod_u64 e) rank off 1 s))"

definition next_round ::
  "'x bindings \<Rightarrow> endian \<Rightarrow> ('x world \<Rightarrow> 'x world) \<Rightarrow> usize \<Rightarrow> usize \<Rightarrow> 'x sys \<Rightarrow> 'x sys"
where
  "next_round B e resume rank off s =
     (let t = after_read B e rank off s in t\<lparr>sy_world := resume (sy_world t)\<rparr>)"

text \<open>The value is visible at address \<open>a\<close> behind an endpoint.\<close>

definition arrived :: "endian \<Rightarrow> u64 \<Rightarrow> ('x \<Rightarrow> handle \<Rightarrow> memory) \<Rightarrow> handle \<Rightarrow> 'x sys \<Rightarrow> bool" where
  "arrived e a visible ep s \<longleftrightarrow>
     mem_load a 8 (visible (w_ext (sy_world s)) ep) = slice_bytes (pod_u64 e) [VALUE]"

text \<open>The read of a round, when the memory contract of UCX holds; what the loop does with it.\<close>

lemma read_round:
  assumes rdy: "ready s st" and ucx: "ucx_memory B (tr_worker (st_transport st)) issued visible"
    and pe: "unat rank < 2 ^ 32" "btree_get (st_peers st) (ucast rank) = Some peer"
    and fits: "unat (pc_heap_base peer) + unat off + 8 < 2 ^ 64"
  obtains xs where "get_typed B (pod_u64 e) rank off 1 s = Some (Ok xs, after_read B e rank off s)"
    and "xs = [VALUE] \<longleftrightarrow> arrived e (pc_heap_base peer + off) visible (pc_endpoint peer) s"
    and "ready (after_read B e rank off s) st" and "ready (next_round B e resume rank off s) st"
proof -
  let ?T = "pod_u64 e" and ?a = "pc_heap_base peer + off"
  have size: "unat (pod_size ?T) = 8" by (simp add: pod_u64_def pod_impl_def)
  have T: "pod_codec ?T" by (rule u64.pod_codec_axioms)
  obtain xs w where get: "get_typed B ?T rank off (of_nat 1) s = Some (Ok xs, s\<lparr>sy_world := w\<rparr>)"
    and xs: "slice_bytes ?T xs = mem_load ?a (unat (pod_size ?T) * 1) (visible (w_ext (sy_world s)) (pc_endpoint peer))"
    by (rule get_typed_run [OF T rdy ucx pe, of 1 off]) (use fits size in \<open>simp_all add: isize_max_def\<close>)
  have read: "after_read B e rank off s = s\<lparr>sy_world := w\<rparr>" using get by (simp add: after_read_def)
  have "xs = [VALUE] \<longleftrightarrow> arrived e ?a visible (pc_endpoint peer) s"
    using xs size pod_codec.slice_bytes_inj [OF T, of xs "[VALUE]"] by (simp add: arrived_def)
  then show ?thesis using that get rdy by (simp add: read next_round_def Let_def)
qed

lemma await_round:
  assumes "ready s st" and "ucx_memory B (tr_worker (st_transport st)) issued visible"
    and "unat rank < 2 ^ 32" "btree_get (st_peers st) (ucast rank) = Some peer"
    and "unat (pc_heap_base peer) + unat off + 8 < 2 ^ 64"
  shows "await_value B e expired resume rank off s =
    (if arrived e (pc_heap_base peer + off) visible (pc_endpoint peer) s
     then Some (Ok (), after_read B e rank off s)
     else if expired (sy_world (after_read B e rank off s))
     then Some (Err (Internal ''timed out waiting for PE 1's value''), after_read B e rank off s)
     else await_value B e expired resume rank off (next_round B e resume rank off s))"
  by (rule read_round [OF assms, of e resume], subst await_value.simps) (simp add: next_round_def Let_def)

text \<open>A loop that returns has a last round.\<close>

lemma await_last_round:
  assumes "await_value B e expired resume rank off s = Some y" and "ready s st"
    and "ucx_memory B (tr_worker (st_transport st)) issued visible"
    and "unat rank < 2 ^ 32" and "btree_get (st_peers st) (ucast rank) = Some peer"
    and "unat (pc_heap_base peer) + unat off + 8 < 2 ^ 64"
  shows "\<exists>k. arrived e (pc_heap_base peer + off) visible (pc_endpoint peer) ((next_round B e resume rank off ^^ k) s) \<or>
    expired (sy_world (after_read B e rank off ((next_round B e resume rank off ^^ k) s)))"
  using assms(2-6)
proof (induction rule: await_value.raw_induct [OF _ assms(1)])
  case (1 await B e expired resume rank off s y)
  let ?ends = "\<lambda>s. arrived e (pc_heap_base peer + off) visible (pc_endpoint peer) s \<or>
    expired (sy_world (after_read B e rank off s))"
  obtain xs where xs: "get_typed B (pod_u64 e) rank off 1 s = Some (Ok xs, after_read B e rank off s)"
    "xs = [VALUE] \<longleftrightarrow> arrived e (pc_heap_base peer + off) visible (pc_endpoint peer) s"
    and ready: "ready (next_round B e resume rank off s) st"
    by (rule read_round [OF 1(3-7), of e resume])
  show ?case
  proof (cases "?ends s")
    case True
    then show ?thesis by (intro exI [of _ 0]) simp
  next
    case False
    with 1(2) xs have "await B e expired resume rank off (next_round B e resume rank off s) = Some y"
      by (simp add: next_round_def Let_def)
    from 1(1) [OF this ready 1(4-7)] obtain k
      where "?ends ((next_round B e resume rank off ^^ k) (next_round B e resume rank off s))" by blast
    then show ?thesis by (intro exI [of _ "Suc k"]) (simp add: funpow_swap1)
  qed
qed

text \<open>Rounds that do not end the loop are skipped.\<close>

lemma await_skip:
  assumes "ready s st" and hyps: "ucx_memory B (tr_worker (st_transport st)) issued visible"
    "unat rank < 2 ^ 32" "btree_get (st_peers st) (ucast rank) = Some peer"
    "unat (pc_heap_base peer) + unat off + 8 < 2 ^ 64"
    and goes_on: "\<forall>j < k. \<not> arrived e (pc_heap_base peer + off) visible (pc_endpoint peer) ((next_round B e resume rank off ^^ j) s) \<and>
      \<not> expired (sy_world (after_read B e rank off ((next_round B e resume rank off ^^ j) s)))"
  shows "ready ((next_round B e resume rank off ^^ k) s) st \<and>
    await_value B e expired resume rank off s =
      await_value B e expired resume rank off ((next_round B e resume rank off ^^ k) s)"
  using goes_on
proof (induction k)
  case 0
  with assms(1) show ?case by simp
next
  case (Suc k)
  then have ready: "ready ((next_round B e resume rank off ^^ k) s) st"
    and same: "await_value B e expired resume rank off s =
      await_value B e expired resume rank off ((next_round B e resume rank off ^^ k) s)" by simp_all
  have "ready (next_round B e resume rank off ((next_round B e resume rank off ^^ k) s)) st"
    by (rule read_round [OF ready hyps])
  moreover note await_round [OF ready hyps, of e expired resume]
  ultimately show ?case using Suc.prems same by simp
qed

text \<open>C24: The receiver of \<open>ping_put_get\<close> returns exactly when in some round the value is visible in
  its heap or the deadline has passed; it succeeds exactly when the value is visible in some round
  before the deadline has passed, and otherwise reports the timeout; the process stays ready.\<close>

theorem receiver_waits_for_the_value:
  assumes "ready s st" and "ucx_memory B (tr_worker (st_transport st)) issued visible"
    and "unat rank < 2 ^ 32" and "btree_get (st_peers st) (ucast rank) = Some peer"
    and "unat (pc_heap_base peer) + unat off + 8 < 2 ^ 64"
    and round: "round = (\<lambda>k. (next_round B e resume rank off ^^ k) s)"
    and there: "there = (\<lambda>k. arrived e (pc_heap_base peer + off) visible (pc_endpoint peer) (round k))"
    and late: "late = (\<lambda>k. expired (sy_world (after_read B e rank off (round k))))"
  shows "(await_value B e expired resume rank off s \<noteq> None \<longleftrightarrow> (\<exists>k. there k \<or> late k)) \<and>
    ((\<exists>t. await_value B e expired resume rank off s = Some (Ok (), t)) \<longleftrightarrow>
      (\<exists>k. there k \<and> (\<forall>j < k. \<not> late j))) \<and>
    (\<forall>r t. await_value B e expired resume rank off s = Some (r, t) \<longrightarrow> ready t st \<and>
      (r = Ok () \<or> r = Err (Internal ''timed out waiting for PE 1's value'')))"
proof (cases "\<exists>k. there k \<or> late k")
  case False
  have "await_value B e expired resume rank off s = None"
  proof (rule ccontr)
    assume "await_value B e expired resume rank off s \<noteq> None"
    then obtain y where "await_value B e expired resume rank off s = Some y" by blast
    from await_last_round [OF this assms(1-5)] False show False unfolding there late round by blast
  qed
  with False show ?thesis by auto
next
  case True
  define k where "k = (LEAST k. there k \<or> late k)"
  have k: "there k \<or> late k" using True unfolding k_def by (rule LeastI_ex)
  have before: "\<not> there j \<and> \<not> late j" if "j < k" for j
    using not_less_Least [of j "\<lambda>k. there k \<or> late k"] that k_def by blast
  have ready: "ready (round k) st" and same: "await_value B e expired resume rank off s =
      await_value B e expired resume rank off (round k)"
    using await_skip [OF assms(1-5), of k e resume expired] before unfolding there late round by auto
  have "ready (after_read B e rank off (round k)) st" by (rule read_round [OF ready assms(2-5)])
  moreover have "(\<exists>i. there i \<and> (\<forall>j < i. \<not> late j)) \<longleftrightarrow> there k"
    using k before by (metis linorder_neqE_nat)
  ultimately show ?thesis
    using True k await_round [OF ready assms(2-5), of e expired resume] by (auto simp: same there late)
qed

text \<open>A scheduler that lets the value arrive.\<close>

definition sample_resume :: "sample_world \<Rightarrow> sample_world" where
  "sample_resume w = w\<lparr>w_ext := (w_ext w)\<lparr>se_visible := (\<lambda>ep.
     mem_store 65536 (slice_bytes (pod_u64 Little) [VALUE]) (se_visible (w_ext w) ep))\<rparr>\<rparr>"

theorem receiver_waits_for_the_value_witness:
  "\<exists>t. await_value sample_bindings Little (\<lambda>_. False) sample_resume 1 0 sample_sys = Some (Ok (), t)"
proof -
  have "length (slice_bytes (pod_u64 Little) [VALUE]) = 8"
    unfolding pod_codec.length_slice_bytes [OF u64.pod_codec_axioms] by (simp add: pod_u64_def pod_impl_def)
  then have "arrived Little (65536 + 0) se_visible 22 (next_round sample_bindings Little sample_resume 1 0 sample_sys)"
    using mem_load_store [of 65536 "slice_bytes (pod_u64 Little) [VALUE]"]
    by (simp add: arrived_def next_round_def Let_def sample_resume_def)
  then have there: "arrived Little (65536 + 0) se_visible 22 ((next_round sample_bindings Little sample_resume 1 0 ^^ 1) sample_sys)"
    by simp
  have "btree_get (st_peers sample_state) (ucast (1 :: usize)) = Some (sample_peer 22)"
    using sample_table by simp
  with receiver_waits_for_the_value [OF sample_ready _ _ _ _ refl refl refl, where B = sample_bindings
      and issued = se_issued and visible = se_visible and rank = 1 and peer = "sample_peer 22" and off = 0
      and e = Little and resume = sample_resume and expired = "\<lambda>_. False"]
  have "(\<exists>t. await_value sample_bindings Little (\<lambda>_. False) sample_resume 1 0 sample_sys = Some (Ok (), t)) \<longleftrightarrow>
      (\<exists>k. arrived Little (65536 + 0) se_visible 22 ((next_round sample_bindings Little sample_resume 1 0 ^^ k) sample_sys))"
    by (simp add: sample_memory sample_peer_def)
  with there show ?thesis by blast
qed

section \<open>The session\<close>

text \<open>A computation that leaves a usable lock usable, unless it panics itself.\<close>

definition keeps_lock :: "('x sys, error, 'a) io \<Rightarrow> bool" where
  "keeps_lock m \<longleftrightarrow> (\<forall>s r t. m s = Some (r, t) \<longrightarrow> \<not> sy_poisoned s \<longrightarrow> r \<noteq> Panic \<longrightarrow> \<not> sy_poisoned t)"

lemma keeps_lockD: "keeps_lock m \<Longrightarrow> m s = Some (r, t) \<Longrightarrow> \<not> sy_poisoned s \<Longrightarrow> r \<noteq> Panic \<Longrightarrow> \<not> sy_poisoned t"
  unfolding keeps_lock_def by blast

lemma keeps_lock_with_lock [intro]: "keeps_lock (with_lock f)"
  by (auto simp: keeps_lock_def with_lock_def split: option.splits if_splits)

lemma keeps_lock_keeper: "state_keeper m \<Longrightarrow> keeps_lock m"
  unfolding keeps_lock_def by (meson state_keeper.poisons)

lemma keeps_lock_bind:
  assumes "keeps_lock m" and "\<And>a. keeps_lock (f a)"
  shows "keeps_lock (io_bind m f)"
  unfolding keeps_lock_def
proof (intro allI impI)
  fix s :: "'a sys" and r t
  assume "io_bind m f s = Some (r, t)" and ok: "\<not> sy_poisoned s" "r \<noteq> Panic"
  then show "\<not> sy_poisoned t"
  proof (cases rule: io_bind_result_cases)
    case (fails x)
    then show ?thesis using ok keeps_lockD [OF assms(1)] by blast
  next
    case (goes_on a u)
    have "\<not> sy_poisoned u" by (rule keeps_lockD [OF assms(1) goes_on(1) ok(1)]) simp
    from keeps_lockD [OF assms(2) goes_on(2) this ok(2)] show ?thesis .
  qed
qed

lemma keeps_lock_await: "keeps_lock (await_value B e expired resume rank off)"
  unfolding keeps_lock_def
proof (intro allI impI)
  fix s :: "'a sys" and r t
  assume run: "await_value B e expired resume rank off s = Some (r, t)" and ok: "\<not> sy_poisoned s" "r \<noteq> Panic"
  have get: "keeps_lock (get_typed B (pod_u64 e) rank off 1)" for B :: "'a bindings" and e rank off
    by (intro keeps_lock_keeper reader_keeper get_call.state_reader_axioms)
  have "\<not> sy_poisoned s \<longrightarrow> fst (r, t) \<noteq> Panic \<longrightarrow> \<not> sy_poisoned (snd (r, t))"
  proof (induction rule: await_value.raw_induct [OF _ run])
    case (1 await B e expired resume rank off s y)
    show ?case
    proof (intro impI)
      assume "\<not> sy_poisoned s" "fst y \<noteq> Panic"
      with 1 keeps_lockD [OF get, of B e rank off s] show "\<not> sy_poisoned (snd y)"
        by (auto split: option.splits prod.splits outcome.splits if_splits)
    qed
  qed
  with ok show "\<not> sy_poisoned t" by simp
qed

lemma keeps_lock_calls:
  "keeps_lock (io_lift r)" "keeps_lock (io_err x)" "keeps_lock (init B c)" "keeps_lock (finalize B)"
  "keeps_lock my_pe" "keeps_lock n_pes" "keeps_lock (symheap_malloc n)" "keeps_lock (symheap_free p)"
  "keeps_lock symheap_heap_base" "keeps_lock (put_typed B T pe xs off)" "keeps_lock (fence B)"
  "keeps_lock (quiet_pe B pe)" "keeps_lock (barrier B)"
proof -
  show "keeps_lock (io_lift r)" and "keeps_lock (io_err x)"
    by (auto simp: keeps_lock_def io_lift_def io_err_def)
  show "keeps_lock (init B c)" and "keeps_lock (finalize B)" and "keeps_lock my_pe" and "keeps_lock n_pes"
    and "keeps_lock (symheap_malloc n)" and "keeps_lock (symheap_free p)" and "keeps_lock symheap_heap_base"
    unfolding init_def finalize_def my_pe_def n_pes_def symheap_malloc_def symheap_free_def
      symheap_heap_base_def with_state_def with_state_mut_def by (rule keeps_lock_with_lock)+
  show "keeps_lock (put_typed B T pe xs off)" by (intro keeps_lock_keeper reader_keeper put_call.state_reader_axioms)
  show "keeps_lock (fence B)" by (intro keeps_lock_keeper reader_keeper fence_call.state_reader_axioms)
  show "keeps_lock (quiet_pe B pe)" by (intro keeps_lock_keeper reader_keeper quiet_pe_call.state_reader_axioms)
  show "keeps_lock (barrier B)" by (intro keeps_lock_keeper reader_keeper barrier_call.state_reader_axioms)
qed

lemma keeps_lock_if: "keeps_lock m \<Longrightarrow> keeps_lock n \<Longrightarrow> keeps_lock (if b then m else n)"
  by simp

lemma keeps_lock_runs: "keeps_lock (ping_run B c e expired resume)" "keeps_lock (barrier_run B)"
  unfolding ping_run_def barrier_run_def io_seq_def Let_def
  by (intro keeps_lock_bind keeps_lock_if keeps_lock_calls keeps_lock_await)+

text \<open>A finalisation that returns leaves no state.\<close>

lemma finalize_leaves:
  assumes "\<not> sy_poisoned s" and "finalize B s = Some (r, t)"
  shows "r \<noteq> Panic \<and> \<not> sy_poisoned t \<and> sy_state t = None"
  using assms(2) by (cases rule: finalize_cases) (use assms in \<open>auto simp: ready_def\<close>)

text \<open>C25: How the programs leave the process. \<open>ping_put_get\<close> ends the session however its run went,
  unless it panics: after any exit the state is gone and the lock usable. \<open>barrier\<close> does so only
  when it exits with status 0: when the barrier fails, it exits with status 1 and leaves the
  session open and the client connected, exactly as the failed barrier left them.\<close>

theorem programs_and_their_sessions:
  assumes "\<not> sy_poisoned s"
  shows "(\<forall>code t. ping_main B c e expired resume s = Some (code, t) \<longrightarrow> code \<noteq> 101 \<longrightarrow>
      \<not> sy_poisoned t \<and> sy_state t = None) \<and>
    (\<forall>t. barrier_main B s = Some (0, t) \<longrightarrow> \<not> sy_poisoned t \<and> sy_state t = None) \<and>
    (\<forall>u x v. init B True s = Some (Ok (), u) \<longrightarrow> barrier B u = Some (Err x, v) \<longrightarrow>
      barrier_main B s = Some (1, v) \<and> sy_state v = sy_state u \<and> sy_state v \<noteq> None)"
proof (intro conjI allI impI)
  fix code t
  assume main: "ping_main B c e expired resume s = Some (code, t)" and "code \<noteq> 101"
  then obtain r u where run: "ping_run B c e expired resume s = Some (r, u)" "r \<noteq> Panic"
    by (auto simp: ping_main_def split: option.splits outcome.splits)
  have u: "\<not> sy_poisoned u" by (rule keeps_lockD [OF keeps_lock_runs(1) run(1) assms run(2)])
  from main run \<open>code \<noteq> 101\<close> obtain q where "finalize B u = Some (q, t)"
    by (auto simp: ping_main_def split: option.splits outcome.splits)
  with finalize_leaves [OF u] show "\<not> sy_poisoned t" and "sy_state t = None" by auto
next
  fix t assume "barrier_main B s = Some (0, t)"
  then have "barrier_run B s = Some (Ok (), t)"
    by (auto simp: barrier_main_def split: option.splits outcome.splits)
  then obtain v where fin: "finalize B v = Some (Ok (), t)"
    by (auto simp: barrier_run_def io_ok_simps)
  then show "\<not> sy_poisoned t" and "sy_state t = None"
    by (cases rule: finalize_cases; simp)+
next
  fix u x v assume i: "init B True s = Some (Ok (), u)" and b: "barrier B u = Some (Err x, v)"
  show "sy_state v = sy_state u" by (rule barrier_call.keeps_state [OF b])
  from i obtain st where u: "ready u st" by (cases rule: init_cases) auto
  with barrier_call.keeps_state [OF b] show "sy_state v \<noteq> None" by (simp add: ready_def)
  show "barrier_main B s = Some (1, v)"
    using i b query_runs [OF u] by (simp add: barrier_main_def barrier_run_def io_seq_def io_bind_def)
qed

theorem programs_and_their_sessions_witness:
  "\<exists>t. ping_main sample_bindings True Little (\<lambda>_. False) sample_resume sample_sys = Some (1, t) \<and>
     \<not> sy_poisoned t \<and> sy_state t = None"
proof -
  have usable: "\<not> sy_poisoned sample_sys" by (simp add: sample_sys_def)
  have "ping_run sample_bindings True Little (\<lambda>_. False) sample_resume sample_sys = Some (Err AlreadyInitialized, sample_sys)"
    by (simp add: ping_run_def io_seq_def io_bind_def init_def with_lock_def sample_sys_def)
  moreover obtain r t where fin: "finalize sample_bindings sample_sys = Some (r, t)" and "r \<noteq> Panic"
    by (simp add: finalize_def with_lock_def sample_sys_def eval_calls)
  ultimately have "ping_main sample_bindings True Little (\<lambda>_. False) sample_resume sample_sys = Some (1, t)"
    by (cases r) (simp_all add: ping_main_def)
  with programs_and_their_sessions [OF usable, of sample_bindings True Little "\<lambda>_. False" sample_resume]
  show ?thesis by auto
qed

end
