(* ===== verification/Error_Properties.thy ===== *)
theory Error_Properties
  imports Error_Layers Sample
begin

text \<open>
  The exception specification of the calls on the process-global state: which variants of \<open>Error\<close> each group of calls and
  of request methods may return, and that a status of a binding which is no failure never travels
  as one.
\<close>

text \<open>C8: Every call on the process-global state and every method of a collective request fails only
  with the errors of its layer, whatever the state and the arguments, with bindings whose failures
  are failures. The queries and the heap know nothing of the bindings;
  remote access and atomics return a UCX status only when it is a failure, and never a status of
  PMIx or UCC; the collectives and the methods of their requests return a UCC status only when it
  is not its success, and never a status of UCX or PMIx; initialisation and finalisation return a
  PMIx status only when it is not the success of PMIx; \<open>init\<close> never says \<open>NotInitialized\<close>, and
  nothing else says \<open>AlreadyInitialized\<close>.\<close>

theorem calls_fail_with_errors_of_their_layer:
  assumes "failures_are_failures B" and "pod_codec T" and "typed_request T q"
  shows "raises my_pe query_error \<and> raises n_pes query_error \<and> raises symheap_heap_base query_error \<and>
    raises (symheap_malloc n) heap_error \<and> raises (symheap_free p) heap_error \<and>
    raises (putmem B pe bs off) (rma_error B) \<and> raises (getmem B pe off len) (rma_error B) \<and>
    raises (put_typed B T pe xs off) (rma_error B) \<and> raises (get_typed B T pe off n) (rma_error B) \<and>
    raises (fence B) (rma_error B) \<and> raises (quiet B) (rma_error B) \<and>
    raises (quiet_pe B pe) (rma_error B) \<and> raises (quiet_all B) (rma_error B) \<and>
    raises (atomic_op B A m pe off v) (rma_error B) \<and> raises (atomic_cswap B A pe off v v') (rma_error B) \<and>
    raises (atomic_fetch B A f pe off v) (rma_error B) \<and> raises (atomic_fcswap B A pe off v v') (rma_error B) \<and>
    raises (barrier B) (coll_error B) \<and> raises (broadcast B T root d n) (coll_error B) \<and>
    raises (collect B T xs) (coll_error B) \<and> raises (reduce B T rop d n) (coll_error B) \<and>
    raises (barrier_nb B) (coll_error B) \<and> raises (broadcast_nb B T root d n) (coll_error B) \<and>
    raises (collect_nb B T xs) (coll_error B) \<and> raises (reduce_nb B T rop d n) (coll_error B) \<and>
    (fst (request_test B (q, w)) = Err e \<longrightarrow> coll_error B e) \<and>
    (request_wait B (q, w) = Some (Err e, qw) \<longrightarrow> coll_error B e) \<and>
    (request_result T q w = Err e \<longrightarrow> usage_error e) \<and>
    raises (init B c) (init_error B) \<and> raises (finalize B) (finalize_error B)"
  using request_test_Err [OF assms(1,2), of "(q, w)" e] request_wait_Err [OF assms(1,2), of "(q, w)" e]
    request_result_Err [OF assms(2), of q w e] assms(3)
  by (intro conjI raises_heap raises_rma raises_put_typed raises_get_typed raises_quiet
      raises_blocking [OF assms(1,2)] raises_nonblocking raises_session assms) simp_all

lemma sample_failures: "failures_are_failures sample_bindings"
  by (simp add: failures_are_failures_def never_fails_with_def ucc_success_def pmix_raw_success_def
      sample_bindings_def s_fresh_def s_ok_def on_ext_def s_coll_post_def Let_def split: option.splits)

theorem calls_fail_with_errors_of_their_layer_witness:
  "raises (get_typed sample_bindings (pod_u32 Little) 1 16 2) (rma_error sample_bindings)"
  by (rule calls_fail_with_errors_of_their_layer [OF sample_failures u32.pod_codec_axioms,
      where q = "request_new 0 0 [] None None", THEN conjunct2, THEN conjunct2, THEN conjunct2, THEN conjunct2,
      THEN conjunct2, THEN conjunct2, THEN conjunct2, THEN conjunct2, THEN conjunct1])
    (simp add: typed_request_def request_new_def)

end
