(* ===== verification/Atomic_Props.thy ===== *)
theory Atomic_Props
  imports Rma_Props
begin

text \<open>
  What the atomic operations compute, when UCX's do what it documents: one word of the peer's
  memory is read, combined with the operand and written back, and a fetching operation replies
  with the old word.
\<close>

section \<open>The contract of UCX\<close>

text \<open>
  The contract speaks of the endpoints whose transport executes atomics (\<open>capable\<close>; UCX's self and
  tcp transports do not), of naturally aligned words, and of an endpoint on which nothing is in
  flight, so that the order of earlier operations plays no role. An operation without a reply
  replaces the word at the address by \<open>f\<close> of it and the operand; its completion is local, and it
  takes a flush to make the new word visible. A fetching one has been executed when it finishes,
  and replies with the old word.
\<close>

definition amo_computes ::
  "'x bindings \<Rightarrow> ('x, 'b::len word) amo_op \<Rightarrow> ('b word \<Rightarrow> 'b word \<Rightarrow> 'b word) \<Rightarrow> endian \<Rightarrow> handle \<Rightarrow>
   (handle \<Rightarrow> bool) \<Rightarrow> ('x \<Rightarrow> handle \<Rightarrow> memory) \<Rightarrow> ('x \<Rightarrow> handle \<Rightarrow> memory) \<Rightarrow> bool"
where
  "amo_computes B op f e worker capable issued visible \<longleftrightarrow>
     (\<forall>ep v a rk w. capable ep \<and> LENGTH('b) div 8 dvd unat a \<and> issued (w_ext w) ep = visible (w_ext w) ep \<longrightarrow>
        (\<exists>req w1 w2. op ep v a rk (of_nat (LENGTH('b) div 8)) w = (Inr req, w1) \<and>
           settles B worker req w1 w2 \<and>
           issued (w_ext w2) ep =
             mem_store a (to_ne_bytes e (f (mem_word e a (visible (w_ext w) ep)) v)) (visible (w_ext w) ep)))"

definition amo_fetches ::
  "'x bindings \<Rightarrow> ('x, 'b::len word) amo_fetch \<Rightarrow> ('b word \<Rightarrow> 'b word \<Rightarrow> 'b word) \<Rightarrow> endian \<Rightarrow> handle \<Rightarrow>
   (handle \<Rightarrow> bool) \<Rightarrow> ('x \<Rightarrow> handle \<Rightarrow> memory) \<Rightarrow> ('x \<Rightarrow> handle \<Rightarrow> memory) \<Rightarrow> bool"
where
  "amo_fetches B op f e worker capable issued visible \<longleftrightarrow>
     (\<forall>ep v a rk b w. capable ep \<and> LENGTH('b) div 8 dvd unat a \<and> issued (w_ext w) ep = visible (w_ext w) ep \<longrightarrow>
        (\<exists>req w1 w2. op ep worker v a rk b w = (Inr req, w1) \<and>
           fetch_settles B worker req w1 w2 \<and>
           w_bufs w2 b = to_ne_bytes e (mem_word e a (visible (w_ext w) ep) :: 'b word) \<and>
           issued (w_ext w2) ep = visible (w_ext w2) ep \<and>
           visible (w_ext w2) ep =
             mem_store a (to_ne_bytes e (f (mem_word e a (visible (w_ext w) ep)) v)) (visible (w_ext w) ep)))"

text \<open>Compare-and-swap as an operation on the replacement.\<close>

definition cas :: "'b \<Rightarrow> 'b \<Rightarrow> 'b \<Rightarrow> 'b" where
  "cas expected old v = (if old = expected then v else old)"

definition ucx_atomics ::
  "'x bindings \<Rightarrow> ('x, 'b::len word) amo \<Rightarrow> endian \<Rightarrow> handle \<Rightarrow> (handle \<Rightarrow> bool) \<Rightarrow>
   ('x \<Rightarrow> handle \<Rightarrow> memory) \<Rightarrow> ('x \<Rightarrow> handle \<Rightarrow> memory) \<Rightarrow> bool"
where
  "ucx_atomics B amo e worker capable issued visible \<longleftrightarrow>
     amo_computes B (amo_add amo) (+) e worker capable issued visible \<and>
     amo_computes B (amo_xor amo) (XOR) e worker capable issued visible \<and>
     amo_computes B (amo_swap amo) (\<lambda>_ v. v) e worker capable issued visible \<and>
     amo_computes B (amo_and amo) (AND) e worker capable issued visible \<and>
     amo_computes B (amo_or amo) (OR) e worker capable issued visible \<and>
     (\<forall>x. amo_computes B (\<lambda>ep. amo_cswap amo ep x) (cas x) e worker capable issued visible) \<and>
     amo_fetches B (amo_fadd amo) (+) e worker capable issued visible \<and>
     amo_fetches B (amo_fxor amo) (XOR) e worker capable issued visible \<and>
     amo_fetches B (amo_fswap amo) (\<lambda>_ v. v) e worker capable issued visible \<and>
     (\<forall>x. amo_fetches B (\<lambda>ep worker. amo_fcswap amo ep worker x) (cas x) e worker capable issued visible)"

text \<open>An aligned word of 32 or 64 bits lies inside the address space.\<close>

lemma aligned_word_fits:
  fixes a :: u64
  assumes "sz = 4 \<or> sz = 8" and "sz dvd unat a"
  shows "unat a + sz \<le> 2 ^ 64"
proof -
  have "sz dvd 2 ^ 64" using assms(1) by (auto simp: dvd_def intro: exI [of _ "2 ^ 62"] exI [of _ "2 ^ 61"])
  then obtain m where m: "2 ^ 64 = sz * m" by (rule dvdE)
  obtain k where k: "unat a = sz * k" using assms(2) by (rule dvdE)
  have "unat a < 2 ^ 64" using unsigned_less [of a, where ?'a = nat] by simp
  then have "sz * k < sz * m" using m k by simp
  then have "Suc k \<le> m" by simp
  then have "sz * Suc k \<le> sz * m" by (rule mult_le_mono2)
  with m k show ?thesis by simp
qed

section \<open>Operations without a reply\<close>

lemma atomic_cswap_op:
  "atomic_cswap B A pe off x y = atomic_op B A (\<lambda>ep. av_cswap A ep (av_bits A x)) pe off y"
  by (simp add: atomic_cswap_def atomic_op_def)

text \<open>The operation, and the flush of its peer that makes it visible.\<close>

lemma atomic_op_quiet:
  fixes op :: "('x, 'b::len word) amo_op"
  assumes rdy: "ready s st" and memory: "ucx_memory B (tr_worker (st_transport st)) issued visible"
    and ucx: "amo_computes B op f e (tr_worker (st_transport st)) capable issued visible"
    and sz: "av_size A = of_nat (LENGTH('b) div 8)"
    and addr: "peer_and_address st pe off (av_size A) = Ok (peer, a)"
    and target: "capable (pc_endpoint peer)" "LENGTH('b) div 8 dvd unat a"
      "issued (w_ext (sy_world s)) (pc_endpoint peer) = visible (w_ext (sy_world s)) (pc_endpoint peer)"
  obtains w where "io_seq (atomic_op B A op pe off v) (quiet_pe B pe) s = Some (Ok (), s\<lparr>sy_world := w\<rparr>)"
    and "visible (w_ext w) (pc_endpoint peer) = mem_store a
      (to_ne_bytes e (f (mem_word e a (visible (w_ext (sy_world s)) (pc_endpoint peer))) (av_bits A v)))
      (visible (w_ext (sy_world s)) (pc_endpoint peer))"
proof -
  obtain req w1 w2 where run: "op (pc_endpoint peer) (av_bits A v) a (pc_rkey peer) (av_size A) (sy_world s) = (Inr req, w1)"
    "settles B (tr_worker (st_transport st)) req w1 w2"
    and w2: "issued (w_ext w2) (pc_endpoint peer) = mem_store a
      (to_ne_bytes e (f (mem_word e a (visible (w_ext (sy_world s)) (pc_endpoint peer))) (av_bits A v)))
      (visible (w_ext (sy_world s)) (pc_endpoint peer))"
    using ucx target unfolding amo_computes_def sz by blast
  have op: "atomic_op B A op pe off v s = Some (Ok (), s\<lparr>sy_world := w2\<rparr>)"
    unfolding atomic_op_def using addr run(1) settles_complete [OF run(2)]
    by (intro with_state_readyD [OF rdy]) (simp_all add: io_bind_def ucx_call_def io_call_def)
  have pe: "unat pe < 2 ^ 32" "btree_get (st_peers st) (ucast pe) = Some peer"
    using addr by (simp_all add: peer_and_address_eq_Ok)
  have "ready (s\<lparr>sy_world := w2\<rparr>) st" using rdy by simp
  then obtain w where "quiet_pe B pe (s\<lparr>sy_world := w2\<rparr>) = Some (Ok (), s\<lparr>sy_world := w2\<rparr>\<lparr>sy_world := w\<rparr>)"
    and "visible (w_ext w) (pc_endpoint peer) = issued (w_ext w2) (pc_endpoint peer)"
    using quiet_pe_flushes [OF _ memory pe, of "s\<lparr>sy_world := w2\<rparr>"] by auto
  with op w2 show ?thesis by (intro that [of w]) (simp_all add: io_seq_def io_bind_def sy_world_twice)
qed

section \<open>Fetching operations\<close>

text \<open>What \<open>atomic_fetch\<close> and \<open>atomic_fcswap\<close> share: a reply cell, the call, the wait, the reply.\<close>

definition fetch_reply ::
  "'x bindings \<Rightarrow> usize \<Rightarrow> usize \<Rightarrow> usize \<Rightarrow> bytes \<Rightarrow> ('x, 'b) amo_fetch \<Rightarrow> 'b \<Rightarrow> (bytes \<Rightarrow> 'a) \<Rightarrow>
   ('x sys, error, 'a) io"
where
  "fetch_reply B pe off sz cell op v read = with_state (\<lambda>s.
     io_bind (io_lift (peer_and_address s pe off sz)) (\<lambda>(peer, addr).
     io_bind (io_step (buf_new cell)) (\<lambda>reply.
     with_worker (st_transport s) (\<lambda>worker.
       io_bind (ucx_call B (op (pc_endpoint peer) worker v addr (pc_rkey peer) reply)) (\<lambda>request.
       io_seq (complete_fetch B worker request)
         (io_bind (io_step (buf_get reply)) (\<lambda>bs. io_return (read bs))))))))"

lemma fetching_calls:
  "atomic_fetch B A op pe off v = fetch_reply B pe off (av_size A) (av_cell A (av_bits A v)) op
     (av_bits A v) (\<lambda>bs. av_from_bits A (av_load A bs))"
  "atomic_fcswap B A pe off x y = fetch_reply B pe off (av_size A) (av_cell A (av_bits A x))
     (\<lambda>ep worker. av_fcswap A ep worker (av_bits A x)) (av_bits A y) (\<lambda>bs. av_from_bits A (av_load A bs))"
  by (simp_all add: atomic_fetch_def atomic_fcswap_def fetch_reply_def)

lemma fetch_reply_run:
  fixes op :: "('x, 'b::len word) amo_fetch"
  assumes rdy: "ready s st"
    and ucx: "amo_fetches B op f e (tr_worker (st_transport st)) capable issued visible"
    and addr: "peer_and_address st pe off sz = Ok (peer, a)"
    and target: "capable (pc_endpoint peer)" "LENGTH('b) div 8 dvd unat a"
      "issued (w_ext (sy_world s)) (pc_endpoint peer) = visible (w_ext (sy_world s)) (pc_endpoint peer)"
    and old: "old = mem_word e a (visible (w_ext (sy_world s)) (pc_endpoint peer))"
  obtains w where "fetch_reply B pe off sz cell op v read s = Some (Ok (read (to_ne_bytes e old)), s\<lparr>sy_world := w\<rparr>)"
    and "visible (w_ext w) (pc_endpoint peer) =
      mem_store a (to_ne_bytes e (f old v)) (visible (w_ext (sy_world s)) (pc_endpoint peer))"
proof -
  let ?ep = "pc_endpoint peer" and ?worker = "tr_worker (st_transport st)"
  obtain b w1 where b: "buf_new cell (sy_world s) = (b, w1)" and w1: "w_ext w1 = w_ext (sy_world s)"
    by (simp add: buf_new_def)
  have still: "issued (w_ext w1) ?ep = visible (w_ext w1) ?ep" using target(3) w1 by simp
  obtain req w2 w3 where run: "op ?ep ?worker v a (pc_rkey peer) b w1 = (Inr req, w2)"
      "fetch_settles B ?worker req w2 w3"
    and buf: "w_bufs w3 b = to_ne_bytes e old"
    and "visible (w_ext w3) ?ep = mem_store a (to_ne_bytes e (f old v)) (visible (w_ext (sy_world s)) ?ep)"
    using ucx target(1,2) still unfolding amo_fetches_def old w1 [symmetric] by blast
  moreover have "fetch_reply B pe off sz cell op v read s = Some (Ok (read (w_bufs w3 b)), s\<lparr>sy_world := w3\<rparr>)"
    unfolding fetch_reply_def
    using addr b run(1) fetch_settles_complete [OF run(2)]
    by (intro with_state_readyD [OF rdy])
      (simp_all add: io_step_def io_bind_def io_return_def with_worker_def ucx_call_def io_call_def io_seq_def buf_get_def)
  ultimately show ?thesis using that by simp
qed

section \<open>The ten operations\<close>

text \<open>A call that returns \<open>r\<close> and replaces one word of the peer's memory, and nothing else of the
  process or of that memory.\<close>

definition returns_and_stores ::
  "('x sys, error, 'r) io \<Rightarrow> 'x sys \<Rightarrow> ('x \<Rightarrow> handle \<Rightarrow> memory) \<Rightarrow> endian \<Rightarrow> handle \<Rightarrow> u64 \<Rightarrow> 'r \<Rightarrow>
   'b::len word \<Rightarrow> bool"
where
  "returns_and_stores c s mem e ep a r new \<longleftrightarrow>
     (\<exists>w. c s = Some (Ok r, s\<lparr>sy_world := w\<rparr>) \<and>
       mem (w_ext w) ep = mem_store a (to_ne_bytes e new) (mem (w_ext (sy_world s)) ep))"

lemma unsigned_sel [simp]:
  fixes amo :: "('x, 'b::len word) amo" and e :: endian
  defines "A \<equiv> unsigned_impl e amo"
  shows "av_size A = of_nat (LENGTH('b) div 8)" "av_bits A v = v" "av_from_bits A v = v"
    "av_cell A v = to_ne_bytes e v" "av_load A bs = from_ne_bytes e bs"
    "av_add A = amo_add amo" "av_xor A = amo_xor amo" "av_swap A = amo_swap amo" "av_and A = amo_and amo"
    "av_or A = amo_or amo" "av_cswap A = amo_cswap amo" "av_fadd A = amo_fadd amo" "av_fxor A = amo_fxor amo"
    "av_fswap A = amo_fswap amo" "av_fcswap A = amo_fcswap amo"
  by (simp_all add: A_def unsigned_impl_def)

lemma unsigned_op:
  fixes amo :: "('x, 'b::len word) amo"
  assumes "ready s st" and "ucx_memory B (tr_worker (st_transport st)) issued visible"
    and "amo_computes B op f e (tr_worker (st_transport st)) capable issued visible"
    and "peer_and_address st pe off (of_nat (LENGTH('b) div 8)) = Ok (peer, a)"
    and "capable (pc_endpoint peer)" and "LENGTH('b) div 8 dvd unat a"
    and "issued (w_ext (sy_world s)) (pc_endpoint peer) = visible (w_ext (sy_world s)) (pc_endpoint peer)"
    and "old = (mem_word e a (visible (w_ext (sy_world s)) (pc_endpoint peer)) :: 'b word)"
  shows "returns_and_stores (io_seq (atomic_op B (unsigned_impl e amo) op pe off v) (quiet_pe B pe)) s visible e
    (pc_endpoint peer) a () (f old v)"
  unfolding returns_and_stores_def
  by (rule atomic_op_quiet [OF assms(1-3), where A = "unsigned_impl e amo" and pe = pe and off = off and peer = peer and a = a and v = v])
    (use assms(4-8) in auto)

lemma unsigned_fetch:
  fixes old :: "'b::len word"
  assumes "8 dvd LENGTH('b)"
    and "ready s st" and "amo_fetches B op f e (tr_worker (st_transport st)) capable issued visible"
    and "peer_and_address st pe off sz = Ok (peer, a)"
    and "capable (pc_endpoint peer)" and "LENGTH('b) div 8 dvd unat a"
    and "issued (w_ext (sy_world s)) (pc_endpoint peer) = visible (w_ext (sy_world s)) (pc_endpoint peer)"
    and "old = mem_word e a (visible (w_ext (sy_world s)) (pc_endpoint peer))"
    and "\<And>bs. read bs = g (from_ne_bytes e bs)"
  shows "returns_and_stores (fetch_reply B pe off sz cell op v read) s visible e
    (pc_endpoint peer) a (g old) (f old v)"
  unfolding returns_and_stores_def
  by (rule fetch_reply_run [OF assms(2-8), where v = v and cell = cell and read = read]) (auto simp: assms(9) from_to_ne_bytes [OF assms(1)])

section \<open>Signed operations\<close>

lemma with_state_then_return:
  "with_state (\<lambda>st. io_bind (f st) (\<lambda>x. io_return (g x))) = io_bind (with_state f) (\<lambda>x. io_return (g x))"
proof
  fix s
  show "with_state (\<lambda>st. io_bind (f st) (\<lambda>x. io_return (g x))) s =
      io_bind (with_state f) (\<lambda>x. io_return (g x)) s"
    by (auto simp: with_state_def with_lock_def io_bind_def io_return_def
        split: option.splits outcome.splits)
qed

lemma fetch_reply_read:
  "fetch_reply B pe off sz cell op v (\<lambda>bs. g (read bs)) =
     io_bind (fetch_reply B pe off sz cell op v read) (\<lambda>x. io_return (g x))"
  unfolding fetch_reply_def with_state_then_return [symmetric]
  by (simp add: io_bind_assoc io_seq_def with_worker_def split_def)

lemma signed_op:
  "atomic_op B (signed_impl e amo) op pe off v =
     atomic_op B (unsigned_impl e amo) op pe off (word_of_int v)"
  by (simp add: atomic_op_def signed_impl_def)

lemma signed_fetch:
  "atomic_fetch B (signed_impl e amo) op pe off v =
     io_bind (atomic_fetch B (unsigned_impl e amo) op pe off (word_of_int v))
       (\<lambda>x. io_return (sint x))"
  "atomic_fcswap B (signed_impl e amo) pe off x y =
     io_bind (atomic_fcswap B (unsigned_impl e amo) pe off (word_of_int x) (word_of_int y))
       (\<lambda>x. io_return (sint x))"
  unfolding fetching_calls by (simp_all add: signed_impl_def fetch_reply_read [of _ _ _ _ _ _ _ sint])

lemma signed_fetch_add:
  fixes amo :: "('x, 'b::len word) amo"
  assumes width: "LENGTH('b) = 32 \<or> LENGTH('b) = 64" and "ready s st"
    and "amo_fetches B (amo_fadd amo) (+) e (tr_worker (st_transport st)) capable issued visible"
    and "peer_and_address st pe off (of_nat (LENGTH('b) div 8)) = Ok (peer, a)"
    and "capable (pc_endpoint peer)" and aligned: "LENGTH('b) div 8 dvd unat a"
    and "issued (w_ext (sy_world s)) (pc_endpoint peer) = visible (w_ext (sy_world s)) (pc_endpoint peer)"
    and "old = (mem_word e a (visible (w_ext (sy_world s)) (pc_endpoint peer)) :: 'b word)"
  obtains w where "atomic_fadd B (signed_impl e amo) pe off v s = Some (Ok (sint old), s\<lparr>sy_world := w\<rparr>)"
    and "sint (mem_word e a (visible (w_ext w) (pc_endpoint peer)) :: 'b word) =
      signed_take_bit (LENGTH('b) - 1) (sint old + v)"
proof -
  let ?A = "signed_impl e amo"
  have dvd: "8 dvd LENGTH('b)" using width by auto
  have fits: "unat a + LENGTH('b) div 8 \<le> 2 ^ 64" using width aligned by (intro aligned_word_fits) auto
  obtain w where w: "atomic_fadd B ?A pe off v s = Some (Ok (sint old), s\<lparr>sy_world := w\<rparr>)"
    "visible (w_ext w) (pc_endpoint peer) =
      mem_store a (to_ne_bytes e (old + word_of_int v)) (visible (w_ext (sy_world s)) (pc_endpoint peer))"
    using unsigned_fetch [OF dvd assms(2-8), of "\<lambda>bs. sint (from_ne_bytes e bs :: 'b word)" sint
        "to_ne_bytes e (word_of_int v :: 'b word)" "word_of_int v"]
    by (auto simp: returns_and_stores_def atomic_fadd_def fetching_calls signed_impl_def)
  have "sint (old + word_of_int v) = signed_take_bit (LENGTH('b) - 1) (sint old + v)"
    using sint_sbintrunc' [of "sint old + v", where 'a = 'b] by simp
  then show ?thesis using that [OF w(1)] unfolding w(2) mem_word_store [OF dvd fits] by simp
qed

lemmas amo_calls =
  atomic_add_def atomic_xor_def atomic_swap_def atomic_and_def atomic_or_def
  atomic_fadd_def atomic_fxor_def atomic_fswap_def

end
