(* ===== verification/Atomic_Properties.thy ===== *)
theory Atomic_Properties
  imports Atomic_Props Sample
begin

text \<open>
  The properties of the atomic operations: what each of the ten computes, what signedness changes,
  and the wrap-around of signed sums.
\<close>

section \<open>The sample satisfies the contract\<close>

lemma sample_fetch_settles:
  "fetch_settles sample_bindings worker r w (w\<lparr>w_ext := (w_ext w)\<lparr>se_wait := 0\<rparr>\<rparr>)"
proof (induction "se_wait (w_ext w)" arbitrary: w)
  case 0
  then have "fetch_settles sample_bindings worker r w (fetch_free (ucx sample_bindings) r w)"
    by (intro fetch_settles.fetched) (simp add: s_check_def)
  moreover have "w\<lparr>w_ext := (w_ext w)\<lparr>se_wait := 0\<rparr>\<rparr> = w" using 0 by simp
  ultimately show ?case by simp
next
  case (Suc n)
  let ?w = "s_progress w"
  have pending: "fetch_check_finished (ucx sample_bindings) r w = (Inr False, w)"
    using Suc(2) by (simp add: s_check_def)
  have "se_wait (w_ext ?w) = n" using Suc(2) by (simp add: s_progress_def on_ext_def)
  then have "fetch_settles sample_bindings worker r ?w (?w\<lparr>w_ext := (w_ext ?w)\<lparr>se_wait := 0\<rparr>\<rparr>)"
    by (intro Suc(1)) simp
  then have "fetch_settles sample_bindings worker r (worker_progress (ucx sample_bindings) worker w)
      (?w\<lparr>w_ext := (w_ext ?w)\<lparr>se_wait := 0\<rparr>\<rparr>)" by simp
  with pending have "fetch_settles sample_bindings worker r w (?w\<lparr>w_ext := (w_ext ?w)\<lparr>se_wait := 0\<rparr>\<rparr>)"
    by (rule fetch_settles.progress)
  then show ?case by (simp add: s_progress_def on_ext_def)
qed

lemma sample_fetches:
  fixes f :: "'b::len word \<Rightarrow> 'b word \<Rightarrow> 'b word"
  shows "amo_fetches sample_bindings (s_fetch f) f Little worker capable se_issued se_visible"
  unfolding amo_fetches_def
proof (intro allI impI; elim conjE)
  fix ep a rk b and v :: "'b word" and w :: sample_world
  assume still: "se_issued (w_ext w) ep = se_visible (w_ext w) ep"
  let ?old = "mem_word Little a (se_visible (w_ext w) ep) :: 'b word"
  let ?w = "snd (s_fetch f ep worker v a rk b w)"
  have "s_fetch f ep worker v a rk b w = (Inr 3, ?w)"
    by (simp add: s_fetch_def Let_def)
  moreover note sample_fetch_settles [of worker 3 ?w]
  ultimately show "\<exists>req w1 w2. s_fetch f ep worker v a rk b w = (Inr req, w1) \<and>
      fetch_settles sample_bindings worker req w1 w2 \<and> w_bufs w2 b = to_ne_bytes Little ?old \<and>
      se_issued (w_ext w2) ep = se_visible (w_ext w2) ep \<and>
      se_visible (w_ext w2) ep =
        mem_store a (to_ne_bytes Little (f ?old v)) (se_visible (w_ext w) ep)"
    by (intro exI conjI) (assumption, assumption, simp_all add: s_fetch_def Let_def still)
qed

lemma sample_fadd:
  "amo_fetches sample_bindings (amo_fadd sample_amo) (+) Little worker capable se_issued se_visible"
  by (simp add: sample_amo_def sample_fetches)

lemma sample_computes:
  fixes f :: "'b::len word \<Rightarrow> 'b word \<Rightarrow> 'b word"
  shows "amo_computes sample_bindings (s_amo_op f) f Little worker capable se_issued se_visible"
  unfolding amo_computes_def
proof (intro allI impI; elim conjE)
  fix ep a rk and v :: "'b word" and w :: sample_world
  assume still: "se_issued (w_ext w) ep = se_visible (w_ext w) ep"
  let ?sz = "of_nat (LENGTH('b) div 8) :: usize"
  let ?w = "snd (s_amo_op f ep v a rk ?sz w)"
  have "s_amo_op f ep v a rk ?sz w = (Inr None, ?w)"
    by (simp add: s_amo_op_def on_ext_def)
  moreover have "settles sample_bindings worker None ?w ?w" by (rule settles.immediate)
  ultimately show "\<exists>req w1 w2. s_amo_op f ep v a rk ?sz w = (Inr req, w1) \<and>
      settles sample_bindings worker req w1 w2 \<and>
      se_issued (w_ext w2) ep =
        mem_store a (to_ne_bytes Little (f (mem_word Little a (se_visible (w_ext w) ep)) v)) (se_visible (w_ext w) ep)"
    by (intro exI conjI) (assumption, assumption, simp add: s_amo_op_def on_ext_def still)
qed

lemma sample_atomics: "ucx_atomics sample_bindings sample_amo Little worker capable se_issued se_visible"
  unfolding ucx_atomics_def cas_def by (simp add: sample_amo_def sample_computes sample_fetches)

text \<open>In the sample, the endpoint to the other rank is the one that executes atomics.\<close>

definition sample_capable :: "handle \<Rightarrow> bool" where
  "sample_capable ep \<longleftrightarrow> ep = 22"

lemma sample_zero: "(mem_word Little a (se_visible (w_ext sample_world0) ep) :: 'b::len word) = 0"
proof -
  have "mem_load a n (se_visible sample_ext0 ep) = replicate n 0" for n
    by (simp add: mem_load_def sample_ext0_def map_replicate_const)
  moreover have "le_value (replicate n 0) = (0 :: 'b word)" for n
    by (induction n) (simp_all add: le_value_def)
  ultimately show ?thesis
    by (simp add: mem_word_def from_ne_bytes_def sample_world0_def)
qed

lemma sample_still: "se_issued (w_ext sample_world0) ep = se_visible (w_ext sample_world0) ep"
  by (simp add: sample_world0_def sample_ext0_def)

section \<open>Properties\<close>

text \<open>C7: Every atomic operation computes what its name says, on an endpoint whose transport
  executes atomics, with nothing in flight on it, at a naturally aligned address that passes the
  check: under UCX's contract all ten calls return; after \<open>quiet_pe\<close> for an operation without a
  reply, and at once for a fetching one, the addressed word of the peer is the result (sum,
  exclusive or, replacement, conjunction, disjunction, or the replacement exactly when the old
  word was the expected one), nothing else of the peer's memory or of the process has changed,
  and the fetching ones return the old word.\<close>

theorem atomics_compute_their_operation:
  fixes amo :: "('x, 'b::len word) amo"
  assumes "LENGTH('b) = 32 \<or> LENGTH('b) = 64" and "\<not> sy_poisoned s" and "sy_state s = Some st"
    and "ucx_memory B (tr_worker (st_transport st)) issued visible"
    and "ucx_atomics B amo e (tr_worker (st_transport st)) capable issued visible"
    and "peer_and_address st pe off (of_nat (LENGTH('b) div 8)) = Ok (peer, a)"
    and "capable (pc_endpoint peer)" and "LENGTH('b) div 8 dvd unat a"
    and "issued (w_ext (sy_world s)) (pc_endpoint peer) = visible (w_ext (sy_world s)) (pc_endpoint peer)"
    and "old = mem_word e a (visible (w_ext (sy_world s)) (pc_endpoint peer))"
    and "A = unsigned_impl e amo"
  shows
    "returns_and_stores (io_seq (atomic_add B A pe off v) (quiet_pe B pe)) s visible e (pc_endpoint peer) a () (old + v) \<and>
     returns_and_stores (io_seq (atomic_xor B A pe off v) (quiet_pe B pe)) s visible e (pc_endpoint peer) a () (old XOR v) \<and>
     returns_and_stores (io_seq (atomic_swap B A pe off v) (quiet_pe B pe)) s visible e (pc_endpoint peer) a () v \<and>
     returns_and_stores (io_seq (atomic_and B A pe off v) (quiet_pe B pe)) s visible e (pc_endpoint peer) a () (old AND v) \<and>
     returns_and_stores (io_seq (atomic_or B A pe off v) (quiet_pe B pe)) s visible e (pc_endpoint peer) a () (old OR v) \<and>
     returns_and_stores (io_seq (atomic_cswap B A pe off x v) (quiet_pe B pe)) s visible e (pc_endpoint peer) a () (cas x old v) \<and>
     returns_and_stores (atomic_fadd B A pe off v) s visible e (pc_endpoint peer) a old (old + v) \<and>
     returns_and_stores (atomic_fxor B A pe off v) s visible e (pc_endpoint peer) a old (old XOR v) \<and>
     returns_and_stores (atomic_fswap B A pe off v) s visible e (pc_endpoint peer) a old v \<and>
     returns_and_stores (atomic_fcswap B A pe off x v) s visible e (pc_endpoint peer) a old (cas x old v)"
proof -
  have rdy: "ready s st" using assms(2,3) by (simp add: ready_def)
  have dvd: "8 dvd LENGTH('b)" using assms(1) by auto
  note ucx = assms(5) [unfolded ucx_atomics_def]
  note op = unsigned_op [where capable = capable and issued = issued and visible = visible and s = s and st = st and old = old and e = e and a = a and peer = peer, OF rdy assms(4) _ assms(6-10)]
  note fetch = unsigned_fetch [where capable = capable and issued = issued and visible = visible and s = s and st = st and old = old and e = e and a = a and peer = peer, OF dvd rdy _ _ assms(7-10), where g = "\<lambda>v. v"]
  show ?thesis
    unfolding assms(11) amo_calls atomic_cswap_op fetching_calls
    using ucx assms(6) by (auto intro!: op fetch)
qed

theorem atomics_compute_their_operation_witness:
  "\<exists>t u. atomic_fcswap sample_bindings (atomic_u64 sample_bindings Little) 1 16 0 42 sample_sys = Some (Ok 0, t) \<and>
     mem_word Little 65552 (se_visible (w_ext (sy_world t)) 22) = (42 :: 64 word) \<and>
     io_seq (atomic_swap sample_bindings (atomic_u64 sample_bindings Little) 1 16 42)
       (quiet_pe sample_bindings 1) sample_sys = Some (Ok (), u) \<and>
     mem_word Little 65552 (se_visible (w_ext (sy_world u)) 22) = (42 :: 64 word)"
  using atomics_compute_their_operation [where amo = "sample_amo :: (sample_ext, u64) amo" and e = Little
      and issued = se_issued and visible = se_visible and s = sample_sys and st = sample_state and B = sample_bindings
      and pe = 1 and capable = sample_capable
      and off = 16 and peer = "sample_peer 22" and a = 65552 and old = 0 and x = 0 and v = 42,
      OF _ _ _ sample_memory sample_atomics]
  by (auto simp: sample_sys_def peer_and_address_eq_Ok sample_table sample_peer_def atomic_u64_def
      sample_zero returns_and_stores_def cas_def mem_word_store sample_capable_def sample_still)

text \<open>C32: The signed types are views of the unsigned ones: every operation on \<open>i32\<close> or \<open>i64\<close> is the
  operation on the unsigned type of the same width applied to the two's complement patterns of its
  operands, its reply read as signed: same outcome, same effects, whatever the bindings do, errors
  and panics included.\<close>

theorem signed_atomics_act_on_the_bits:
  fixes amo :: "('x, 'b::len word) amo"
  assumes "S = signed_impl e amo" and "U = unsigned_impl e amo"
  shows
    "atomic_add B S pe off v = atomic_add B U pe off (word_of_int v) \<and>
     atomic_xor B S pe off v = atomic_xor B U pe off (word_of_int v) \<and>
     atomic_swap B S pe off v = atomic_swap B U pe off (word_of_int v) \<and>
     atomic_and B S pe off v = atomic_and B U pe off (word_of_int v) \<and>
     atomic_or B S pe off v = atomic_or B U pe off (word_of_int v) \<and>
     atomic_cswap B S pe off x v = atomic_cswap B U pe off (word_of_int x) (word_of_int v) \<and>
     atomic_fadd B S pe off v = io_bind (atomic_fadd B U pe off (word_of_int v)) (\<lambda>old. io_return (sint old)) \<and>
     atomic_fxor B S pe off v = io_bind (atomic_fxor B U pe off (word_of_int v)) (\<lambda>old. io_return (sint old)) \<and>
     atomic_fswap B S pe off v = io_bind (atomic_fswap B U pe off (word_of_int v)) (\<lambda>old. io_return (sint old)) \<and>
     atomic_fcswap B S pe off x v = io_bind (atomic_fcswap B U pe off (word_of_int x) (word_of_int v)) (\<lambda>old. io_return (sint old))"
  unfolding assms amo_calls atomic_cswap_op signed_op signed_fetch
  by (simp add: signed_impl_def)

lemma minus_one_u32: "(- 1 :: u32) = 0xffffffff"
  by simp

theorem signed_atomics_act_on_the_bits_witness:
  "atomic_and sample_bindings (atomic_i32 sample_bindings Little) 1 16 (- 1) sample_sys =
     atomic_and sample_bindings (atomic_u32 sample_bindings Little) 1 16 0xffffffff sample_sys"
  using signed_atomics_act_on_the_bits [of "atomic_i32 sample_bindings Little" Little "sample_amo :: (sample_ext, u32) amo"
      "atomic_u32 sample_bindings Little" sample_bindings 1 16 "- 1" 0]
  by (simp add: atomic_i32_def atomic_u32_def minus_one_u32)

text \<open>C28: Fetch-and-add on a signed type wraps around: under UCX's contract of the unsigned fetch-and-add the call
  returns, its result is the old signed value, and the new memory holds the two's complement
  wrap-around of the signed sum.\<close>

theorem signed_fetch_add_wraps:
  fixes amo :: "('x, 'b::len word) amo"
  assumes "LENGTH('b) = 32 \<or> LENGTH('b) = 64" and "\<not> sy_poisoned s" and "sy_state s = Some st"
    and "amo_fetches B (amo_fadd amo) (+) e (tr_worker (st_transport st)) capable issued visible"
    and "peer_and_address st pe off (of_nat (LENGTH('b) div 8)) = Ok (peer, a)"
    and "capable (pc_endpoint peer)" and "LENGTH('b) div 8 dvd unat a"
    and "issued (w_ext (sy_world s)) (pc_endpoint peer) = visible (w_ext (sy_world s)) (pc_endpoint peer)"
    and "old = sint (mem_word e a (visible (w_ext (sy_world s)) (pc_endpoint peer)) :: 'b word)"
  shows "\<exists>t. atomic_fadd B (signed_impl e amo) pe off v s = Some (Ok old, t) \<and> sy_state t = Some st \<and>
    sint (mem_word e a (visible (w_ext (sy_world t)) (pc_endpoint peer)) :: 'b word) =
      signed_take_bit (LENGTH('b) - 1) (old + v)"
proof -
  have rdy: "ready s st" using assms(2,3) by (simp add: ready_def)
  note run = signed_fetch_add [OF assms(1) rdy assms(4-8) refl, where v = v]
  show ?thesis
    by (rule run) (use assms(3,9) in auto)
qed

theorem signed_fetch_add_wraps_witness:
  "\<exists>t. atomic_fadd sample_bindings (atomic_i32 sample_bindings Little) 1 16 (- 5) sample_sys = Some (Ok 0, t) \<and>
     sint (mem_word Little 65552 (se_visible (w_ext (sy_world t)) 22) :: 32 word) = - 5"
  using signed_fetch_add_wraps [where amo = sample_amo and e = Little and issued = se_issued and visible = se_visible
      and s = sample_sys and st = sample_state and B = sample_bindings and pe = 1 and off = 16
      and 'b = 32 and peer = "sample_peer 22" and a = 65552 and old = 0 and v = "- 5" and capable = sample_capable,
      OF _ _ _ sample_fadd]
  by (auto simp: sample_sys_def peer_and_address_eq_Ok sample_table sample_peer_def atomic_i32_def
      sample_zero signed_take_bit_eq_if_negative sample_capable_def sample_still)

text \<open>Signed atomics carry the unsigned bits: for every value in range the pattern decodes to the
  value, and every pattern is the pattern of its value, for both widths.\<close>

lemma signed_bits_roundtrip:
  "(- (2 ^ 31) \<le> v \<and> v < 2 ^ 31 \<longrightarrow>
      av_from_bits (atomic_i32 B e) (av_bits (atomic_i32 B e) v) = v) \<and>
   (- (2 ^ 63) \<le> v \<and> v < 2 ^ 63 \<longrightarrow>
      av_from_bits (atomic_i64 B e) (av_bits (atomic_i64 B e) v) = v) \<and>
   av_bits (atomic_i32 B e) (av_from_bits (atomic_i32 B e) x) = x \<and>
   av_bits (atomic_i64 B e) (av_from_bits (atomic_i64 B e) y) = y"
proof -
  have "signed_take_bit 31 v = v" if "- (2 ^ 31) \<le> v \<and> v < 2 ^ 31"
    using that by (simp add: signed_take_bit_int_eq_self)
  moreover have "signed_take_bit 63 v = v" if "- (2 ^ 63) \<le> v \<and> v < 2 ^ 63"
    using that by (simp add: signed_take_bit_int_eq_self)
  ultimately show ?thesis
    by (auto simp: atomic_i32_def atomic_i64_def signed_impl_def Let_def sint_sbintrunc')
qed

lemma signed_bits_roundtrip_witness:
  "av_from_bits (atomic_i32 sample_bindings Little) (av_bits (atomic_i32 sample_bindings Little) (- 5)) = - 5"
  using signed_bits_roundtrip [of "- 5" sample_bindings Little 0 0] by simp

end
