(* ===== verification/Delivery_Properties.thy ===== *)
theory Delivery_Properties
  imports Coll_Properties
begin

text \<open>
  What the collectives that work in place deliver: when UCC's broadcast and allreduce do what they
  document to the encoded buffer, the caller's slice ends as the values of the root, or as the
  combination of all contributions, element by element, through the blocking call and through the
  request of the non-blocking one.
\<close>

section \<open>The contracts of UCC\<close>

text \<open>A posted operation on a buffer that completes and leaves bytes there.\<close>

definition ucc_posts :: "'x bindings \<Rightarrow> runtime \<Rightarrow> coll_args \<Rightarrow> nat \<Rightarrow> 'x world \<Rightarrow> bytes \<Rightarrow> bool" where
  "ucc_posts B rt args buf w bs \<longleftrightarrow>
     (\<exists>coll w1 u w2 w3. coll_init (ucc B) args (rt_team rt) w = (Inr coll, w1) \<and>
        coll_post (ucc B) coll w1 = (Inr u, w2) \<and> coll_completes B (rt_context rt) coll w2 w3 \<and>
        w_bufs w3 buf = bs)"

text \<open>On rank \<open>me\<close> of a team of \<open>ranks\<close>: a broadcast from \<open>root\<close>, which sends \<open>bs\<close>.\<close>

definition ucc_broadcasts ::
  "'x bindings \<Rightarrow> runtime \<Rightarrow> u32 \<Rightarrow> usize \<Rightarrow> usize \<Rightarrow> bytes \<Rightarrow> bool"
where
  "ucc_broadcasts B rt ranks me root bs \<longleftrightarrow>
     (\<forall>w. \<exists>w'. ucc_team_size (ucc B) (rt_team rt) w = (Inr ranks, w') \<and> w_bufs w' = w_bufs w) \<and>
     (\<forall>args buf w. ca_type args = Coll_Broadcast \<longrightarrow> ca_inplace args = Some buf \<longrightarrow>
        ca_src args = None \<longrightarrow> ca_dst args = None \<longrightarrow> ca_root args = Some root \<longrightarrow>
        announces args (length bs) \<longrightarrow> length (w_bufs w buf) = length bs \<longrightarrow>
        (me = root \<longrightarrow> w_bufs w buf = bs) \<longrightarrow> ucc_posts B rt args buf w bs)"

text \<open>The combination of the slices of all ranks, element by element and in rank order.\<close>

definition elementwise :: "('a \<Rightarrow> 'a \<Rightarrow> 'a) \<Rightarrow> 'a list list \<Rightarrow> 'a list" where
  "elementwise f xss = fold (\<lambda>xs acc. map2 f acc xs) (tl xss) (hd xss)"

text \<open>On rank \<open>me\<close> of a team whose rank \<open>i\<close> contributes the slice \<open>xss ! i\<close>: an allreduce whose
  operation \<open>rop\<close> is \<open>f\<close> on two elements. The order in which UCC combines the ranks is its own, so
  that it promises a result only for an \<open>f\<close> that does not depend on it.\<close>

definition ucc_allreduces ::
  "'x bindings \<Rightarrow> runtime \<Rightarrow> 'a pod \<Rightarrow> ucc_reduction_op \<Rightarrow> ('a \<Rightarrow> 'a \<Rightarrow> 'a) \<Rightarrow> nat \<Rightarrow> 'a list list \<Rightarrow> bool"
where
  "ucc_allreduces B rt T rop f me xss \<longleftrightarrow> abel_semigroup f \<longrightarrow>
     (\<forall>args buf w. ca_type args = Coll_Allreduce \<longrightarrow> ca_inplace args = Some buf \<longrightarrow>
        ca_src args = None \<longrightarrow> ca_dst args = None \<longrightarrow> ca_op args = Some rop \<longrightarrow>
        ca_dtype args = Some (pod_ucc_datatype T) \<longrightarrow>
        announces args (length (slice_bytes T (xss ! me))) \<longrightarrow>
        w_bufs w buf = slice_bytes T (xss ! me) \<longrightarrow>
        ucc_posts B rt args buf w (slice_bytes T (elementwise f xss)))"

lemma length_elementwise:
  assumes "xss \<noteq> []" and "\<forall>xs \<in> set xss. length xs = n"
  shows "length (elementwise f xss) = n"
proof -
  have "length (fold (\<lambda>xs acc. map2 f acc xs) yss ys) = n"
    if "length ys = n" "\<forall>xs \<in> set yss. length xs = n" for ys yss
    using that by (induction yss arbitrary: ys) simp_all
  with assms show ?thesis by (cases xss) (simp_all add: elementwise_def)
qed

section \<open>From the encoded buffer to the slice\<close>

lemma ucc_posts_start:
  assumes "ucc_posts B rt args buf w bs"
  obtains coll w1 w2 where "coll_start B rt args w = Some (Ok coll, w1)"
    and "coll_completes B (rt_context rt) coll w1 w2" and "w_bufs w2 buf = bs"
  using assms unfolding ucc_posts_def
  by (auto simp: coll_start_def io_bind_eq_Ok io_seq_eq_Ok io_on_fail_eq_Ok ucc_call_def
      io_call_eq_Ok io_return_eq_Ok)

lemma encode_slice_run:
  assumes "pod_codec T" and "unat (pod_size T) * unat n \<le> isize_max"
  shows "encode_slice T d n s = Some (Ok (w_next (sy_world s)),
    s\<lparr>sy_world := snd (buf_new (slice_bytes T (slice_values T d n (sy_world s))) (sy_world s))\<rparr>)"
proof -
  have "length (slice_values T d n (sy_world s)) = unat n" by (simp add: slice_values_def)
  with encode_Ok [OF assms(1), of "slice_values T d n (sy_world s)"] assms(2) show ?thesis
    by (simp add: encode_slice_def outside_lock_Ok io_bind_eq_Ok io_step_eq_Ok io_lift_eq_Ok buf_new_def)
qed

text \<open>The count of a slice, as announced to UCC.\<close>

lemma announces_slice:
  assumes "pod_wire T" and "length xs = unat n" and "ca_dtype args = Some (pod_ucc_datatype T)"
    and "ca_count args = n"
  shows "announces args (length (slice_bytes T xs))"
  using assms pod_wire.wire_length [OF assms(1), of xs] by (simp add: announces_def)

text \<open>Whatever the operation leaves in the encoded buffer is what the slice ends as.\<close>

lemma in_place_delivers:
  assumes codes: "ucc_codes B" and drop: "coll_drop_local B" and T: "pod_codec T"
    and st: "ready s st" "st_collectives st = Some rt"
    and start: "start rt (sy_world s) = Some (Ok coll, w1)"
    and ends: "coll_completes B (rt_context rt) coll w1 w2" and buf: "w_bufs w2 buf = slice_bytes T ys"
    and len: "length ys = unat n" "unat (pod_size T) * unat n \<le> isize_max"
  obtains w where "io_seq (with_runtime (\<lambda>rt. io_bind (start rt) (coll_wait B (rt_context rt))))
      (decode_slice T buf d n) s = Some (Ok (), s\<lparr>sy_world := w\<rparr>)"
    and "slice_values T d n w = ys"
proof -
  let ?w = "release B (R_Coll coll) w2"
  have "coll_wait B (rt_context rt) coll w1 = Some (Ok (), ?w)"
    unfolding coll_wait_iff [OF codes] using ends by blast
  with start have "with_runtime (\<lambda>rt. io_bind (start rt) (coll_wait B (rt_context rt))) s =
      Some (Ok (), s\<lparr>sy_world := ?w\<rparr>)"
    unfolding with_runtime_Ok io_bind_eq_Ok using st by blast
  moreover have "decode T (w_bufs ?w buf) (slice_values T d n ?w) = (Ok (), ys)"
    unfolding coll_drop_bufs [OF drop] buf using len
    by (intro decode_slice_bytes [OF T]) (simp_all add: slice_values_def)
  then have "decode_slice T buf d n (s\<lparr>sy_world := ?w\<rparr>) = Some (Ok (), s\<lparr>sy_world := slice_store T d ys ?w\<rparr>)"
    by (simp add: decode_slice_def outside_lock_Ok decode_to_def sy_world_twice)
  ultimately show ?thesis
    using slice_values_store [OF T len(1)] by (intro that) (simp_all add: io_seq_def io_bind_def)
qed

lemma broadcast_delivers:
  assumes codes: "ucc_codes B" and drop: "coll_drop_local B" and W: "pod_wire T"
    and st: "ready s st" "st_collectives st = Some rt"
    and ucc: "ucc_broadcasts B rt ranks me root (slice_bytes T xs)" and root: "root < ucast ranks"
    and len: "length xs = unat n" "n \<noteq> 0" "unat (pod_size T) * unat n \<le> isize_max"
    and own: "me = root \<Longrightarrow> slice_values T d n (sy_world s) = xs"
  obtains w where "broadcast B T root d n s = Some (Ok (), s\<lparr>sy_world := w\<rparr>)"
    and "slice_values T d n w = xs"
proof -
  note T = pod_wire.axioms(1) [OF W]
  let ?buf = "w_next (sy_world s)" and ?vs = "slice_values T d n (sy_world s)"
  let ?args = "broadcast_args T ?buf n root"
  let ?w = "snd (buf_new (slice_bytes T ?vs) (sy_world s))"
  let ?start = "\<lambda>rt. io_bind (team_size B rt) (\<lambda>sz.
        if sz \<le> root then io_err (Usage ''broadcast root is outside the UCC team'')
        else coll_start B rt ?args)"
  obtain w0 where w0: "ucc_team_size (ucc B) (rt_team rt) ?w = (Inr ranks, w0)" "w_bufs w0 = w_bufs ?w"
    using ucc unfolding ucc_broadcasts_def by blast
  have "length (slice_bytes T ?vs) = length (slice_bytes T xs)"
    by (simp add: pod_codec.length_slice_bytes [OF T] len(1) slice_values_def)
  then have "ucc_posts B rt ?args ?buf w0 (slice_bytes T xs)"
    using ucc w0(2) own announces_slice [OF W len(1), of ?args]
    unfolding ucc_broadcasts_def by (auto simp: broadcast_args_def buf_new_def)
  then obtain coll w1 w2 where post: "coll_start B rt ?args w0 = Some (Ok coll, w1)"
    and ends: "coll_completes B (rt_context rt) coll w1 w2" "w_bufs w2 ?buf = slice_bytes T xs"
    by (rule ucc_posts_start)
  have start: "?start rt (sy_world (s\<lparr>sy_world := ?w\<rparr>)) = Some (Ok coll, w1)"
    using w0(1) post linorder_not_le [THEN iffD2, OF root]
    by (simp add: io_bind_eq_Ok team_size_def ucc_call_def io_call_eq_Ok io_return_eq_Ok)
  obtain w where "io_seq (with_runtime (\<lambda>rt. io_bind (?start rt) (coll_wait B (rt_context rt))))
      (decode_slice T ?buf d n) (s\<lparr>sy_world := ?w\<rparr>) = Some (Ok (), s\<lparr>sy_world := ?w\<rparr>\<lparr>sy_world := w\<rparr>)"
    and "slice_values T d n w = xs"
    using in_place_delivers [where start = ?start, OF codes drop T _ st(2) start ends len(1,3), of d] st(1) by auto
  then show ?thesis
    using that encode_slice_run [OF T len(3), of d s]
    unfolding broadcast_split(1) [OF len(2)] by (simp add: io_bind_def sy_world_twice)
qed

lemma reduce_delivers:
  assumes codes: "ucc_codes B" and drop: "coll_drop_local B" and W: "pod_wire T"
    and st: "ready s st" "st_collectives st = Some rt"
    and ucc: "ucc_allreduces B rt T rop f me xss" and f: "abel_semigroup f"
    and "pod_reduction_supported T rop" and xss: "me < length xss" "\<forall>xs \<in> set xss. length xs = unat n"
    and own: "slice_values T d n (sy_world s) = xss ! me" and len: "unat (pod_size T) * unat n \<le> isize_max"
  obtains w where "reduce B T rop d n s = Some (Ok (), s\<lparr>sy_world := w\<rparr>)"
    and "slice_values T d n w = elementwise f xss"
proof -
  note T = pod_wire.axioms(1) [OF W]
  let ?buf = "w_next (sy_world s)" and ?vs = "slice_values T d n (sy_world s)"
  let ?args = "reduce_args T ?buf n rop"
  let ?w = "snd (buf_new (slice_bytes T ?vs) (sy_world s))"
  have ys: "length (elementwise f xss) = unat n" using xss by (intro length_elementwise) auto
  have "length (xss ! me) = unat n" using xss by simp
  then have "announces ?args (length (slice_bytes T (xss ! me)))"
    by (intro announces_slice [OF W]) (simp_all add: reduce_args_def)
  then have "ucc_posts B rt ?args ?buf ?w (slice_bytes T (elementwise f xss))"
    using ucc f own unfolding ucc_allreduces_def by (simp add: reduce_args_def buf_new_def)
  then obtain coll w1 w2 where post: "coll_start B rt ?args (sy_world (s\<lparr>sy_world := ?w\<rparr>)) = Some (Ok coll, w1)"
    and ends: "coll_completes B (rt_context rt) coll w1 w2" "w_bufs w2 ?buf = slice_bytes T (elementwise f xss)"
    by (rule ucc_posts_start) simp
  obtain w where "io_seq (with_runtime (\<lambda>rt. io_bind (coll_start B rt ?args) (coll_wait B (rt_context rt))))
      (decode_slice T ?buf d n) (s\<lparr>sy_world := ?w\<rparr>) = Some (Ok (), s\<lparr>sy_world := ?w\<rparr>\<lparr>sy_world := w\<rparr>)"
    and "slice_values T d n w = elementwise f xss"
    using in_place_delivers [where start = "\<lambda>rt. coll_start B rt ?args", OF codes drop T _ st(2) post ends ys len, of d] st(1) by auto
  then show ?thesis
    using that encode_slice_run [OF T len, of d s] assms(8)
    by (simp add: reduce_def io_bind_def sy_world_twice)
qed

section \<open>Property\<close>

text \<open>C12: The collectives that work in place deliver. When UCC's broadcast leaves the root's bytes in
  the encoded buffer of every rank, the caller's slice ends as the values of the root; when UCC's
  allreduce combines what all ranks contributed, by an operation for which the order of the ranks
  makes no difference (as for all reductions of integers), the caller's slice ends as the combination of
  the slices of all ranks, element by element. UCC is relied on only for operations that announce
  the datatype and the count of the slice. Both hold of the blocking call, and of the non-blocking
  call followed by \<open>wait\<close>, which end in the same state; the process stays initialised.\<close>

theorem in_place_collectives_deliver:
  assumes "ucc_codes B" and "coll_drop_local B" and "pod_wire T"
    and "ready s st" and "st_collectives st = Some rt"
    and "n \<noteq> 0" and "unat (pod_size T) * unat n \<le> isize_max"
  shows "(ucc_broadcasts B rt ranks me root (slice_bytes T xs) \<and> root < ucast ranks \<and> length xs = unat n \<and>
        (me = root \<longrightarrow> slice_values T d n (sy_world s) = xs) \<longrightarrow>
      (\<exists>q w. broadcast B T root d n s = Some (Ok (), s\<lparr>sy_world := w\<rparr>) \<and>
        nb_then_wait B (broadcast_nb B T root d n) s = Some (Ok q, s\<lparr>sy_world := w\<rparr>) \<and>
        slice_values T d n w = xs)) \<and>
    (ucc_allreduces B rt T rop f i xss \<and> abel_semigroup f \<and> pod_reduction_supported T rop \<and>
        i < length xss \<and> (\<forall>xs \<in> set xss. length xs = unat n) \<and> slice_values T d n (sy_world s) = xss ! i \<longrightarrow>
      (\<exists>q w. reduce B T rop d n s = Some (Ok (), s\<lparr>sy_world := w\<rparr>) \<and>
        nb_then_wait B (reduce_nb B T rop d n) s = Some (Ok q, s\<lparr>sy_world := w\<rparr>) \<and>
        slice_values T d n w = elementwise f xss))"
proof (intro conjI impI; elim conjE)
  assume a: "ucc_broadcasts B rt ranks me root (slice_bytes T xs)" "root < ucast ranks" "length xs = unat n"
    "me = root \<longrightarrow> slice_values T d n (sy_world s) = xs"
  obtain w where w: "broadcast B T root d n s = Some (Ok (), s\<lparr>sy_world := w\<rparr>)" "slice_values T d n w = xs"
    by (rule broadcast_delivers [OF assms(1-5) a(1,2,3) assms(6,7) a(4) [rule_format]])
  with broadcast_forms [OF assms(1,2)] show "\<exists>q w. broadcast B T root d n s = Some (Ok (), s\<lparr>sy_world := w\<rparr>) \<and>
      nb_then_wait B (broadcast_nb B T root d n) s = Some (Ok q, s\<lparr>sy_world := w\<rparr>) \<and> slice_values T d n w = xs"
    by blast
next
  assume a: "ucc_allreduces B rt T rop f i xss" "abel_semigroup f" "pod_reduction_supported T rop"
    "i < length xss" "\<forall>xs \<in> set xss. length xs = unat n" "slice_values T d n (sy_world s) = xss ! i"
  obtain w where w: "reduce B T rop d n s = Some (Ok (), s\<lparr>sy_world := w\<rparr>)" "slice_values T d n w = elementwise f xss"
    by (rule reduce_delivers [OF assms(1-5) a assms(7)])
  with reduce_forms [OF assms(1,2,6)] show "\<exists>q w. reduce B T rop d n s = Some (Ok (), s\<lparr>sy_world := w\<rparr>) \<and>
      nb_then_wait B (reduce_nb B T rop d n) s = Some (Ok q, s\<lparr>sy_world := w\<rparr>) \<and>
      slice_values T d n w = elementwise f xss"
    by blast
qed

text \<open>On the sample: this rank is the root, and contributes 5 to a maximum with 3.\<close>

lemma sample_posts:
  assumes "ca_src args = None" and "w_bufs w buf = bs" and "ca_type args = Coll_Allreduce \<longrightarrow> ca_op args \<noteq> Some Op_Sum"
  shows "ucc_posts sample_bindings rt args buf w bs"
proof -
  let ?w1 = "w\<lparr>w_ext := (w_ext w)\<lparr>se_coll := Some args\<rparr>\<rparr>"
  let ?w2 = "snd (coll_post (ucc sample_bindings) 5 ?w1)"
  have "coll_init (ucc sample_bindings) args (rt_team rt) w = (Inr 5, ?w1)" by (simp add: on_ext_def)
  moreover have "coll_post (ucc sample_bindings) 5 ?w1 = (Inr (), ?w2)" and "w_bufs ?w2 buf = bs"
    using assms by (auto simp: s_coll_post_def s_reduced_def Let_def split: option.split)
  moreover note sample_completes [of "rt_context rt" 5 ?w2]
  ultimately show ?thesis unfolding ucc_posts_def
    by (intro exI conjI) (assumption, assumption, assumption, simp)
qed

theorem in_place_collectives_deliver_witness:
  "(\<exists>q w. broadcast sample_bindings (pod_u32 Little) 0 0 1 sample_caller = Some (Ok (), sample_caller\<lparr>sy_world := w\<rparr>) \<and>
     nb_then_wait sample_bindings (broadcast_nb sample_bindings (pod_u32 Little) 0 0 1) sample_caller =
       Some (Ok q, sample_caller\<lparr>sy_world := w\<rparr>) \<and>
     slice_values (pod_u32 Little) 0 1 w = [5]) \<and>
   (\<exists>q w. reduce sample_bindings (pod_u32 Little) Op_Max 0 1 sample_caller = Some (Ok (), sample_caller\<lparr>sy_world := w\<rparr>) \<and>
     nb_then_wait sample_bindings (reduce_nb sample_bindings (pod_u32 Little) Op_Max 0 1) sample_caller =
       Some (Ok q, sample_caller\<lparr>sy_world := w\<rparr>) \<and>
     slice_values (pod_u32 Little) 0 1 w = [5])"
proof -
  let ?T = "pod_u32 Little"
  obtain rt where rt: "st_collectives sample_state = Some rt" by (simp add: sample_state_def)
  have ready: "ready sample_caller sample_state" by (simp add: ready_def sample_caller_def sample_sys_def)
  have max: "elementwise max [[5 :: u32], [3]] = [5]" by (simp add: elementwise_def)
  have "ucc_broadcasts sample_bindings rt 2 0 0 (slice_bytes ?T [5])"
    unfolding ucc_broadcasts_def by (auto simp: s_ok_def intro!: sample_posts)
  moreover have "ucc_allreduces sample_bindings rt ?T Op_Max max 0 [[5], [3]]"
    unfolding ucc_allreduces_def max by (auto intro!: sample_posts)
  moreover have "slice_values ?T 0 1 (sy_world sample_caller) = [5]"
    by (simp add: slice_values_def pod_u32_def pod_impl_def sample_caller_def) code_simp
  moreover have "abel_semigroup (max :: u32 \<Rightarrow> u32 \<Rightarrow> u32)" by (rule max.abel_semigroup_axioms)
  ultimately show ?thesis
    using in_place_collectives_deliver [OF sample_codes sample_drop_local u32.pod_wire_axioms [of Little] ready rt,
        of 1 2 0 0 "[5]" 0 Op_Max max 0 "[[5], [3]]"]
    by (simp add: max isize_max_def pod_u32_def pod_impl_def integer_reduction_def)
qed

end
