(* ===== verification/Self_Tests.thy ===== *)
theory Self_Tests
  imports Atomics Coll "HOL-Library.Sublist"
begin

text \<open>
  The crate's own tests (the modules \<open>tests\<close> of every source file and \<open>tests/collectives.rs\<close>), as
  computations of the model: a failing assertion, \<open>unwrap\<close> or \<open>expect\<close> is a panic, and the local
  variables are dropped at the end of the test, however it ends. A test passes when it returns.
\<close>

section \<open>Assertions\<close>

definition unwrap :: "('s, error, 'a) io \<Rightarrow> ('s, error, 'a) io" where
  "unwrap m s = (case m s of
      Some (Err e, s') \<Rightarrow> Some (Panic, s')
    | r \<Rightarrow> r)"

definition assert_true :: "bool \<Rightarrow> ('s, error, unit) io" where
  "assert_true b = (if b then io_return () else io_lift Panic)"

text \<open>The result of a call as a value, for \<open>matches!\<close>.\<close>

definition io_try :: "('s, error, 'a) io \<Rightarrow> ('s, error, 'a result) io" where
  "io_try m s = (case m s of
      None \<Rightarrow> None
    | Some (Panic, s') \<Rightarrow> Some (Panic, s')
    | Some (r, s') \<Rightarrow> Some (Ok r, s'))"

definition passes :: "('s, error, unit) io \<Rightarrow> 's \<Rightarrow> bool" where
  "passes test s \<longleftrightarrow> (\<exists>t. test s = Some (Ok (), t))"

section \<open>src/error.rs\<close>

definition pmix_error_converts_and_displays ::
  "'x bindings \<Rightarrow> (error \<Rightarrow> string) \<Rightarrow> ('s, error, unit) io"
where
  "pmix_error_converts_and_displays B to_string =
     (let error = pmix_error_from B (pmix_generic (pmix B)) in
      io_seq (assert_true (error = Pmix (pmix_generic (pmix B))))
        (assert_true (sublist ''pmix error'' (to_string error))))"

definition ucx_error_converts_and_displays_status_code ::
  "'x bindings \<Rightarrow> ucx_status \<Rightarrow> (error \<Rightarrow> string) \<Rightarrow> ('s, error, unit) io"
where
  "ucx_error_converts_and_displays_status_code B invalid_param to_string =
     (let error = ucx_error B invalid_param in
      io_seq (assert_true (case error of Ucx _ \<Rightarrow> True | _ \<Rightarrow> False))
        (assert_true (sublist ''ucx error'' (to_string error))))"

section \<open>src/symheap.rs\<close>

text \<open>A transport and a heap of \<open>sz\<close> bytes; the heap is dropped first.\<close>

definition with_heap_of ::
  "'x bindings \<Rightarrow> usize \<Rightarrow> (symheap \<Rightarrow> ('x world, error, unit) io) \<Rightarrow> ('x world, error, unit) io"
where
  "with_heap_of B sz body =
     io_bind (unwrap (transport_new B 1)) (\<lambda>transport.
     io_finally (release_all B (drop_transport transport))
       (io_bind (unwrap (heap_with_size B (tr_context transport) sz)) (\<lambda>h.
        io_finally (release_all B (drop_heap h)) (body h))))"

text \<open>A call on the heap, unwrapped.\<close>

definition heap_call :: "'a result \<times> symheap \<Rightarrow> ('s, error, 'a \<times> symheap) io" where
  "heap_call c = (case c of (r, h) \<Rightarrow> io_bind (unwrap (io_lift r)) (\<lambda>a. io_return (a, h)))"

definition allocator_alignment_distinct_and_reuses_freed_space ::
  "'x bindings \<Rightarrow> ('x world, error, unit) io"
where
  "allocator_alignment_distinct_and_reuses_freed_space B = with_heap_of B 128 (\<lambda>h.
     io_bind (heap_call (heap_malloc h 1)) (\<lambda>(a, h).
     io_bind (heap_call (heap_malloc h 8)) (\<lambda>(b, h).
     io_seq (assert_true (sp_addr a mod ALIGNMENT = 0))
     (io_seq (assert_true (sp_addr b mod ALIGNMENT = 0))
     (io_seq (assert_true (a \<noteq> b))
     (io_bind (heap_call (heap_free h a)) (\<lambda>(_, h).
      io_bind (heap_call (heap_malloc h 8)) (\<lambda>(c, h).
      assert_true (c = a)))))))))"

definition frees_allocation_at_end_of_multimegabyte_heap ::
  "'x bindings \<Rightarrow> ('x world, error, unit) io"
where
  "frees_allocation_at_end_of_multimegabyte_heap B = with_heap_of B (2 * 1024 * 1024) (\<lambda>h.
     io_bind (io_lift (heap_capacity h)) (\<lambda>capacity.
     io_bind (io_lift (sub_op capacity ALIGNMENT)) (\<lambda>prefix.
     io_bind (heap_call (heap_malloc h prefix)) (\<lambda>(_, h).
     io_bind (heap_call (heap_malloc h ALIGNMENT)) (\<lambda>(tail, h).
     io_bind (io_lift (sub_op (sp_addr tail) (sh_local_base h))) (\<lambda>offset.
     io_bind (io_lift (sub_op capacity ALIGNMENT)) (\<lambda>expected.
     io_seq (assert_true (offset = expected))
     (io_bind (heap_call (heap_free h tail)) (\<lambda>_. io_return ())))))))))"

definition registration_and_rkey_pack_succeed :: "'x bindings \<Rightarrow> ('x world, error, unit) io" where
  "registration_and_rkey_pack_succeed B = with_heap_of B 4096 (\<lambda>h.
     io_seq (assert_true (sh_local_base h \<noteq> 0)) (assert_true (sh_packed_rkey h \<noteq> [])))"

definition peer_rkeys_insert_and_update :: "('s, error, unit) io" where
  "peer_rkeys_insert_and_update =
     (let keys = peer_rkeys_insert btree_empty 2 9 [1];
          keys = peer_rkeys_insert keys 2 10 [2] in
      io_bind (io_lift (or_panic (peer_rkeys_get keys 2))) (\<lambda>key.
      io_seq (assert_true (pk_heap_base key = 10))
        (assert_true (peer_rkeys_get keys 3 = None))))"

definition symmetric_address_translation_preserves_offset :: "('s, error, unit) io" where
  "symmetric_address_translation_preserves_offset =
     io_bind (unwrap (io_lift (to_remote_addr (SymPtr 0x2234) 0x1000 0x9000))) (\<lambda>r.
     assert_true (r = 0xa234))"

definition symmetric_peers_compute_consistent_remote_addresses :: "('s, error, unit) io" where
  "symmetric_peers_compute_consistent_remote_addresses =
     io_bind (unwrap (io_lift (to_remote_addr (SymPtr 0x2234) 0x1000 0x9000))) (\<lambda>r.
     io_seq (assert_true (r = 0xa234))
     (io_bind (unwrap (io_lift (to_remote_addr (SymPtr 0xa234) 0x9000 0x1000))) (\<lambda>q.
      assert_true (q = 0x2234))))"

section \<open>src/bootstrap.rs and src/coll.rs, without a job\<close>

definition keys_are_nul_free_content_and_nul_terminated_for_get :: "('s, error, unit) io" where
  "keys_are_nul_free_content_and_nul_terminated_for_get =
     foldr (\<lambda>(put, get) rest.
       io_seq (assert_true (0 \<notin> set put))
       (io_seq (assert_true (get \<noteq> [] \<and> last get = 0))
       (io_seq (assert_true (butlast get = put)) rest)))
     [(WORKER_ADDR_KEY, WORKER_ADDR_GET_KEY), (HEAP_RKEY_KEY, HEAP_RKEY_GET_KEY),
      (HEAP_BASE_KEY, HEAP_BASE_GET_KEY)] (io_return ())"

definition framed_rkey_roundtrip_is_preserved_in_peer_map :: "('s, error, unit) io" where
  "framed_rkey_roundtrip_is_preserved_in_peer_map =
     (let framed = [3, 0, 0, 0, 9, 8, 7];
          peers = peer_rkeys_insert btree_empty 1 0x1000 framed in
      io_bind (io_lift (or_panic (peer_rkeys_get peers 1))) (\<lambda>key.
      assert_true (pk_rkey key = framed)))"

definition unknown_ucc_status_preserves_raw_code :: "('s, error, unit) io" where
  "unknown_ucc_status_preserves_raw_code = assert_true (map_ucc (- 777) = Ucc (- 777))"

section \<open>src/rma.rs, without a job\<close>

definition creates_rma_worker_and_loopback_capability :: "'x bindings \<Rightarrow> ('x world, error, unit) io" where
  "creates_rma_worker_and_loopback_capability B =
     io_bind (unwrap (transport_new B 1)) (\<lambda>transport.
     io_finally (release_all B (drop_transport transport))
       (io_seq (assert_true (cap_rma (tr_capabilities transport)))
       (io_seq (assert_true (cap_loopback (tr_capabilities transport)))
         (assert_true (tr_packed_address transport \<noteq> [])))))"

definition roundtrip :: "'a pod \<Rightarrow> 'a \<Rightarrow> ('s, error, unit) io" where
  "roundtrip T v =
     (let bytes = pod_encode T v [] in
      io_bind (unwrap (io_lift (pod_decode T bytes))) (\<lambda>decoded.
      io_seq (assert_true (decoded = v))
      (io_seq (assert_true (length bytes = unat (pod_size T)))
      (io_bind (unwrap (io_lift (pod_as_bytes T [v]))) (\<lambda>view.
       assert_true (view = bytes))))))"

text \<open>The two floats by their bit patterns: 1.5 and -2.5.\<close>

definition pod_covers_all_supported_scalar_types :: "endian \<Rightarrow> ('s, error, unit) io" where
  "pod_covers_all_supported_scalar_types e =
     io_seq (roundtrip (pod_u8 e) 1)
     (io_seq (roundtrip (pod_i8 e) (- 1))
     (io_seq (roundtrip (pod_u16 e) 2)
     (io_seq (roundtrip (pod_i16 e) (- 2))
     (io_seq (roundtrip (pod_u32 e) 3)
     (io_seq (roundtrip (pod_i32 e) (- 3))
     (io_seq (roundtrip (pod_u64 e) 4)
     (io_seq (roundtrip (pod_i64 e) (- 4))
     (io_seq (roundtrip (pod_f32 e) 0x3fc00000)
       (roundtrip (pod_f64 e) 0xc004000000000000)))))))))"

definition typed_length_overflow_is_rejected_before_state_lookup ::
  "'x bindings \<Rightarrow> endian \<Rightarrow> ('x sys, error, unit) io"
where
  "typed_length_overflow_is_rejected_before_state_lookup B e =
     io_bind (io_try (get_typed B (pod_u64 e) 0 0 (- 1))) (\<lambda>r.
     assert_true (case r of Err (Usage _) \<Rightarrow> True | _ \<Rightarrow> False))"

definition atomic_value_dispatch_preserves_signed_bit_patterns_without_ucx ::
  "'x bindings \<Rightarrow> endian \<Rightarrow> ('s, error, unit) io"
where
  "atomic_value_dispatch_preserves_signed_bit_patterns_without_ucx B e =
     io_seq (assert_true (av_from_bits (atomic_i32 B e) (- 1) = - 1))
     (io_seq (assert_true (av_from_bits (atomic_i64 B e) (- 1) = - 1))
     (io_seq (assert_true (av_bits (atomic_i32 B e) (- 1) = - 1))
     (io_seq (assert_true (av_bits (atomic_i64 B e) (- 1) = - 1))
     (io_seq (assert_true (av_size (atomic_u32 B e) = 4))
       (assert_true (av_size (atomic_u64 B e) = 8))))))"

section \<open>src/rma.rs, on the loopback endpoint\<close>

text \<open>
  What these two tests use of \<open>ucx-sys\<close> and of their own memory beside the bindings of the crate:
  the registration of a slice, the packing of its key, and a 64-bit word read at an address.
\<close>

record 'x loopback =
  lo_map_slice :: "handle \<Rightarrow> u64 \<Rightarrow> usize \<Rightarrow> ('x, ucx_status, handle) call"
  lo_pack_rkey :: "handle \<Rightarrow> handle \<Rightarrow> ('x, ucx_status, bytes) call"
  lo_word :: "u64 \<Rightarrow> 'x world \<Rightarrow> u64"

text \<open>Both tests register a target of so many 8-byte words (512 for the 4096 bytes of the first) and
  open an endpoint to themselves.\<close>

definition with_loopback ::
  "'x bindings \<Rightarrow> 'x loopback \<Rightarrow> usize \<Rightarrow>
   (ucx_transport \<Rightarrow> u64 \<Rightarrow> handle \<Rightarrow> handle \<Rightarrow> ('x world, error, unit) io) \<Rightarrow>
   ('x world, error, unit) io"
where
  "with_loopback B L words body =
     io_bind (unwrap (transport_new B 1)) (\<lambda>transport.
     io_finally (release_all B (drop_transport transport))
     (io_bind (vec_zeroed_u64 B words) (\<lambda>(_, target).
      io_finally (release B (R_Region target))
      (io_bind (unwrap (ucx_call B (lo_map_slice L (tr_context transport) target (words * 8)))) (\<lambda>memh.
       io_finally (release B (R_Memh memh))
       (io_bind (unwrap (ucx_call B (lo_pack_rkey L (tr_context transport) memh))) (\<lambda>packed.
        io_bind (unwrap (loopback_endpoint B transport)) (\<lambda>endpoint.
        io_finally (release B (R_Endpoint endpoint))
        (io_bind (unwrap (ucx_call B (rkey_unpack (ucx B) endpoint packed))) (\<lambda>rkey.
         io_finally (release B (R_Rkey rkey)) (body transport target endpoint rkey)))))))))))"

text \<open>A request that is waited for and freed when there is one, everything unwrapped.\<close>

definition finish ::
  "'x bindings \<Rightarrow> ucx_transport \<Rightarrow> ('x, ucx_status, handle option) call \<Rightarrow> ('x world, error, unit) io"
where
  "finish B transport f =
     io_bind (unwrap (ucx_call B f)) (\<lambda>request. unwrap (complete_request B transport request))"

definition loopback_rma_put_get_roundtrip_uses_real_completion_path ::
  "'x bindings \<Rightarrow> 'x loopback \<Rightarrow> ('x world, error, unit) io"
where
  "loopback_rma_put_get_roundtrip_uses_real_completion_path B L =
     with_loopback B L 512 (\<lambda>transport target endpoint rkey.
       let source = cstr ''loopback RMA'' in
       io_bind (io_step (buf_new (replicate (length source) 0))) (\<lambda>destination.
       io_seq (finish B transport (rma_put (ucx B) endpoint source target rkey))
       (io_seq (unwrap (transport_fence B transport))
       (io_seq (finish B transport (rma_put (ucx B) endpoint source target rkey))
       (io_seq (finish B transport (ep_flush (ucx B) endpoint))
       (io_seq (finish B transport (rma_get (ucx B) endpoint destination target rkey))
       (io_bind (io_step (buf_get destination)) (\<lambda>received.
        assert_true (received = source)))))))))"

text \<open>A fetching operation whose reply variable starts as \<open>u64::MAX\<close>; its result, and the target
  afterwards, are compared.\<close>

definition fetches ::
  "'x bindings \<Rightarrow> 'x loopback \<Rightarrow> endian \<Rightarrow> ucx_transport \<Rightarrow> u64 \<Rightarrow>
   (handle \<Rightarrow> nat \<Rightarrow> ('x, ucx_status, handle) call) \<Rightarrow> u64 \<Rightarrow> u64 \<Rightarrow> ('x world, error, unit) io"
where
  "fetches B L e transport target f expected_old expected_new =
     io_bind (io_step (buf_new (to_ne_bytes e (- 1 :: u64)))) (\<lambda>reply.
     io_bind (with_worker transport (\<lambda>worker.
       io_bind (unwrap (ucx_call B (f worker reply))) (\<lambda>request.
       io_seq (unwrap (complete_fetch B worker request)) (io_step (buf_get reply))))) (\<lambda>old.
     io_seq (assert_true (from_ne_bytes e old = expected_old))
     (io_bind (io_step (\<lambda>w. (lo_word L target w, w))) (\<lambda>new.
      assert_true (new = expected_new)))))"

definition loopback_integer_atomics_use_real_completion_and_fetch_replies ::
  "'x bindings \<Rightarrow> 'x loopback \<Rightarrow> endian \<Rightarrow> ('x world, error, unit) io"
where
  "loopback_integer_atomics_use_real_completion_and_fetch_replies B L e =
     with_loopback B L 1 (\<lambda>transport address endpoint rkey.
       let amo = amo64 (ucx B) in
       io_seq (finish B transport (amo_swap amo endpoint 10 address rkey 8))
       (io_seq (finish B transport (amo_add amo endpoint 5 address rkey 8))
       (io_seq (finish B transport (amo_xor amo endpoint 3 address rkey 8))
       (io_seq (finish B transport (amo_and amo endpoint (NOT 2) address rkey 8))
       (io_seq (finish B transport (amo_or amo endpoint 4 address rkey 8))
       (io_seq (finish B transport (amo_cswap amo endpoint 12 20 address rkey 8))
       (io_bind (io_step (\<lambda>w. (lo_word L address w, w))) (\<lambda>target.
        io_seq (assert_true (target = 20))
       (io_seq (fetches B L e transport address
          (\<lambda>worker reply. amo_fadd amo endpoint worker 2 address rkey reply) 20 22)
       (io_seq (fetches B L e transport address
          (\<lambda>worker reply. amo_fxor amo endpoint worker 3 address rkey reply) 22 21)
       (io_seq (fetches B L e transport address
          (\<lambda>worker reply. amo_fswap amo endpoint worker 7 address rkey reply) 21 7)
       (fetches B L e transport address
          (\<lambda>worker reply. amo_fcswap amo endpoint worker 7 9 address rkey reply) 7 9))))))))))))"

section \<open>Tests on the state of the process\<close>

text \<open>\<open>src/init.rs\<close>.\<close>

definition queries_fail_before_initialization :: "('x sys, error, unit) io" where
  "queries_fail_before_initialization =
     io_bind (io_try my_pe) (\<lambda>r.
     io_seq (assert_true (r = Err NotInitialized))
     (io_bind (io_try n_pes) (\<lambda>q.
      assert_true (q = Err NotInitialized))))"

definition finalize_is_idempotent_without_a_pmix_server :: "'x bindings \<Rightarrow> ('x sys, error, unit) io" where
  "finalize_is_idempotent_without_a_pmix_server B =
     io_seq (unwrap (finalize B)) (unwrap (finalize B))"

definition dvm_reports_rank_and_size :: "'x bindings \<Rightarrow> bool \<Rightarrow> ('x sys, error, unit) io" where
  "dvm_reports_rank_and_size B collectives =
     io_seq (unwrap (init B collectives))
     (io_bind (unwrap my_pe) (\<lambda>rank.
      io_bind (unwrap n_pes) (\<lambda>sz.
      io_seq (assert_true (rank < ucast sz))
     (io_bind (unwrap n_pes) (\<lambda>sz.
      io_seq (assert_true (1 \<le> sz)) (unwrap (finalize B)))))))"

text \<open>\<open>src/bootstrap.rs\<close>, in a job.\<close>

definition published_size :: "'x bindings \<Rightarrow> handle \<Rightarrow> ('x world, error, usize) io" where
  "published_size B client =
     io_bind (io_ok (io_bind (io_call (\<lambda>_. ()) (pmix_proc (pmix B) client (rank_wildcard (pmix B))))
        (\<lambda>proc. io_bind (io_call (\<lambda>_. ()) (pmix_get_value (pmix B) proc (job_size_key (pmix B)))) (\<lambda>val.
         io_bind (io_step (value_uint32 (pmix B) val)) (\<lambda>n. io_return (ucast n))))))
       (\<lambda>found. io_return (case found of Some n \<Rightarrow> n | None \<Rightarrow> 2))"

definition dvm_exchanges_worker_heap_metadata :: "'x bindings \<Rightarrow> ('x world, error, unit) io" where
  "dvm_exchanges_worker_heap_metadata B =
     io_bind (unwrap (pmix_call B (pmix_connect_new (pmix B)))) (\<lambda>client.
     io_finally (release B (R_Client client))
     (io_bind (unwrap (transport_new B 2)) (\<lambda>transport.
      io_finally (release_all B (drop_transport transport))
     (io_bind (unwrap (heap_new B (tr_context transport))) (\<lambda>h.
      io_finally (release_all B (drop_heap h))
     (io_bind (published_size B client) (\<lambda>sz.
      io_bind (unwrap (handshake B client transport h sz)) (\<lambda>result.
      io_finally (release_all B (drop_peers (bs_peers result)))
     (io_seq (assert_true (length (bs_peers result) = unat sz))
     (io_seq (assert_true (\<forall>peer \<in> set (btree_values (bs_peers result)). pc_heap_base peer \<noteq> 0))
       (unwrap (pmix_raw_call B (pmix_disconnect (pmix B) client)))))))))))))"

text \<open>\<open>src/coll.rs\<close> and \<open>tests/collectives.rs\<close>, in a job. A request that was waited for has no
  operation left to drop; one whose wait fails is dropped with its operation.\<close>

definition wait_done ::
  "'x bindings \<Rightarrow> 'x collective_request \<Rightarrow> ('x sys, error, 'x collective_request) io"
where
  "wait_done B q s = (case request_wait B (q, sy_world s) of
      None \<Rightarrow> None
    | Some (Ok _, (q', w)) \<Rightarrow> Some (Ok q', s\<lparr>sy_world := w\<rparr>)
    | Some (_, (q', w)) \<Rightarrow> Some (Panic, s\<lparr>sy_world :=
        (case cr_op q' of None \<Rightarrow> w | Some coll \<Rightarrow> release B (R_Coll coll) w)\<rparr>))"

definition new_array :: "'a pod \<Rightarrow> 'a list \<Rightarrow> ('x sys, error, nat) io" where
  "new_array T xs = outside_lock (io_step (buf_new (slice_bytes T xs)))"

definition execution_requires_dvm :: "'x bindings \<Rightarrow> endian \<Rightarrow> ('x sys, error, unit) io" where
  "execution_requires_dvm B e =
     io_seq (unwrap (init B True))
     (io_seq (unwrap (barrier B))
     (io_bind (unwrap (barrier_nb B)) (\<lambda>barrier_request.
      io_bind (wait_done B barrier_request) (\<lambda>barrier_request.
      io_bind (new_array (pod_u8 e) [0]) (\<lambda>broadcast_values.
      io_bind (unwrap (broadcast_nb B (pod_u8 e) 0 broadcast_values 1)) (\<lambda>broadcast_request.
      io_bind (wait_done B broadcast_request) (\<lambda>broadcast_request.
      io_bind (new_array (pod_u8 e) [1]) (\<lambda>reduce_values.
      io_bind (unwrap (reduce_nb B (pod_u8 e) Op_Sum reduce_values 1)) (\<lambda>reduce_request.
      io_bind (wait_done B reduce_request) (\<lambda>reduce_request.
      io_bind (unwrap (collect_nb B (pod_u8 e) [1])) (\<lambda>collect_request.
      io_bind (wait_done B collect_request) (\<lambda>collect_request.
      io_bind (unwrap (\<lambda>s. io_lift (request_result (pod_u8 e) collect_request (sy_world s)) s)) (\<lambda>collected.
      io_bind (unwrap n_pes) (\<lambda>sz.
      io_seq (assert_true (length collected = unat sz)) (unwrap (finalize B))))))))))))))))"

definition prterun_collectives_smoke :: "'x bindings \<Rightarrow> ('x sys, error, unit) io" where
  "prterun_collectives_smoke B =
     io_seq (unwrap (init B True)) (io_seq (unwrap (barrier B)) (unwrap (finalize B)))"

end
