(* ===== verification/Self_Test_Props.thy ===== *)
theory Self_Test_Props
  imports Self_Tests Delivery_Properties Atomic_Props Pgas Ledger
begin

text \<open>
  Lemmas on the tests: what a passing run went through, the fixtures (a heap of a given size, the
  loopback endpoint), and the bodies of the tests of the heap.
\<close>

section \<open>Runs that pass\<close>

lemma unwrap_Ok [simp]: "unwrap m s = Some (Ok a, t) \<longleftrightarrow> m s = Some (Ok a, t)"
  by (auto simp: unwrap_def split: option.splits outcome.splits)

lemma assert_true_Ok [simp]: "assert_true b s = Some (Ok u, t) \<longleftrightarrow> b \<and> t = s"
  by (auto simp: assert_true_def io_return_def io_lift_def)

lemma io_finally_Ok: "io_finally c m s = Some (Ok a, t) \<longleftrightarrow> (\<exists>u. m s = Some (Ok a, u) \<and> t = c u)"
  by (auto simp: io_finally_def split: option.splits)

lemma io_try_Ok:
  "io_try m s = Some (Ok r, t) \<longleftrightarrow> m s = Some (r, t) \<and> r \<noteq> Panic"
  by (auto simp: io_try_def split: option.splits outcome.splits)

lemma io_ok_Some: "m s = Some (Ok a, t) \<Longrightarrow> io_ok m s = Some (Ok (Some a), t)"
  by (simp add: io_ok_def)

lemmas test_simps = io_ok_simps io_finally_Ok io_try_Ok

lemma passes_seq: "passes (io_seq m n) s \<longleftrightarrow> (\<exists>t. m s = Some (Ok (), t) \<and> passes n t)"
  by (auto simp: passes_def io_seq_eq_Ok)

lemma passes_bind: "passes (io_bind m f) s \<longleftrightarrow> (\<exists>a t. m s = Some (Ok a, t) \<and> passes (f a) t)"
  by (auto simp: passes_def io_bind_eq_Ok)

lemma passes_finally [simp]: "passes (io_finally c m) s \<longleftrightarrow> passes m s"
  by (auto simp: passes_def io_finally_Ok)

lemma passes_return [simp]: "passes (io_return ()) s"
  by (simp add: passes_def io_return_def)

lemma passes_assert [simp]: "passes (assert_true b) s \<longleftrightarrow> b"
  by (auto simp: passes_def)

lemma passes_unwrap [simp]: "passes (unwrap m) s \<longleftrightarrow> passes m s"
  by (simp add: passes_def)

lemma io_lift_Ok [simp]: "io_lift r s = Some (Ok a, t) \<longleftrightarrow> r = Ok a \<and> t = s"
  by (auto simp: io_lift_def)

lemmas passing = passes_seq passes_bind

section \<open>A heap of a given size\<close>

text \<open>A test with a heap passes as soon as its body does on every fresh heap.\<close>

lemma with_heap_of_passes:
  assumes "alloc_contract B" and "passes (with_heap_of B sz (\<lambda>_. io_return ())) w"
    and "\<And>ctx h w w' v. heap_with_size B ctx sz w = Some (Ok h, w') \<Longrightarrow>
      fresh_heap h (round_up8 (unat sz)) \<Longrightarrow> region_ok h \<Longrightarrow> passes (body h) v"
  shows "passes (with_heap_of B sz body) w"
proof -
  obtain t h w1 w2 where run: "transport_new B 1 w = Some (Ok t, w1)" "heap_with_size B (tr_context t) sz w1 = Some (Ok h, w2)"
    using assms(2) by (auto simp: with_heap_of_def passing)
  then have "passes (body h) w2"
    using assms(3) heap_with_size_fresh(1,2) [OF assms(1)] by blast
  with run show ?thesis by (auto simp: with_heap_of_def passing)
qed

lemma heap_call_Ok [simp]: "heap_call c s = Some (Ok p, t) \<longleftrightarrow> fst c = Ok (fst p) \<and> snd p = snd c \<and> t = s"
  by (cases c; cases p) (auto simp: heap_call_def io_bind_eq_Ok io_return_eq_Ok)

text \<open>Base and free list of a fresh heap.\<close>

lemma fresh_heap_base:
  assumes "fresh_heap h cap" and "region_ok h"
  shows "unat (sh_local_base h) + cap < 2 ^ 64" and "8 dvd unat (sh_local_base h)"
    and "sh_local_base h \<noteq> 0" and "8 * length (sh_region h) = cap"
  using assms by (auto simp: fresh_heap_def region_ok_def heap_base_def heap_cap_def)

lemma word_mod8: "8 dvd unat (a :: usize) \<Longrightarrow> a mod ALIGNMENT = 0"
  by (simp add: ALIGNMENT_def word_arith_nat_mod dvd_eq_mod_eq_0)

lemma allocator_body:
  fixes h :: symheap
  assumes fresh: "fresh_heap h 128" and ok: "region_ok h"
  defines "b \<equiv> sh_local_base h"
  shows "heap_malloc h 1 = (Ok (SymPtr b), h\<lparr>sh_free := [\<lparr>blk_start = 8, blk_len = 120\<rparr>],
      sh_allocations := [b \<mapsto> 8]\<rparr>)"
    and "heap_malloc (h\<lparr>sh_free := [\<lparr>blk_start = 8, blk_len = 120\<rparr>], sh_allocations := [b \<mapsto> 8]\<rparr>) 8 =
      (Ok (SymPtr (b + 8)), h\<lparr>sh_free := [\<lparr>blk_start = 16, blk_len = 112\<rparr>],
        sh_allocations := [b \<mapsto> 8, b + 8 \<mapsto> 8]\<rparr>)"
    and "heap_free (h\<lparr>sh_free := [\<lparr>blk_start = 16, blk_len = 112\<rparr>], sh_allocations := [b \<mapsto> 8, b + 8 \<mapsto> 8]\<rparr>) (SymPtr b) =
      (Ok (), h\<lparr>sh_free := [\<lparr>blk_start = 0, blk_len = 8\<rparr>, \<lparr>blk_start = 16, blk_len = 112\<rparr>],
        sh_allocations := [b + 8 \<mapsto> 8]\<rparr>)"
    and "fst (heap_malloc (h\<lparr>sh_free := [\<lparr>blk_start = 0, blk_len = 8\<rparr>, \<lparr>blk_start = 16, blk_len = 112\<rparr>],
        sh_allocations := [b + 8 \<mapsto> 8]\<rparr>) 8) = Ok (SymPtr b)"
    and "b mod ALIGNMENT = 0" and "(b + 8) mod ALIGNMENT = 0"
proof -
  note base = fresh_heap_base [OF fresh ok, folded b_def]
  have len: "length (sh_region h) = 16" using base(4) by simp
  have b8: "unat (b + 8) = unat b + 8" using base(1) by (simp add: unat_word_ariths)
  note defs = heap_malloc_def round_request_def take_block_def eval_arith b_def [symmetric]
  show "heap_malloc h 1 = (Ok (SymPtr b), h\<lparr>sh_free := [\<lparr>blk_start = 8, blk_len = 120\<rparr>],
      sh_allocations := [b \<mapsto> 8]\<rparr>)"
    using base fresh by (simp add: defs fresh_heap_def)
  show "heap_malloc (h\<lparr>sh_free := [\<lparr>blk_start = 8, blk_len = 120\<rparr>], sh_allocations := [b \<mapsto> 8]\<rparr>) 8 =
      (Ok (SymPtr (b + 8)), h\<lparr>sh_free := [\<lparr>blk_start = 16, blk_len = 112\<rparr>],
        sh_allocations := [b \<mapsto> 8, b + 8 \<mapsto> 8]\<rparr>)"
    using base by (simp add: defs)
  show "heap_free (h\<lparr>sh_free := [\<lparr>blk_start = 16, blk_len = 112\<rparr>], sh_allocations := [b \<mapsto> 8, b + 8 \<mapsto> 8]\<rparr>) (SymPtr b) =
      (Ok (), h\<lparr>sh_free := [\<lparr>blk_start = 0, blk_len = 8\<rparr>, \<lparr>blk_start = 16, blk_len = 112\<rparr>],
        sh_allocations := [b + 8 \<mapsto> 8]\<rparr>)"
    using base(1,2) len b8
    by (simp add: eval_arith b_def [symmetric] block_in_region_def heap_capacity_def fun_upd_twist)
  show "fst (heap_malloc (h\<lparr>sh_free := [\<lparr>blk_start = 0, blk_len = 8\<rparr>, \<lparr>blk_start = 16, blk_len = 112\<rparr>],
        sh_allocations := [b + 8 \<mapsto> 8]\<rparr>) 8) = Ok (SymPtr b)"
    using base by (simp add: defs)
  show "b mod ALIGNMENT = 0" "(b + 8) mod ALIGNMENT = 0"
    using base(2) b8 by (simp_all add: word_mod8)
qed

lemma end_of_heap_body:
  fixes h :: symheap
  assumes fresh: "fresh_heap h 2097152" and ok: "region_ok h"
  defines "b \<equiv> sh_local_base h"
  shows "heap_capacity h = Ok 2097152"
    and "heap_malloc h 2097144 = (Ok (SymPtr b), h\<lparr>sh_free := [\<lparr>blk_start = 2097144, blk_len = 8\<rparr>],
      sh_allocations := [b \<mapsto> 2097144]\<rparr>)"
    and "heap_malloc (h\<lparr>sh_free := [\<lparr>blk_start = 2097144, blk_len = 8\<rparr>], sh_allocations := [b \<mapsto> 2097144]\<rparr>) 8 =
      (Ok (SymPtr (b + 2097144)), h\<lparr>sh_free := [], sh_allocations := [b \<mapsto> 2097144, b + 2097144 \<mapsto> 8]\<rparr>)"
    and "fst (heap_free (h\<lparr>sh_free := [], sh_allocations := [b \<mapsto> 2097144, b + 2097144 \<mapsto> 8]\<rparr>)
      (SymPtr (b + 2097144))) = Ok ()"
    and "sub_op (b + 2097144) b = Ok 2097144"
proof -
  note base = fresh_heap_base [OF fresh ok, folded b_def]
  have len: "length (sh_region h) = 262144" using base(4) by simp
  have tl: "unat (b + 2097144) = unat b + 2097144" using base(1) by (simp add: unat_word_ariths)
  then have le: "b \<le> b + 2097144" by (metis le_add1 word_le_nat_alt)
  note defs = heap_malloc_def round_request_def take_block_def eval_arith b_def [symmetric]
  show cap: "heap_capacity h = Ok 2097152" by (simp add: heap_capacity_def len eval_arith)
  show "heap_malloc h 2097144 = (Ok (SymPtr b), h\<lparr>sh_free := [\<lparr>blk_start = 2097144, blk_len = 8\<rparr>],
      sh_allocations := [b \<mapsto> 2097144]\<rparr>)"
    using base fresh by (simp add: defs fresh_heap_def)
  show "heap_malloc (h\<lparr>sh_free := [\<lparr>blk_start = 2097144, blk_len = 8\<rparr>], sh_allocations := [b \<mapsto> 2097144]\<rparr>) 8 =
      (Ok (SymPtr (b + 2097144)), h\<lparr>sh_free := [], sh_allocations := [b \<mapsto> 2097144, b + 2097144 \<mapsto> 8]\<rparr>)"
    using base by (simp add: defs)
  show "fst (heap_free (h\<lparr>sh_free := [], sh_allocations := [b \<mapsto> 2097144, b + 2097144 \<mapsto> 8]\<rparr>)
      (SymPtr (b + 2097144))) = Ok ()"
    using base(1,2) len tl le
    by (simp add: eval_arith b_def [symmetric] block_in_region_def heap_capacity_def)
  show "sub_op (b + 2097144) b = Ok 2097144" using tl le by (simp add: eval_arith)
qed

section \<open>The tests that need no job\<close>

lemma heap_with_size_rkey:
  assumes "\<And>ctx m v bs v'. mem_pack_rkey (ucx B) ctx m v = (Inr bs, v') \<Longrightarrow> bs \<noteq> []"
  shows "yields (heap_with_size B ctx sz) (\<lambda>h. sh_packed_rkey h \<noteq> [])"
  using assms by (auto simp: yields_def heap_with_size_def Let_def io_ok_simps ucx_call_def split: if_splits)

lemma heap_tests_pass:
  assumes alloc: "alloc_contract B"
    and "passes (with_heap_of B 128 (\<lambda>_. io_return ())) w"
    and "passes (with_heap_of B (2 * 1024 * 1024) (\<lambda>_. io_return ())) w"
    and "passes (with_heap_of B 4096 (\<lambda>_. io_return ())) w"
    and keys: "\<And>ctx m v bs v'. mem_pack_rkey (ucx B) ctx m v = (Inr bs, v') \<Longrightarrow> bs \<noteq> []"
  shows "passes (allocator_alignment_distinct_and_reuses_freed_space B) w"
    and "passes (frees_allocation_at_end_of_multimegabyte_heap B) w"
    and "passes (registration_and_rkey_pack_succeed B) w"
proof -
  show "passes (allocator_alignment_distinct_and_reuses_freed_space B) w"
    unfolding allocator_alignment_distinct_and_reuses_freed_space_def
  proof (rule with_heap_of_passes [OF alloc assms(2)])
    fix h :: symheap and v :: "'a world"
    assume "fresh_heap h (round_up8 (unat (128 :: usize)))" "region_ok h"
    then have "fresh_heap h 128" "region_ok h" by (simp_all add: round_up8_def)
    from allocator_body [OF this]
    show "passes (io_bind (heap_call (heap_malloc h 1)) (\<lambda>(a, h).
     io_bind (heap_call (heap_malloc h 8)) (\<lambda>(b, h).
     io_seq (assert_true (sp_addr a mod ALIGNMENT = 0))
     (io_seq (assert_true (sp_addr b mod ALIGNMENT = 0))
     (io_seq (assert_true (a \<noteq> b))
     (io_bind (heap_call (heap_free h a)) (\<lambda>(_, h).
      io_bind (heap_call (heap_malloc h 8)) (\<lambda>(c, h).
      assert_true (c = a))))))))) v"
      by (simp add: passing split_def del: heap_free.simps)
  qed
  show "passes (frees_allocation_at_end_of_multimegabyte_heap B) w"
    unfolding frees_allocation_at_end_of_multimegabyte_heap_def
  proof (rule with_heap_of_passes [OF alloc assms(3)])
    fix h :: symheap and v :: "'a world"
    assume "fresh_heap h (round_up8 (unat (2 * 1024 * 1024 :: usize)))" "region_ok h"
    then have "fresh_heap h 2097152" "region_ok h" by (simp_all add: round_up8_def)
    note body = end_of_heap_body [OF this]
    have sub: "sub_op 2097152 ALIGNMENT = Ok 2097144" by (simp add: eval_arith)
    have align: "ALIGNMENT = 8" by (simp add: ALIGNMENT_def)
    show "passes (io_bind (io_lift (heap_capacity h)) (\<lambda>capacity.
     io_bind (io_lift (sub_op capacity ALIGNMENT)) (\<lambda>prefix.
     io_bind (heap_call (heap_malloc h prefix)) (\<lambda>(_, h).
     io_bind (heap_call (heap_malloc h ALIGNMENT)) (\<lambda>(tail, h).
     io_bind (io_lift (sub_op (sp_addr tail) (sh_local_base h))) (\<lambda>offset.
     io_bind (io_lift (sub_op capacity ALIGNMENT)) (\<lambda>expected.
     io_seq (assert_true (offset = expected))
     (io_bind (heap_call (heap_free h tail)) (\<lambda>_. io_return ()))))))))) v"
      by (simp add: passing split_def body sub [unfolded align] align del: sub_op_eq_Ok heap_free.simps)
  qed
  show "passes (registration_and_rkey_pack_succeed B) w"
    unfolding registration_and_rkey_pack_succeed_def
  proof (rule with_heap_of_passes [OF alloc assms(4)])
    fix ctx h w w' and v :: "'a world"
    assume h: "heap_with_size B ctx 4096 w = Some (Ok h, w')"
      and "fresh_heap h (round_up8 (unat (4096 :: usize)))" "region_ok h"
    then have "sh_local_base h \<noteq> 0" by (blast dest: fresh_heap_base(3))
    moreover have "sh_packed_rkey h \<noteq> []"
      using yieldsD [OF heap_with_size_rkey [OF keys] h] .
    ultimately show "passes (io_seq (assert_true (sh_local_base h \<noteq> 0)) (assert_true (sh_packed_rkey h \<noteq> []))) v"
      by (simp add: passing)
  qed
qed

lemma error_tests_pass:
  assumes "pmix_generic (pmix B) \<noteq> pmix_success (pmix B)" and "ucx_is_err (ucx B) invalid_param"
  shows "passes (pmix_error_converts_and_displays B (fmt_error px ux cx num)) w"
    and "passes (ucx_error_converts_and_displays_status_code B invalid_param (fmt_error px ux cx num)) w"
proof -
  have "sublist xs (xs @ ys)" for xs ys :: string by (simp add: sublist_append)
  from this [of "''pmix error''" "'': '' @ xs" for xs] this [of "''ucx error''" "'': '' @ xs" for xs]
  have "sublist ''pmix error'' (''pmix error: '' @ xs)" "sublist ''ucx error'' (''ucx error: '' @ xs)" for xs
    by simp_all
  with assms show "passes (pmix_error_converts_and_displays B (fmt_error px ux cx num)) w"
    and "passes (ucx_error_converts_and_displays_status_code B invalid_param (fmt_error px ux cx num)) w"
    by (simp_all add: pmix_error_converts_and_displays_def ucx_error_converts_and_displays_status_code_def
        pmix_error_from_def ucx_error_def from_pmix_def from_ucx_def Let_def passing)
qed

lemma table_tests_pass:
  "passes peer_rkeys_insert_and_update w" "passes framed_rkey_roundtrip_is_preserved_in_peer_map w"
  by (simp_all add: peer_rkeys_insert_and_update_def framed_rkey_roundtrip_is_preserved_in_peer_map_def Let_def passing
      peer_rkeys_insert_def peer_rkeys_get_def btree.get_insert btree.get_empty btree.empty_wf btree.insert_wf or_panic_eq_Ok)

lemma key_tests_pass:
  "passes keys_are_nul_free_content_and_nul_terminated_for_get w" "passes unknown_ucc_status_preserves_raw_code w"
  by (simp_all add: keys_are_nul_free_content_and_nul_terminated_for_get_def unknown_ucc_status_preserves_raw_code_def
      map_ucc_def passing WORKER_ADDR_KEY_def WORKER_ADDR_GET_KEY_def HEAP_RKEY_KEY_def HEAP_RKEY_GET_KEY_def
      HEAP_BASE_KEY_def HEAP_BASE_GET_KEY_def cstr_def)

lemma roundtrip_run:
  assumes "pod_codec T"
  shows "roundtrip T v s = Some (Ok (), s)"
proof -
  have "unat (pod_size T) * length [v] \<le> isize_max" using pod_codec.size_small [OF assms] by (simp add: isize_max_def)
  note view = pod_codec.pod_as_bytes_Ok [OF assms this]
  have "pod_encode T v [] = pod_object T v" by (simp add: pod_codec.encode_object [OF assms])
  then show ?thesis
    by (simp add: roundtrip_def Let_def test_simps view pod_codec.decode_object [OF assms] pod_codec.object_length [OF assms] slice_bytes_def)
qed

lemmas pod_codecs =
  u8.pod_codec_axioms i8.pod_codec_axioms u16.pod_codec_axioms i16.pod_codec_axioms u32.pod_codec_axioms
  i32.pod_codec_axioms u64.pod_codec_axioms i64.pod_codec_axioms f32.pod_codec_axioms f64.pod_codec_axioms

lemma scalar_tests_pass:
  "passes (pod_covers_all_supported_scalar_types e) w"
  "passes (atomic_value_dispatch_preserves_signed_bit_patterns_without_ucx B e) w"
  "passes symmetric_address_translation_preserves_offset w"
  "passes symmetric_peers_compute_consistent_remote_addresses w"
  subgoal
    by (simp add: pod_covers_all_supported_scalar_types_def passes_seq pod_codecs [THEN roundtrip_run])
      (simp add: passes_def pod_codecs [THEN roundtrip_run])
  subgoal
    by (simp add: atomic_value_dispatch_preserves_signed_bit_patterns_without_ucx_def passing
        atomic_i32_def atomic_i64_def atomic_u32_def atomic_u64_def signed_impl_def)
  by (simp_all add: symmetric_address_translation_preserves_offset_def
      symmetric_peers_compute_consistent_remote_addresses_def passing to_remote_addr_Ok)

lemma transport_test_passes:
  assumes "passes (with_heap_of B sz (\<lambda>_. io_return ())) w"
    and "\<forall>wk v a v'. worker_pack_address (ucx B) wk v = (Inr a, v') \<longrightarrow> a \<noteq> []"
  shows "passes (creates_rma_worker_and_loopback_capability B) w"
proof -
  obtain t w1 where t: "transport_new B 1 w = Some (Ok t, w1)"
    using assms(1) by (auto simp: with_heap_of_def passing)
  then obtain wk v v' where "worker_pack_address (ucx B) wk v = (Inr (tr_packed_address t), v')"
    and "tr_capabilities t = \<lparr>cap_rma = True, cap_loopback = (tr_packed_address t \<noteq> [])\<rparr>"
    by (auto simp: transport_new_def test_simps ucx_call_def)
  with assms(2) have "cap_rma (tr_capabilities t)" "cap_loopback (tr_capabilities t)" "tr_packed_address t \<noteq> []"
    by auto
  with t show ?thesis by (auto simp: creates_rma_worker_and_loopback_capability_def passing)
qed

lemma state_tests_pass:
  assumes "\<not> sy_poisoned s" and "sy_state s = None"
  shows "passes (typed_length_overflow_is_rejected_before_state_lookup B e) s"
    and "passes queries_fail_before_initialization s"
    and "passes (finalize_is_idempotent_without_a_pmix_server B) s"
proof -
  have "checked_mul (- 1) (8 :: usize) = None" by (simp add: unsigned_minus_1_eq_mask mask_eq_exp_minus_1)
  then have "checked_mul (- 1) (pod_size (pod_u64 e)) = None" by (simp only: pod_u64_def pod_impl_def pod.select_convs)
  then have "get_typed B (pod_u64 e) 0 0 (- 1) s = Some (Err (Usage ''typed RMA length overflow''), s)"
    by (simp add: get_typed_def io_err_def io_bind_def io_lift_def del: checked_mul_eq_None)
  then show "passes (typed_length_overflow_is_rejected_before_state_lookup B e) s"
    by (simp add: typed_length_overflow_is_rejected_before_state_lookup_def passing test_simps)
  show "passes queries_fail_before_initialization s" "passes (finalize_is_idempotent_without_a_pmix_server B) s"
    using assms by (cases s; simp add: queries_fail_before_initialization_def finalize_is_idempotent_without_a_pmix_server_def
      passing test_simps my_pe_def n_pes_def finalize_def with_lock_def; simp add: passes_def)+
qed

section \<open>The loopback endpoint\<close>

text \<open>A run of the set-up: the transport, the target, the endpoint and the key, and the world in which
  the body of the test starts.\<close>

lemma with_loopback_passes:
  assumes alloc: "alloc_contract B" and "passes (with_loopback B L n (\<lambda>_ _ _ _. io_return ())) w"
    and "\<And>t a ep rk v v' v''. unat a + 8 * unat n \<le> 2 ^ 64 \<Longrightarrow> loopback_endpoint B t v = Some (Ok ep, v') \<Longrightarrow>
      passes (body t a ep rk) v''"
  shows "passes (with_loopback B L n body) w"
proof -
  obtain t w1 xs a w2 memh w3 packed w4 ep w5 rk w6 where run:
    "transport_new B 1 w = Some (Ok t, w1)" "vec_zeroed_u64 B n w1 = Some (Ok (xs, a), w2)"
    "ucx_call B (lo_map_slice L (tr_context t) a (n * 8)) w2 = Some (Ok memh, w3)"
    "ucx_call B (lo_pack_rkey L (tr_context t) memh) w3 = Some (Ok packed, w4)"
    "loopback_endpoint B t w4 = Some (Ok ep, w5)"
    "ucx_call B (rkey_unpack (ucx B) ep packed) w5 = Some (Ok rk, w6)"
    using assms(2) by (auto simp: with_loopback_def passing)
  have "unat a + 8 * unat n < 2 ^ 64"
    using alloc run(2) by (auto simp: alloc_contract_def vec_zeroed_u64_def split: if_splits option.splits)
  then have "passes (body t a ep rk) w6" using assms(3) run(5) by auto
  with run show ?thesis by (auto simp: with_loopback_def passing)
qed

text \<open>The buffers of the caller are vectors: no call of UCX resizes them.\<close>

definition ucx_keeps_lengths :: "'x bindings \<Rightarrow> bool" where
  "ucx_keeps_lengths B \<longleftrightarrow> (\<forall>w b.
     (\<forall>ep bs a rk. length (w_bufs (snd (rma_put (ucx B) ep bs a rk w)) b) = length (w_bufs w b)) \<and>
     (\<forall>ep. length (w_bufs (snd (ep_flush (ucx B) ep w)) b) = length (w_bufs w b)) \<and>
     (\<forall>wk. length (w_bufs (snd (worker_fence (ucx B) wk w)) b) = length (w_bufs w b)) \<and>
     (\<forall>wk r. length (w_bufs (snd (worker_wait_request (ucx B) wk r w)) b) = length (w_bufs w b)) \<and>
     (\<forall>r. length (w_bufs (request_free (ucx B) r w) b) = length (w_bufs w b)))"

lemma settles_keeps_lengths:
  assumes keeps: "ucx_keeps_lengths B" and "settles B worker req w w'"
  shows "length (w_bufs w' b) = length (w_bufs w b)"
  using assms(2)
proof (induction rule: settles.induct)
  case (complete r w w')
  then have "length (w_bufs w' b) = length (w_bufs w b)"
    using keeps unfolding ucx_keeps_lengths_def by (metis snd_conv)
  then show ?case using keeps unfolding ucx_keeps_lengths_def by simp
next
  case (again r w w' w'')
  then show ?case using keeps unfolding ucx_keeps_lengths_def by (metis snd_conv)
qed simp

lemma finish_settles:
  assumes "f w = (Inr req, w1)" and "settles B (tr_worker t) req w1 w2"
  shows "finish B t f w = Some (Ok (), w2)"
  using assms settles_complete [OF assms(2) refl] by (auto simp: finish_def test_simps ucx_call_def)

lemma put_body:
  assumes "ucx_memory B (tr_worker t) issued visible" and keeps: "ucx_keeps_lengths B"
    and "unat a + length bs \<le> 2 ^ 64"
  obtains w' where "finish B t (rma_put (ucx B) ep bs a rk) w = Some (Ok (), w')"
    and "issued (w_ext w') ep = mem_store a bs (issued (w_ext w) ep)"
    and "length (w_bufs w' b) = length (w_bufs w b)"
proof -
  obtain req w1 w2 where run: "rma_put (ucx B) ep bs a rk w = (Inr req, w1)" "settles B (tr_worker t) req w1 w2"
    and "issued (w_ext w2) = (issued (w_ext w))(ep := mem_store a bs (issued (w_ext w) ep))"
    using assms(1,3) unfolding ucx_memory_def by blast
  moreover have "length (w_bufs w1 b) = length (w_bufs w b)"
    using keeps run(1) unfolding ucx_keeps_lengths_def by (metis snd_conv)
  ultimately show ?thesis
    using that [of w2] finish_settles [of "rma_put (ucx B) ep bs a rk", OF run] settles_keeps_lengths [OF keeps run(2), of b] by simp
qed

lemma rma_body:
  assumes ucx: "ucx_memory B (tr_worker t) issued visible" and keeps: "ucx_keeps_lengths B"
    and fence: "fence_completes B (tr_worker t) issued visible"
    and fits: "unat a + length bs \<le> 2 ^ 64"
  shows "passes (io_bind (io_step (buf_new (replicate (length bs) 0))) (\<lambda>destination.
       io_seq (finish B t (rma_put (ucx B) ep bs a rk))
       (io_seq (unwrap (transport_fence B t))
       (io_seq (finish B t (rma_put (ucx B) ep bs a rk))
       (io_seq (finish B t (ep_flush (ucx B) ep))
       (io_seq (finish B t (rma_get (ucx B) ep destination a rk))
       (io_bind (io_step (buf_get destination)) (\<lambda>received.
        assert_true (received = bs))))))))) w"
proof -
  obtain d w1 where d: "buf_new (replicate (length bs) 0) w = (d, w1)" and len1: "length (w_bufs w1 d) = length bs"
    by (simp add: buf_new_def)
  obtain w2 where w2: "finish B t (rma_put (ucx B) ep bs a rk) w1 = Some (Ok (), w2)"
    and len2: "length (w_bufs w2 d) = length (w_bufs w1 d)"
    by (rule put_body [OF ucx keeps fits])
  obtain u w3 where w3: "worker_fence (ucx B) (tr_worker t) w2 = (Inr u, w3)"
    using fence unfolding fence_completes_def by blast
  then have len3: "length (w_bufs w3 d) = length (w_bufs w2 d)"
    using keeps unfolding ucx_keeps_lengths_def by (metis snd_conv)
  obtain w4 where w4: "finish B t (rma_put (ucx B) ep bs a rk) w3 = Some (Ok (), w4)"
      "issued (w_ext w4) ep = mem_store a bs (issued (w_ext w3) ep)"
    and len4: "length (w_bufs w4 d) = length (w_bufs w3 d)"
    by (rule put_body [OF ucx keeps fits])
  obtain req v w5 where flush: "ep_flush (ucx B) ep w4 = (Inr req, v)" "settles B (tr_worker t) req v w5"
    and w5: "visible (w_ext w5) ep = issued (w_ext w4) ep"
    using ucx unfolding ucx_memory_def by (metis fun_upd_same)
  have "length (w_bufs v d) = length (w_bufs w4 d)"
    using keeps flush(1) unfolding ucx_keeps_lengths_def by (metis snd_conv)
  then have len5: "length (w_bufs w5 d) = length bs"
    using settles_keeps_lengths [OF keeps flush(2), of d] len1 len2 len3 len4 by simp
  obtain req' v' w6 where get: "rma_get (ucx B) ep d a rk w5 = (Inr req', v')" "settles B (tr_worker t) req' v' w6"
    and "w_bufs w6 d = mem_load a (length (w_bufs w5 d)) (visible (w_ext w5) ep)"
    using ucx fits len5 unfolding ucx_memory_def by metis
  then have "w_bufs w6 d = bs" using w5 w4(2) len5 mem_load_store [OF fits] by simp
  then show ?thesis
    using d w2 w3 w4(1) finish_settles [of "ep_flush (ucx B) ep", OF flush] finish_settles [of "rma_get (ucx B) ep d a rk", OF get]
    by (auto simp: passing test_simps transport_fence_def ucx_call_def buf_get_def)
qed

section \<open>Sessions\<close>

definition pmix_disconnects :: "'x bindings \<Rightarrow> handle \<Rightarrow> bool" where
  "pmix_disconnects B client \<longleftrightarrow> (\<forall>w. \<exists>u w'. pmix_disconnect (pmix B) client w = (Inr u, w'))"

lemma finalize_passes:
  assumes "ready s st" and "pmix_disconnects B (st_client st)"
  shows "passes (finalize B) s"
proof -
  obtain u w' where "pmix_disconnect (pmix B) (st_client st) (sy_world s) = (Inr u, w')"
    using assms(2) unfolding pmix_disconnects_def by blast
  with assms(1) show ?thesis by (cases s) (auto simp: passes_def finalize_def with_lock_def ready_def)
qed

text \<open>UCC's barrier completes.\<close>

definition ucc_barriers :: "'x bindings \<Rightarrow> runtime \<Rightarrow> bool" where
  "ucc_barriers B rt \<longleftrightarrow> (\<forall>args buf w. ca_type args = Coll_Barrier \<longrightarrow> ca_inplace args = Some buf \<longrightarrow>
     ca_src args = None \<longrightarrow> (\<exists>bs. ucc_posts B rt args buf w bs))"

lemma barrier_run:
  assumes codes: "ucc_codes B" and st: "ready s st" "st_collectives st = Some rt" and "ucc_barriers B rt"
  obtains w where "barrier B s = Some (Ok (), s\<lparr>sy_world := w\<rparr>)"
proof -
  obtain stub w1 where w1: "buf_new [0] (sy_world s) = (stub, w1)" by (simp add: buf_new_def)
  obtain bs where "ucc_posts B rt (barrier_args stub) stub w1 bs"
    using assms(4) unfolding ucc_barriers_def by (fastforce simp: barrier_args_def)
  then obtain coll w2 w3 where "coll_start B rt (barrier_args stub) w1 = Some (Ok coll, w2)"
    and "coll_completes B (rt_context rt) coll w2 w3" by (rule ucc_posts_start)
  then have "io_bind (io_step (buf_new [0])) (\<lambda>stub. io_bind (coll_start B rt (barrier_args stub))
      (coll_wait B (rt_context rt))) (sy_world s) = Some (Ok (), release B (R_Coll coll) w3)"
    using w1 coll_wait_iff [OF codes] by (auto simp: test_simps)
  with st show ?thesis unfolding barrier_def with_runtime_Ok
    by (intro that [of "release B (R_Coll coll) w3"]) (unfold barrier_def with_runtime_Ok, blast)
qed

lemma wait_done_Ok:
  assumes "nb_then_wait B nb s = Some (Ok q, t)"
  shows "\<exists>q0 s1. nb s = Some (Ok q0, s1) \<and> wait_done B q0 s1 = Some (Ok q, t)"
  using assms unfolding nb_then_wait_Ok by (force simp: wait_done_def)

lemma new_array_run:
  assumes "pod_codec T" and "length xs = unat n"
  obtains d w where "new_array T xs s = Some (Ok d, s\<lparr>sy_world := w\<rparr>)" and "slice_values T d n w = xs"
proof -
  let ?d = "w_next (sy_world s)" and ?w = "snd (buf_new (slice_bytes T xs) (sy_world s))"
  let ?v = "?w\<lparr>w_bufs := (w_bufs ?w)(?d := [])\<rparr>"
  have "slice_store T ?d xs ?v = ?w"
    by (simp add: slice_store_def buf_new_def Let_def)
  with slice_values_store [OF assms, of ?d ?v] have "slice_values T ?d n ?w = xs" by simp
  moreover have "new_array T xs s = Some (Ok ?d, s\<lparr>sy_world := ?w\<rparr>)"
    by (simp add: new_array_def outside_lock_def io_step_def buf_new_def)
  ultimately show ?thesis by (intro that)
qed

text \<open>The whole session of \<open>execution_requires_dvm\<close>: every blocking collective that would succeed
  gives the non-blocking one and its wait.\<close>

lemma execution_passes:
  assumes init: "init B True s = Some (Ok (), t)" and st: "ready t st" "st_collectives st = Some rt"
    and codes: "ucc_codes B" and drop: "coll_drop_local B" and keeps: "ucc_keeps_lengths B"
    and barriers: "ucc_barriers B rt"
    and broadcasts: "ucc_broadcasts B rt ranks me 0 (slice_bytes (pod_u8 e) [0])" "0 < (ucast ranks :: usize)"
    and reduces: "ucc_allreduces B rt (pod_u8 e) Op_Sum (+) i xss"
    and gathers: "ucc_allgathers B rt i (map (slice_bytes (pod_u8 e)) xss)"
    and xss: "i < length xss" "xss ! i = [1]" "\<forall>xs \<in> set xss. length xs = length (xss ! i)"
      "length xss = unat (st_size st)" "length xss < 2 ^ 32"
    and pmix: "pmix_disconnects B (st_client st)"
  shows "passes (execution_requires_dvm B e) s"
proof -
  note W = u8.pod_wire_axioms [of e] and T = u8.pod_codec_axioms [of e]
  have size: "unat (pod_size (pod_u8 e)) = 1" by (simp add: pod_u8_def pod_impl_def)
  have one: "length [x] = unat (1 :: usize)" "unat (pod_size (pod_u8 e)) * unat (1 :: usize) \<le> isize_max" for x :: u8
    by (simp_all add: size isize_max_def)
  have sum: "pod_reduction_supported (pod_u8 e) Op_Sum"
    by (simp add: pod_u8_def pod_impl_def integer_reduction_def)
  have rdy: "ready (t\<lparr>sy_world := w\<rparr>) st" for w using st(1) by simp
  obtain w1 where b1: "barrier B t = Some (Ok (), t\<lparr>sy_world := w1\<rparr>)"
    by (rule barrier_run [OF codes st barriers])
  obtain w2 where "barrier B (t\<lparr>sy_world := w1\<rparr>) = Some (Ok (), t\<lparr>sy_world := w1\<rparr>\<lparr>sy_world := w2\<rparr>)"
    by (rule barrier_run [OF codes rdy st(2) barriers])
  then obtain q1 q1' u1 where b2: "barrier_nb B (t\<lparr>sy_world := w1\<rparr>) = Some (Ok q1, u1)"
      "wait_done B q1 u1 = Some (Ok q1', t\<lparr>sy_world := w2\<rparr>)"
    unfolding barrier_forms [OF codes] sy_world_twice using wait_done_Ok by blast
  obtain d w3 where d: "new_array (pod_u8 e) [0] (t\<lparr>sy_world := w2\<rparr>) = Some (Ok d, t\<lparr>sy_world := w2\<rparr>\<lparr>sy_world := w3\<rparr>)"
    and d0: "slice_values (pod_u8 e) d 1 w3 = [0]"
    by (rule new_array_run [OF T one(1)])
  obtain w4 where "broadcast B (pod_u8 e) 0 d 1 (t\<lparr>sy_world := w3\<rparr>) = Some (Ok (), t\<lparr>sy_world := w3\<rparr>\<lparr>sy_world := w4\<rparr>)"
    by (rule broadcast_delivers [OF codes drop W rdy st(2) broadcasts one(1) one_neq_zero one(2)]) (use d0 in auto)
  then obtain q2 q2' u2 where b3: "broadcast_nb B (pod_u8 e) 0 d 1 (t\<lparr>sy_world := w3\<rparr>) = Some (Ok q2, u2)"
      "wait_done B q2 u2 = Some (Ok q2', t\<lparr>sy_world := w4\<rparr>)"
    unfolding broadcast_forms [OF codes drop] sy_world_twice using wait_done_Ok by blast
  obtain f w5 where f: "new_array (pod_u8 e) [1] (t\<lparr>sy_world := w4\<rparr>) = Some (Ok f, t\<lparr>sy_world := w4\<rparr>\<lparr>sy_world := w5\<rparr>)"
    and f1: "slice_values (pod_u8 e) f 1 w5 = [1]"
    by (rule new_array_run [OF T one(1)])
  obtain w6 where "reduce B (pod_u8 e) Op_Sum f 1 (t\<lparr>sy_world := w5\<rparr>) = Some (Ok (), t\<lparr>sy_world := w5\<rparr>\<lparr>sy_world := w6\<rparr>)"
    by (rule reduce_delivers [OF codes drop W rdy st(2) reduces add.abel_semigroup_axioms sum xss(1) _ _ one(2),
        where d = f]) (use f1 xss(2,3) in auto)
  then obtain q3 q3' u3 where b4: "reduce_nb B (pod_u8 e) Op_Sum f 1 (t\<lparr>sy_world := w5\<rparr>) = Some (Ok q3, u3)"
      "wait_done B q3 u3 = Some (Ok q3', t\<lparr>sy_world := w6\<rparr>)"
    unfolding reduce_forms [OF codes drop one_neq_zero] sy_world_twice using wait_done_Ok by blast
  obtain w7 where "collect B (pod_u8 e) [1] (t\<lparr>sy_world := w6\<rparr>) = Some (Ok (concat xss), t\<lparr>sy_world := w6\<rparr>\<lparr>sy_world := w7\<rparr>)"
    using collect_gathers [OF codes drop W rdy st(2) gathers xss(1) _ xss(3) _ xss(5), of w6] xss(2,5)
    by (auto simp: size isize_max_def)
  then obtain q4 q4' u4 where b5: "collect_nb B (pod_u8 e) [1] (t\<lparr>sy_world := w6\<rparr>) = Some (Ok q4, u4)"
      "wait_done B q4 u4 = Some (Ok q4', t\<lparr>sy_world := w7\<rparr>)" "request_result (pod_u8 e) q4' w7 = Ok (concat xss)"
    using collect_forms [OF codes drop keeps T, of "[1]"] wait_done_Ok [of B "collect_nb B (pod_u8 e) [1]"]
    by (fastforce simp: size isize_max_def sy_world_twice)
  have len: "length (concat xss) = unat (st_size st)"
    using length_concat_even [OF xss(3)] xss(2,4) by simp
  have n: "n_pes (t\<lparr>sy_world := w7\<rparr>) = Some (Ok (st_size st), t\<lparr>sy_world := w7\<rparr>)" by (rule query_runs(2) [OF rdy])
  have fin: "passes (finalize B) (t\<lparr>sy_world := w7\<rparr>)" by (rule finalize_passes [OF rdy pmix])
  show ?thesis
    unfolding execution_requires_dvm_def
    using init b1 b2 d b3 f b4 b5 len n fin
    by (simp add: passing sy_world_twice)
qed

lemma smoke_passes:
  assumes init: "init B True s = Some (Ok (), t)" and st: "ready t st" "st_collectives st = Some rt"
    and "ucc_codes B" and "ucc_barriers B rt" and pmix: "pmix_disconnects B (st_client st)"
  shows "passes (prterun_collectives_smoke B) s"
proof -
  obtain w where "barrier B t = Some (Ok (), t\<lparr>sy_world := w\<rparr>)" by (rule barrier_run [OF assms(4) st assms(5)])
  moreover have "passes (finalize B) (t\<lparr>sy_world := w\<rparr>)" using st(1) by (intro finalize_passes [OF _ pmix]) simp
  ultimately show ?thesis using init by (simp add: prterun_collectives_smoke_def passing)
qed

lemma rank_and_size_passes:
  assumes init: "init B c s = Some (Ok (), t)" and st: "ready t st" and "alloc_contract B"
    and "st_rank st < ucast (st_size st)" and pmix: "pmix_disconnects B (st_client st)"
  shows "passes (dvm_reports_rank_and_size B c) s"
proof -
  obtain st' where "ready t st'" "state_inv st'" using init_built [OF assms(3) init] by blast
  with st have "st_size st \<noteq> 0" by (simp add: ready_def state_inv_def)
  then have "1 \<le> st_size st" by (simp add: word_le_nat_alt Suc_le_eq unat_gt_0)
  with init query_runs(1,2) [OF st] assms(4) finalize_passes [OF st pmix] show ?thesis
    by (auto simp: dvm_reports_rank_and_size_def passing)
qed

text \<open>The handshake makes one connection per rank: a size that was read from PMIx has 32 bits.\<close>

lemma handshake_length:
  assumes "handshake B client t h sz w = Some (Ok b, w')" and "unat sz < 2 ^ 32"
  shows "length (bs_peers b) = unat sz" and "\<forall>c \<in> set (btree_values (bs_peers b)). pc_heap_base c \<noteq> 0"
proof -
  note agree = handshake_agree(1) [OF assms(1)]
  then have wf: "btree_wf (bs_peers b)" by (simp add: tables_agree_def)
  have "set (map fst (bs_peers b)) = {pe. pe < ucast sz}"
    using tables_agree_get(1) [OF agree] btree.entries_get [OF wf] by (fastforce simp: btree_get_def map_of_eq_None_iff)
  also have "\<dots> = set (peer_range sz)" by (rule set_peer_range [symmetric])
  finally have "card (set (map fst (bs_peers b))) = card (set (peer_range sz))" by simp
  then have "length (bs_peers b) = length (peer_range sz)"
    using distinct_card [OF distinct_peer_range, of sz] distinct_card [OF btree_wf_distinct [OF wf]] by simp
  also have "\<dots> = unat sz" using assms(2) by (simp add: peer_range_def unsigned_ucast_eq take_bit_nat_eq_self)
  finally show "length (bs_peers b) = unat sz" .
  show "\<forall>c \<in> set (btree_values (bs_peers b)). pc_heap_base c \<noteq> 0"
    using tables_agree_get(2) [OF agree] btree.entries_get [OF wf] by (auto simp: btree_values_def)
qed

lemma published_size_small: "yields (published_size B client) (\<lambda>n. unat n < 2 ^ 32)"
proof -
  have small: "unat (ucast (k :: u32) :: usize) < 2 ^ 32" for k by (rule rank_word(1))
  show ?thesis unfolding yields_def published_size_def
    using small by (auto simp: io_ok_simps io_ok_def split: option.splits outcome.splits)
qed

lemma exchange_passes:
  assumes "pmix_call B (pmix_connect_new (pmix B)) w = Some (Ok client, w1)"
    and "transport_new B 2 w1 = Some (Ok t, w2)" and "heap_new B (tr_context t) w2 = Some (Ok h, w3)"
    and "published_size B client w3 = Some (Ok sz, w4)" and "handshake B client t h sz w4 = Some (Ok b, w5)"
    and "pmix_disconnects B client"
  shows "passes (dvm_exchanges_worker_heap_metadata B) w"
proof -
  obtain u w6 where "pmix_disconnect (pmix B) client w5 = (Inr u, w6)"
    using assms(6) unfolding pmix_disconnects_def by blast
  then have "passes (pmix_raw_call B (pmix_disconnect (pmix B) client)) w5"
    by (auto simp: passes_def pmix_raw_call_def io_call_def)
  with assms(1-5) handshake_length [OF assms(5) yieldsD [OF published_size_small assms(4)]] show ?thesis
    by (auto simp: dvm_exchanges_worker_heap_metadata_def passing)
qed

section \<open>A job\<close>

text \<open>PMIx of a job of \<open>n\<close> processes: it gives this process a rank below \<open>n\<close> and publishes \<open>n\<close>
  as the job size.\<close>

definition pmix_job :: "'x bindings \<Rightarrow> nat \<Rightarrow> bool" where
  "pmix_job B n \<longleftrightarrow>
     (\<forall>client w. unat (fst (pmix_require_rank (pmix B) client w)) < n) \<and>
     (\<forall>client w. \<exists>proc w1 val w2.
        pmix_proc (pmix B) client (rank_wildcard (pmix B)) w = (Inr proc, w1) \<and>
        pmix_get_value (pmix B) proc (job_size_key (pmix B)) w1 = (Inr val, w2) \<and>
        fst (value_uint32 (pmix B) val w2) = of_nat n) \<and>
     (\<forall>client. pmix_disconnects B client)"

text \<open>UCC of the same job, every process of which runs the same test: in a team made for \<open>n\<close> ranks,
  of which this is number \<open>me\<close>, barriers complete, rank 0 broadcasts a zero, and every rank
  contributes a one to the sum of bytes and to the gathering.\<close>

definition ucc_job :: "'x bindings \<Rightarrow> endian \<Rightarrow> nat \<Rightarrow> nat \<Rightarrow> bool" where
  "ucc_job B e n me \<longleftrightarrow> me < n \<and> n < 2 ^ 32 \<and>
     (\<forall>cx tb w w' rt.
        ucc_team_with_params (ucc B) cx (of_nat n) tb w = (Inr (rt_team rt), w') \<longrightarrow>
        ucc_barriers B rt \<and> ucc_broadcasts B rt (of_nat n) (of_nat me) 0 (slice_bytes (pod_u8 e) [0]) \<and>
        ucc_allreduces B rt (pod_u8 e) Op_Sum (+) me (replicate n [1]) \<and>
        ucc_allgathers B rt me (map (slice_bytes (pod_u8 e)) (replicate n [1])))"

lemma job_size_published:
  assumes "pmix_job B n" and "n < 2 ^ 32" and "job_size B client w = Some (Ok (Some sz), w')"
  shows "unat sz = n"
proof -
  obtain p w1 v w2 where "pmix_proc (pmix B) client (rank_wildcard (pmix B)) w = (Inr p, w1)"
    "pmix_get_value (pmix B) p (job_size_key (pmix B)) w1 = (Inr v, w2)"
    "fst (value_uint32 (pmix B) v w2) = of_nat n"
    using assms(1) unfolding pmix_job_def by blast
  with assms(3) have "sz = ucast (of_nat n :: u32)"
    by (auto simp: job_size_def io_bind_def io_ok_def io_call_def io_step_def io_return_def split: prod.splits)
  then show ?thesis using assms(2) by (simp add: unsigned_ucast_eq unat_of_nat_len take_bit_nat_eq_self)
qed

text \<open>What \<open>init\<close> makes of it: the rank is below the size, the size is that of the job, and the team
  of the collectives was made for so many ranks.\<close>

lemma init_in_job:
  assumes "init B True s = Some (Ok (), t)" and job: "pmix_job B n" "n < 2 ^ 32"
  obtains st rt cx tb w w' where "ready t st" and "st_collectives st = Some rt"
    and "unat (st_size st) = n" and "unat (st_rank st) < n"
    and "ucc_team_with_params (ucc B) cx (of_nat n) tb w = (Inr (rt_team rt), w')"
  using assms(1)
proof (cases rule: init_cases)
  case (success st0 w st')
  have size: "unat (st_size st0) = n" and rank: "unat (st_rank st0) < n"
    using success(4) job_size_published [OF job] job(1) unfolding pmix_job_def
    by (auto simp: init_state_def io_ok_simps split: option.splits) (metis fst_conv)
  from success(6) show ?thesis
  proof (cases rule: install_cases)
    case (collectives rt)
    obtain cx tb w1 w2 where "ucc_team_with_params (ucc B) cx (ucast (ucast (st_size st0) :: u32)) tb w1 = (Inr (rt_team rt), w2)"
      using collectives(4) size job(2)
      by (auto simp: runtime_new_def Let_def io_ok_simps ucc_call_def u32_try_from_def)
    moreover have "st_size st0 = of_nat n" using size by (metis unat_of_nat_len unsigned_less word_unat_eq_iff)
    moreover have "ucast (ucast (st_size st0) :: u32) = st_size st0"
      using size job(2) by (intro word_unat_eq_iff [THEN iffD2]) (simp add: unsigned_ucast_eq unsigned_take_bit_eq take_bit_nat_eq_self)
    ultimately show ?thesis
      using that [of st' rt cx tb w1 w2] success(5) collectives(3) size rank by auto
  qed simp_all
qed (simp_all add: lock_error_def)

end
