(* ===== verification/Self_Test_Properties.thy ===== *)
theory Self_Test_Properties
  imports Self_Test_Props Atomic_Properties Symmetry_Properties
begin

text \<open>
  The crate's own tests that need UCX, PMIx or UCC pass under the contracts of these bindings; the
  tests that need nothing of the kind are lemmas of \<open>Self_Test_Props\<close>.
\<close>

section \<open>On the loopback endpoint\<close>

text \<open>C27: The test of the loopback endpoint that the crate runs passes wherever its fixture can be set
  up and UCX keeps its memory contract: through the registration, the endpoint to the own worker, a
  put, a fence, a second put, a flush and a get, the bytes that come back are the bytes that were
  put. (The atomics test on the same endpoint is ignored by the crate, since that endpoint executes
  no atomic.)\<close>

theorem loopback_rma_test_passes:
  assumes "alloc_contract B"
    and "\<forall>worker. ucx_memory B worker issued visible \<and> fence_completes B worker issued visible"
    and "ucx_keeps_lengths B"
    and "passes (with_loopback B L 512 (\<lambda>_ _ _ _. io_return ())) w"
  shows "passes (loopback_rma_put_get_roundtrip_uses_real_completion_path B L) w"
  unfolding loopback_rma_put_get_roundtrip_uses_real_completion_path_def Let_def
proof (rule with_loopback_passes [OF assms(1,4)], rule rma_body [OF _ assms(3)])
  fix t :: ucx_transport and a :: u64
  show "ucx_memory B (tr_worker t) issued visible" "fence_completes B (tr_worker t) issued visible"
    using assms(2) by blast+
  assume "unat a + 8 * unat (512 :: usize) \<le> 2 ^ 64"
  then show "unat a + length (cstr ''loopback RMA'') \<le> 2 ^ 64" by (simp add: cstr_def)
qed

text \<open>The sample with a target of its own: the endpoint is the one whose memory the test reads.\<close>

definition sample_loopback :: "sample_ext loopback" where
  "sample_loopback = \<lparr>lo_map_slice = (\<lambda>_ _ _. s_fresh), lo_pack_rkey = (\<lambda>_ _. s_ok [1, 2, 3, 4]),
     lo_word = (\<lambda>a w. mem_word Little a (se_visible (w_ext w) 22))\<rparr>"

lemma sample_calls:
  "ucx_call sample_bindings (s_ok a) v = Some (Ok a, v)"
  "\<exists>h v'. ucx_call sample_bindings s_fresh v = Some (Ok h, v')"
  by (simp_all add: ucx_call_def io_call_def s_ok_def s_fresh_def on_ext_def)

lemma sample_own_endpoint:
  "loopback_endpoint sample_bindings t v = (if cap_loopback (tr_capabilities t) then Some (Ok 22, v)
     else io_err (Internal ''UCX worker has no loopback address'') v)"
  by (simp add: loopback_endpoint_def sample_calls)

lemma sample_loops:
  assumes "unat n < 2 ^ 58"
  shows "passes (with_loopback sample_bindings sample_loopback n (\<lambda>_ _ _ _. io_return ())) w"
proof -
  have "\<exists>xs v'. vec_zeroed_u64 sample_bindings n v = Some (Ok (xs, 4096), v')" for v
    using assms by (simp add: vec_zeroed_u64_def isize_max_def)
  then show ?thesis
    by (simp add: with_loopback_def passing sample_loopback_def sample_transport sample_own_endpoint sample_calls)
      (use sample_calls(2) in metis)
qed

lemma sample_keeps_buffers: "ucx_keeps_lengths sample_bindings"
  by (simp add: ucx_keeps_lengths_def eval_calls s_put_def s_flush_def s_wait_def)

theorem loopback_rma_test_passes_witness:
  "passes (loopback_rma_put_get_roundtrip_uses_real_completion_path sample_bindings sample_loopback) sample_world0"
proof (rule loopback_rma_test_passes [OF sample_alloc _ sample_keeps_buffers])
  show "\<forall>worker. ucx_memory sample_bindings worker se_issued se_visible \<and>
      fence_completes sample_bindings worker se_issued se_visible"
    by (simp add: sample_memory sample_fence)
  show "passes (with_loopback sample_bindings sample_loopback 512 (\<lambda>_ _ _ _. io_return ())) sample_world0"
    by (rule sample_loops) simp
qed

section \<open>In a job\<close>

text \<open>C26: The tests that run in a job of \<open>n\<close> processes pass once \<open>init\<close> succeeds, under the contracts of
  PMIx, which gives the rank and the job size, and of UCC, for a team made with that size. The rank
  that \<open>my_pe\<close> answers is below what \<open>n_pes\<close> answers, since both come from PMIx; the smoke test goes
  through a barrier and \<open>finalize\<close>; and \<open>execution_requires_dvm\<close> goes through both barriers, a
  broadcast, a sum and a gathering with their requests, and finds one gathered element per rank,
  since \<open>init\<close> hands the job size on to UCC.\<close>

theorem job_tests_pass:
  assumes "alloc_contract B" and "pmix_job B n" and "ucc_job B e n me"
    and "ucc_codes B" and "coll_drop_local B" and "ucc_keeps_lengths B"
    and "init B True s = Some (Ok (), t)"
  shows "passes (dvm_reports_rank_and_size B True) s \<and> passes (prterun_collectives_smoke B) s \<and>
    passes (execution_requires_dvm B e) s"
proof -
  have n: "me < n" "n < 2 ^ 32" using assms(3) by (simp_all add: ucc_job_def)
  obtain st rt cx tb w w' where st: "ready t st" "st_collectives st = Some rt" and size: "unat (st_size st) = n"
    and rank: "unat (st_rank st) < n"
    and "ucc_team_with_params (ucc B) cx (of_nat n) tb w = (Inr (rt_team rt), w')"
    by (rule init_in_job [OF assms(7,2) n(2)])
  then have ucc: "ucc_barriers B rt" "ucc_broadcasts B rt (of_nat n) (of_nat me) 0 (slice_bytes (pod_u8 e) [0])"
    "ucc_allreduces B rt (pod_u8 e) Op_Sum (+) me (replicate n [1])"
    "ucc_allgathers B rt me (map (slice_bytes (pod_u8 e)) (replicate n [1]))"
    using assms(3) unfolding ucc_job_def by blast+
  have pmix: "pmix_disconnects B (st_client st)" using assms(2) by (simp add: pmix_job_def)
  have "st_rank st < ucast (st_size st)" and "0 < (ucast (of_nat n :: u32) :: usize)"
    using rank size n by (simp_all add: word_less_nat_alt unsigned_ucast_eq unat_of_nat_len take_bit_nat_eq_self)
  then show ?thesis
    using rank_and_size_passes [OF assms(7) st(1) assms(1) _ pmix] smoke_passes [OF assms(7) st assms(4) ucc(1) pmix]
      execution_passes [OF assms(7) st assms(4-6) ucc(1,2) _ ucc(3,4) _ _ _ _ _ pmix] n size
    by simp
qed

lemma sample_bytes_job: "ucc_job sample_bindings Little 2 0"
proof -
  have bytes: "slice_bytes (pod_u8 Little) [x] = [x]" for x
    by (simp add: slice_bytes_def pod_u8_def pod_impl_def to_ne_bytes_def le_bytes_def)
  have two: "replicate 2 [1 :: u8] = [[1], [1]]" by (simp add: numeral_2_eq_2)
  have sum: "elementwise (+) [[1 :: u8], [1]] = [2]" by (simp add: elementwise_def)
  have "ucc_posts sample_bindings rt args buf w [2]"
    if "ca_type args = Coll_Allreduce" "ca_inplace args = Some buf" "ca_src args = None" "ca_op args = Some Op_Sum"
      "ca_dtype args = Some (pod_ucc_datatype (pod_u8 Little))" "w_bufs w buf = [1]" for rt args buf w
  proof -
    let ?w1 = "w\<lparr>w_ext := (w_ext w)\<lparr>se_coll := Some args\<rparr>\<rparr>"
    let ?w2 = "snd (coll_post (ucc sample_bindings) 5 ?w1)"
    have "coll_init (ucc sample_bindings) args (rt_team rt) w = (Inr 5, ?w1)" by (simp add: on_ext_def)
    moreover have "coll_post (ucc sample_bindings) 5 ?w1 = (Inr (), ?w2)" and "w_bufs ?w2 buf = [2]"
      using that by (simp_all add: s_coll_post_def s_reduced_def Let_def pod_u8_def pod_impl_def)
    moreover note sample_completes [of "rt_context rt" 5 ?w2]
    ultimately show ?thesis unfolding ucc_posts_def
      by (intro exI conjI) (assumption, assumption, assumption, simp)
  qed
  then have "ucc_allreduces sample_bindings rt (pod_u8 Little) Op_Sum (+) 0 [[1], [1]]" for rt
    by (simp add: ucc_allreduces_def sum bytes)
  moreover have "ucc_barriers sample_bindings rt" "ucc_broadcasts sample_bindings rt 2 0 0 [0]" for rt
    by (auto simp: ucc_barriers_def ucc_broadcasts_def s_ok_def intro!: sample_posts)
  moreover have "ucc_allgathers sample_bindings rt 0 [[1], [1]]" for rt
    using sample_gathers_any [of "[1]" rt] by (simp add: s_other_def)
  ultimately show ?thesis by (simp add: ucc_job_def two bytes del: sample_sel)
qed

theorem job_tests_pass_witness:
  "passes (execution_requires_dvm sample_bindings Little) sample_start"
proof -
  obtain t where t: "init sample_bindings True sample_start = Some (Ok (), t)" by (rule sample_init) blast
  have "pmix_job sample_bindings 2"
    by (simp add: pmix_job_def pmix_disconnects_def s_ok_def s_get_value_def s_value_def on_ext_def)
  from job_tests_pass [OF sample_alloc this sample_bytes_job sample_codes sample_drop_local sample_keeps_lengths t]
  show ?thesis by simp
qed

end
