(* ===== verification/Spec2Isabelle.thy ===== *)
theory Spec2Isabelle
  imports Heap_Properties Symmetry_Properties Lifecycle_Properties Rma_Properties Coll_Properties
    Oob_Properties Request_Properties Ledger_Properties Startup_Properties Example_Properties
    Program_Properties Error_Properties Atomic_Properties Delivery_Properties Self_Test_Properties
begin

text \<open>
  A verification development for openshmem-rs, an OpenSHMEM-style library for Rust: every process
  (a processing element, PE) owns a symmetric heap that the others read and write by remote
  memory access, and a set of collectives.

  \<^bold>\<open>The program and the theories that model it.\<close> One theory per source part, in the order in
  which the parts call each other.

  \<^item> \<open>Rust_Prelude\<close>: what the code uses of Rust: machine integers with checked and panicking
    arithmetic, results with panics as a third outcome, computations on a state that may fail
    to return, early returns with the destructors they run, polling loops, \<open>chunks_exact\<close>,
    \<open>str::parse\<close>.
  \<^item> \<open>Errors\<close>: \<open>src/error.rs\<close>, the error type, its conversions and \<open>Display\<close>.
  \<^item> \<open>Pod\<close>: the scalar codecs of \<open>src/rma.rs\<close> (\<open>Pod\<close>, \<open>pod_types!\<close>, \<open>pod_as_bytes\<close>).
  \<^item> \<open>Bindings\<close>: the interfaces of \<open>ucx-sys\<close>, \<open>pmix\<close>, \<open>ucc\<close> and of the global allocator, as records
    of functions over an abstract world. Their code is not in the repository: every model
    function takes them as a parameter.
  \<^item> \<open>SymHeap\<close>: \<open>src/symheap.rs\<close>: \<open>SymPtr\<close>, \<open>PeerRkeys\<close>, construction, \<open>malloc\<close>, \<open>free\<close>, \<open>SymAlloc\<close>.
    Addresses and sizes are 64-bit words, the free list is the code's list of blocks.
  \<^item> \<open>Ordered_Map\<close>: \<open>BTreeMap\<close> where its order is observable.
  \<^item> \<open>Transport\<close>, \<open>Rma\<close>, \<open>Atomics\<close>: the rest of \<open>src/rma.rs\<close>: the UCX transport and its waiting
    loops; the address check, put, get, fence and quiet; the atomic operations of the
    \<open>atomic_family!\<close> types.
  \<^item> \<open>Bootstrap\<close>: \<open>src/bootstrap.rs\<close>: what a PE publishes, and one connection per rank.
  \<^item> \<open>Coll_Runtime\<close>, \<open>Coll\<close>: \<open>src/coll.rs\<close>: the out-of-band allgather that UCC calls back and the
    runtime built on it; the codec of slices, the blocking and non-blocking collectives and
    their requests. Buffers handed to UCC and the caller's borrowed slices are buffers of the
    world, named by a number.
  \<^item> \<open>Init\<close>: \<open>src/init.rs\<close>: the mutex-protected state of the process (\<open>sys\<close>: is it poisoned, the
    optional \<open>ShmemState\<close>, the world), \<open>init\<close> with the clean-up of every failing step, the
    queries, \<open>finalize\<close>, and the module-level functions of \<open>src/symheap.rs\<close>.
  \<^item> \<open>Examples\<close>: \<open>examples/ping_put_get.rs\<close> and \<open>examples/barrier.rs\<close> up to their exit status.
  \<^item> \<open>Self_Tests\<close>: the \<open>tests\<close> modules of all source files and \<open>tests/collectives.rs\<close>, as programs
    of the model: a failed assertion, \<open>unwrap\<close> or \<open>expect\<close> is a panic, a test \<open>passes\<close> when it
    returns. What they take of \<open>ucx-sys\<close> beyond the crate is the record \<open>loopback\<close>.

  \<^bold>\<open>Interfaces.\<close> \<open>allocator\<close> (\<open>Allocator\<close>) is the contract of an allocator, interpreted on the heap
  of the code and on its mutex-protected handle; \<open>ordered_map\<close> is the contract of the peer map;
  \<open>pod_codec\<close> (\<open>Pod\<close>) that of a scalar codec and \<open>pod_wire\<close> its extension by the size UCC counts for
  the scalar's datatype, interpreted on all ten; \<open>state_keeper\<close> and
  \<open>state_reader\<close> (\<open>Lifecycle\<close>) that of a call which keeps the installed state, interpreted on every
  such call of the crate.

  \<^bold>\<open>What the lemmas show.\<close>

  \<^item> \<open>Heap_Spec\<close>, \<open>SymHeap_Refine\<close>: an allocator on sets of byte offsets that is first fit by
    definition, and the simulation: the code's block list is the canonical list of the free
    bytes, \<open>malloc\<close> and \<open>free\<close> implement the abstract operations on every branch and cannot
    panic. \<open>SymHeap_Props\<close>: consequences for clients, and the symmetry of equally used heaps.
    \<open>Heap_Properties\<close> states them.
  \<^item> \<open>Pgas\<close>, \<open>Symmetry_Properties\<close>: two processes that initialised and made the same heap calls: an
    offset of the own heap reaches the peer's allocation, from \<open>init\<close> to the bytes at the peer.
  \<^item> \<open>Bootstrap_Props\<close>, \<open>Reach\<close>: the two tables of peers agree and are complete; the calls of the
    crate as steps, the states they reach, and their invariant. \<open>Lifecycle_Properties\<close>: the
    invariant, outcomes of \<open>init\<close> and \<open>finalize\<close>, poisoning, refusal, destruction order.
  \<^item> \<open>Ledger\<close>: what \<open>init\<close> acquires from the bindings and gives back; \<open>Ledger_Properties\<close>: no step of
    initialisation leaks or frees twice, a session returns everything, but for the PMIx session
    of a client whose disconnection failed.
  \<^item> \<open>Rma_Props\<close>, \<open>Rma_Properties\<close>: which requests pass the address check; put, quiet, get returns
    what was put; \<open>quiet\<close> is \<open>quiet_pe\<close> for every rank; codecs round trip.
  \<^item> \<open>Atomic_Props\<close>, \<open>Atomic_Properties\<close>: what each of the ten atomic operations computes and replies;
    on an endpoint that executes atomics; a signed operation is the unsigned one on the bit
    patterns; signed sums wrap.
  \<^item> \<open>Error_Layers\<close>, \<open>Error_Properties\<close>: which errors each call and each method of a request can
    return (\<open>raises\<close>), proved by one introduction rule per construct of the model.
  \<^item> \<open>Coll_Props\<close>, \<open>Coll_Properties\<close>, \<open>Request_Properties\<close>, \<open>Oob_Properties\<close>: blocking collectives
    are the non-blocking ones followed by \<open>wait\<close>; \<open>collect\<close> and the out-of-band allgather deliver
    in rank order; the life of a request. \<open>Delivery_Properties\<close>: what \<open>broadcast\<close> and \<open>reduce\<close>
    and their non-blocking forms leave in the slice of the caller.
  \<^item> \<open>Startup_Properties\<close>: what every setting of the heap size leads to, in the heap and in \<open>init\<close>.
  \<^item> \<open>Example_Properties\<close>: initialisation, heap, remote access and ordering together, in the
    sender of \<open>ping_put_get\<close>. \<open>Program_Properties\<close>: when its receiver returns, and in which state
    the two programs leave the session.
  \<^item> \<open>Self_Test_Props\<close>, \<open>Self_Test_Properties\<close>: the tests pass: those without a job wherever their
    fixtures can be created, the loopback test of put and get and the job tests under the contracts
    of the bindings. Of the atomics test on the loopback endpoint, which the crate ignores because
    that endpoint executes no atomic, nothing is claimed.
  \<^item> \<open>Sample\<close>: a concrete instance of the bindings (two PEs) on which the theorems are
    instantiated.

  \<^bold>\<open>Termination.\<close> There is no fuel. The waiting loops are \<open>poll_loop\<close>, a partial function whose
  value is \<open>None\<close> when the loop never ends; theorems about calls that wait state that the call
  returns, from contracts that say that requests settle after finitely many rounds (\<open>settles\<close>,
  \<open>coll_completes\<close>). Everything else is total by structural recursion or a measure.

  \<^bold>\<open>Hypotheses on the bindings.\<close> Each states what the documentation of a binding promises, and each
  holds in a concrete instance.

  \<^item> \<open>alloc_contract\<close>: allocations are aligned and do not wrap.
  \<^item> \<open>ucx_memory\<close>, \<open>fence_completes\<close>: remote memory as two views, what was issued and what is visible;
    a flush makes the issued puts visible, a get reads what is visible, every request settles.
    \<open>ucx_keeps_lengths\<close>: UCX does not resize the caller's buffers.
  \<^item> \<open>ucx_atomics\<close>: on an endpoint whose transport executes atomics (\<open>capable\<close>; the loopback transport
    does not, and the context of the crate is created without UCX's atomic feature), at a naturally
    aligned address and with nothing in flight, an atomic reads and writes one word; one without a
    reply becomes visible by a flush, a fetching one has been executed when it finishes.
  \<^item> \<open>base_published\<close>, \<open>store_publishes\<close>, \<open>store_delivers\<close>: the key-value store returns what the peers
    put. \<open>pmix_job\<close>: the rank is below the job size that PMIx publishes. \<open>pmix_disconnects\<close>: a
    disconnection succeeds.
  \<^item> \<open>ucc_codes\<close>, \<open>coll_drop_local\<close>, \<open>ucc_keeps_lengths\<close>: the two status codes differ, dropping an operation
    does not look at the buffers, no call resizes them. \<open>ucc_allgathers\<close>, \<open>ucc_broadcasts\<close>,
    \<open>ucc_allreduces\<close>, \<open>ucc_barriers\<close>: an operation that announces the datatype and the count of the
    contribution (\<open>announces\<close>) completes and leaves the result; a reduction does so for an operation
    that does not depend on the order of the ranks. \<open>ucc_job\<close>: these, for a team made with the job
    size.
  \<^item> \<open>failures_are_failures\<close>: PMIx and UCC do not report their success as a failure.
  \<^item> \<open>ledger_contract\<close>: constructors add one, destructors take one away; \<open>keeps_ledger\<close> counts the session
    of a client as over once \<open>disconnect\<close> was called, \<open>disconnect_ends\<close> only when it succeeded.

  \<^bold>\<open>Modelling choices.\<close> \<open>usize\<close> is 64 bits and integer overflow panics, as in the checked build
  profile. A \<open>BTreeMap\<close> whose order is not observed is a map. Destructors are the events \<open>release\<close> in the order of Rust's drop
  rules. A panic under the lock poisons it; a panic or undefined behaviour in a callback from C
  has no result.

  \<^bold>\<open>Not modelled.\<close> \<open>src/lib.rs\<close> (the list of modules), printing in the examples, the test
  \<open>public_symbols_compile\<close> (it only ascribes types), the text of panic messages, concurrent use of a request from several threads
  (excluded by its documentation; all other calls hold the lifecycle lock from start to end),
  and the code of the bindings.
\<close>

end
